(* ===== verification/Prelude.thy ===== *)
theory Prelude
  imports Main "HOL-Library.Word"
begin

text \<open>
  What every theory of the development shares: the types the Go code uses for its numbers,
  identifiers and times, the collections of facts the component proofs draw on, and the few
  list and word lemmas that occur in more than one component.

  A Go \<open>int32\<close> or \<open>int64\<close> is a word of that width read by \<open>sint\<close>, so that Go's
  wrap-around is Isabelle's; a \<open>uuid.UUID\<close> (\<open>[16]byte\<close>) is a word of 128 bits, and
  \<open>uuid.Nil\<close> is 0. A \<open>time.Time\<close> and a \<open>time.Duration\<close> are integers, counted in
  nanoseconds. A Go string is a list of bytes, as it is in Go.
\<close>

type_synonym uuid = "128 word"
type_synonym i32 = "32 word"
type_synonym i64 = "64 word"
type_synonym time = int

abbreviation (input) uuid_Nil :: uuid where
  "uuid_Nil \<equiv> 0"

abbreviation (input) second :: time where
  "second \<equiv> 1000000000"

abbreviation (input) minute :: time where
  "minute \<equiv> 60 * second"

text \<open>
  The collections: \<open>wp_simps\<close> computes the weakest precondition of a model function,
  \<open>repo_defs\<close> unfolds the repository operations, \<open>svc_defs\<close> the service operations.
\<close>

named_theorems wp_simps \<open>weakest precondition equations\<close>
named_theorems keeps_rules \<open>preservation rules that follow the syntax of a method\<close>
named_theorems err_simps \<open>equations of the error values\<close>
named_theorems repo_defs \<open>definitions of repository operations\<close>
named_theorems svc_defs \<open>definitions of service operations\<close>

section \<open>Signed machine integers\<close>

definition fits32 :: "int \<Rightarrow> bool" where
  "fits32 i \<longleftrightarrow> - (2 ^ 31) \<le> i \<and> i < 2 ^ 31"

definition fits64 :: "int \<Rightarrow> bool" where
  "fits64 i \<longleftrightarrow> - (2 ^ 63) \<le> i \<and> i < 2 ^ 63"

lemma sint_of_int32 [simp]: "fits32 i \<Longrightarrow> sint (word_of_int i :: i32) = i"
  by (simp add: fits32_def sint_sbintrunc' signed_take_bit_int_eq_self)

lemma sint_of_int64 [simp]: "fits64 i \<Longrightarrow> sint (word_of_int i :: i64) = i"
  by (simp add: fits64_def sint_sbintrunc' signed_take_bit_int_eq_self)

lemma fits32_sint [simp]: "fits32 (sint (w :: i32))"
  using sint_greater_eq [of w] sint_lt [of w] by (simp add: fits32_def)

lemma fits64_sint [simp]: "fits64 (sint (w :: i64))"
  using sint_greater_eq [of w] sint_lt [of w] by (simp add: fits64_def)

lemma sint_eq_iff: "sint (a :: 'a::len word) = sint b \<longleftrightarrow> a = b"
  by (rule signed_word_eqI [THEN iffI]) auto

lemma fits64_mult32:
  "fits64 (sint (p :: i64) * sint (q :: i32)) \<Longrightarrow>
    sint (p * (word_of_int (sint q) :: i64)) = sint p * sint q"
proof -
  assume fit: "fits64 (sint p * sint q)"
  have "(word_of_int (sint p * sint q) :: i64) = word_of_int (sint p) * word_of_int (sint q)"
    by (rule of_int_mult)
  then have "p * (word_of_int (sint q) :: i64) = word_of_int (sint p * sint q)"
    by simp
  with fit show ?thesis by (simp only: sint_of_int64)
qed

lemma fits64_add:
  "fits64 (sint (a :: i64) + sint b) \<Longrightarrow> sint (a + b) = sint a + sint b"
proof -
  assume fit: "fits64 (sint a + sint b)"
  have "(word_of_int (sint a + sint b) :: i64) = word_of_int (sint a) + word_of_int (sint b)"
    by (rule of_int_add)
  then have "a + b = word_of_int (sint a + sint b)"
    by simp
  with fit show ?thesis by (simp only: sint_of_int64)
qed

lemma fits32_add:
  "fits32 (sint (a :: i32) + sint b) \<Longrightarrow> sint (a + b) = sint a + sint b"
proof -
  assume fit: "fits32 (sint a + sint b)"
  have "(word_of_int (sint a + sint b) :: i32) = word_of_int (sint a) + word_of_int (sint b)"
    by (rule of_int_add)
  then have "a + b = word_of_int (sint a + sint b)"
    by simp
  with fit show ?thesis by (simp only: sint_of_int32)
qed

lemma fits32_diff:
  "fits32 (sint (a :: i32) - sint b) \<Longrightarrow> sint (a - b) = sint a - sint b"
proof -
  assume fit: "fits32 (sint a - sint b)"
  have "(word_of_int (sint a - sint b) :: i32) = word_of_int (sint a) - word_of_int (sint b)"
    by (rule of_int_diff)
  then have "a - b = word_of_int (sint a - sint b)"
    by simp
  with fit show ?thesis by (simp only: sint_of_int32)
qed

lemma fits32_diff_nonneg: "0 \<le> sint (b :: i32) \<Longrightarrow> sint b \<le> sint (a :: i32) \<Longrightarrow> fits32 (sint a - sint b)"
  using fits32_sint [of a] by (auto simp: fits32_def)

lemma map_sum_Inr_iff: "map_sum f g x = Inr b \<longleftrightarrow> (\<exists>a. x = Inr a \<and> b = g a)"
  by (cases x) auto

section \<open>Lists\<close>

text \<open>The first element with a given key, as a primary-key lookup reads a table.\<close>

definition tbl_get :: "('r \<Rightarrow> 'k) \<Rightarrow> 'r list \<Rightarrow> 'k \<Rightarrow> 'r option" where
  "tbl_get key t k = find (\<lambda>r. key r = k) t"

lemma tbl_get_Nil [simp]: "tbl_get key [] k = None"
  by (simp add: tbl_get_def)

lemma tbl_get_Cons [simp]:
  "tbl_get key (r # t) k = (if key r = k then Some r else tbl_get key t k)"
  by (simp add: tbl_get_def)

lemma tbl_get_append:
  "tbl_get key (xs @ ys) k = (case tbl_get key xs k of None \<Rightarrow> tbl_get key ys k | Some r \<Rightarrow> Some r)"
  by (induction xs) auto

lemma tbl_get_None_iff: "tbl_get key t k = None \<longleftrightarrow> k \<notin> key ` set t"
  by (induction t) auto

lemma tbl_get_SomeD: "tbl_get key t k = Some r \<Longrightarrow> r \<in> set t \<and> key r = k"
  by (induction t) (auto split: if_splits)

lemma tbl_get_in_set:
  "distinct (map key t) \<Longrightarrow> r \<in> set t \<Longrightarrow> tbl_get key t (key r) = Some r"
  by (induction t) (auto simp: image_iff)

lemma list_all_tbl_get: "list_all P t \<Longrightarrow> tbl_get key t k = Some r \<Longrightarrow> P r"
  by (auto simp: list_all_iff dest: tbl_get_SomeD)

section \<open>Strings\<close>

text \<open>\<open>strconv.Itoa\<close>.\<close>

fun dec_digits :: "nat \<Rightarrow> string" where
  "dec_digits n = (if n < 10 then [char_of (48 + n)] else dec_digits (n div 10) @ [char_of (48 + n mod 10)])"

declare dec_digits.simps [simp del]

definition strconv_Itoa :: "int \<Rightarrow> string" where
  "strconv_Itoa i = (if i < 0 then ''-'' @ dec_digits (nat (- i)) else dec_digits (nat i))"

text \<open>
  \<open>github.com/google/uuid\<close>: its parser accepts what \<open>String()\<close> prints.
\<close>

record uuid_lib =
  uuid_Parse :: "string \<Rightarrow> uuid option"
  uuid_String :: "uuid \<Rightarrow> string"

definition uuid_ok :: "uuid_lib \<Rightarrow> bool" where
  "uuid_ok ul \<longleftrightarrow> (\<forall>u. uuid_Parse ul (uuid_String ul u) = Some u)"

text \<open>A printer and a parser with that property, for the witnesses: decimal numbers.\<close>

definition dec_value :: "string \<Rightarrow> nat" where
  "dec_value s = foldl (\<lambda>v c. v * 10 + (of_char c - 48)) 0 s"

lemma of_char_digit [simp]: "n < 10 \<Longrightarrow> of_char (char_of (48 + n :: nat)) = (48 + n :: nat)"
  by (simp add: take_bit_eq_mod)

lemma dec_value_digits [simp]: "dec_value (dec_digits n) = n"
proof (induction n rule: dec_digits.induct)
  case (1 n)
  then show ?case
    by (subst dec_digits.simps) (simp add: dec_value_def take_bit_eq_mod)
qed

definition plain_uuid :: uuid_lib where
  "plain_uuid = \<lparr>uuid_Parse = (\<lambda>s. Some (of_nat (dec_value s))),
     uuid_String = (\<lambda>u. dec_digits (unat u))\<rparr>"

lemma plain_uuid_ok [simp]: "uuid_ok plain_uuid"
  by (simp add: uuid_ok_def plain_uuid_def)

end
