(* ===== verification/AppErrors.thy ===== *)
theory AppErrors
  imports Prelude
begin

text \<open>
  \<open>pkg/errors/errors.go\<close>: the error values of the program. \<open>goerr\<close> holds the project's
  own \<open>*Error\<close> (\<open>AppError\<close>, with its kind, message and cause) next to the errors of other
  packages that the code tests for: a plain or wrapping error (\<open>StdError\<close>), a
  \<open>*pgconn.PgError\<close> with its SQLSTATE, \<open>pgx.ErrNoRows\<close>, \<open>redis.Nil\<close> and a gRPC status.
  A Go \<open>error\<close> that may be nil is a \<open>goerr option\<close>.

  The lemmas state that the outermost kind wins, that wrapping keeps the cause reachable for
  \<open>errors.Is\<close>, and which chains have no kind.
\<close>

datatype Kind =
    KindUnknown
  | KindNotFound
  | KindAlreadyExists
  | KindInvalidInput
  | KindUnauthenticated
  | KindPermissionDenied
  | KindInternal

text \<open>The \<open>codes.Code\<close> values the program names, and the others.\<close>

datatype code =
    InvalidArgument
  | NotFound
  | AlreadyExists
  | Unauthenticated
  | PermissionDenied
  | ResourceExhausted
  | Internal
  | OtherCode nat

datatype detail =
    ErrorInfo string string            \<comment> \<open>reason, domain\<close>
  | BadRequest "(string \<times> string) list" \<comment> \<open>field, description\<close>

datatype goerr =
    AppError Kind string "goerr option"
  | StdError string "goerr option"
  | PgError string
  | ErrNoRows
  | RedisNil
  | StatusError code string "detail list"

definition New :: "Kind \<Rightarrow> string \<Rightarrow> goerr" where
  "New kind message = AppError kind message None"

definition Wrap :: "Kind \<Rightarrow> goerr option \<Rightarrow> string \<Rightarrow> goerr" where
  "Wrap kind err message = AppError kind message err"

text \<open>
  \<open>Error()\<close> of the project's type. What another package prints for its own error is the
  argument \<open>text\<close>.
\<close>

fun Error_string :: "(goerr \<Rightarrow> string) \<Rightarrow> goerr \<Rightarrow> string" where
  "Error_string text (AppError k msg (Some e)) = msg @ '': '' @ Error_string text e"
| "Error_string text (AppError k msg None) = msg"
| "Error_string text e = text e"

text \<open>\<open>Unwrap\<close> of the project's type and of the wrapping errors of \<open>fmt.Errorf\<close>.\<close>

fun Unwrap :: "goerr \<Rightarrow> goerr option" where
  "Unwrap (AppError k msg e) = e"
| "Unwrap (StdError msg e) = e"
| "Unwrap e = None"

text \<open>The method \<open>Is\<close>: two \<open>*Error\<close>s are alike when kind and message agree.\<close>

fun Error_Is :: "goerr \<Rightarrow> goerr \<Rightarrow> bool" where
  "Error_Is (AppError k msg e) (AppError k' msg' e') \<longleftrightarrow> k = k' \<and> msg = msg'"
| "Error_Is e target \<longleftrightarrow> False"

text \<open>\<open>errors.Is\<close> of the standard library: walk the chain, compare, ask the \<open>Is\<close> method.\<close>

fun errors_Is :: "goerr \<Rightarrow> goerr \<Rightarrow> bool" where
  "errors_Is (AppError k msg (Some e)) target \<longleftrightarrow>
     AppError k msg (Some e) = target \<or> Error_Is (AppError k msg (Some e)) target \<or> errors_Is e target"
| "errors_Is (StdError msg (Some e)) target \<longleftrightarrow> StdError msg (Some e) = target \<or> errors_Is e target"
| "errors_Is e target \<longleftrightarrow> e = target \<or> Error_Is e target"

text \<open>\<open>errors.As(err, &e)\<close> for \<open>*Error\<close>: the first such value on the chain.\<close>

fun errors_As :: "goerr \<Rightarrow> (Kind \<times> string \<times> goerr option) option" where
  "errors_As (AppError k msg e) = Some (k, msg, e)"
| "errors_As (StdError msg (Some e)) = errors_As e"
| "errors_As e = None"

fun GetKind :: "goerr option \<Rightarrow> Kind" where
  "GetKind None = KindUnknown"
| "GetKind (Some err) = (case errors_As err of Some (k, _, _) \<Rightarrow> k | None \<Rightarrow> KindUnknown)"

declare GetKind.simps(2) [simp del]

lemma GetKind_AppError [simp, err_simps]: "GetKind (Some (AppError k m e)) = k"
  by (simp add: GetKind.simps(2))

lemma GetKind_New [simp, err_simps]: "GetKind (Some (New k m)) = k"
  by (simp add: New_def)

lemma GetKind_Wrap [simp, err_simps]: "GetKind (Some (Wrap k e m)) = k"
  by (simp add: Wrap_def)

lemma Error_string_New [simp, err_simps]: "Error_string text (New k m) = m"
  by (simp add: New_def)

lemma New_inject [simp]: "New k m = New k' m' \<longleftrightarrow> k = k' \<and> m = m'"
  by (simp add: New_def)

lemma Wrap_inject [simp]: "Wrap k e m = Wrap k' e' m' \<longleftrightarrow> k = k' \<and> e = e' \<and> m = m'"
  by (auto simp: Wrap_def)

lemma New_eq_Wrap [simp]: "New k m = Wrap k' e m' \<longleftrightarrow> k = k' \<and> e = None \<and> m = m'"
  by (auto simp: Wrap_def New_def)

lemma errors_Is_refl: "errors_Is e e"
  by (cases e rule: Unwrap.cases; cases "Unwrap e") auto

lemma errors_Is_Unwrap: "Unwrap e = Some c \<Longrightarrow> errors_Is c t \<Longrightarrow> errors_Is e t"
  by (cases e) auto

text \<open>Which errors have a kind: those with a project error somewhere on the chain.\<close>

fun chain :: "goerr \<Rightarrow> goerr list" where
  "chain (AppError k msg (Some e)) = AppError k msg (Some e) # chain e"
| "chain (StdError msg (Some e)) = StdError msg (Some e) # chain e"
| "chain e = [e]"

lemma errors_As_None_iff: "errors_As e = None \<longleftrightarrow> (\<forall>x \<in> set (chain e). \<forall>k m c. x \<noteq> AppError k m c)"
  by (induction e rule: chain.induct) auto

lemma errors_Is_chain: "c \<in> set (chain e) \<Longrightarrow> errors_Is e c"
  by (induction e rule: chain.induct) auto

text \<open>
  A wrapped error answers to its own kind whatever its cause is, and every error on the
  cause's chain, the raw driver error included, is still found by \<open>errors.Is\<close>.
\<close>

theorem wrap_keeps_kind_and_cause:
  "GetKind (Some (Wrap k (Some e) m)) = k \<and>
   set (chain e) \<subseteq> {c. errors_Is (Wrap k (Some e) m) c}"
proof -
  have "errors_Is (Wrap k (Some e) m) c" if "c \<in> set (chain e)" for c
    using that by (simp add: Wrap_def errors_Is_chain)
  then show ?thesis by auto
qed

end
