(* ===== verification/Effects.thy ===== *)
theory Effects
  imports AppErrors
begin

text \<open>
  The effects of a service method. A method is a \<open>comp\<close>: a function of the service's state
  \<open>env\<close> that returns a Go result (\<open>Inl err\<close> or \<open>Inr value\<close>) with the state it leaves.

  \<open>env\<close> holds what the process shares with the outside: the database \<open>db\<close>, the messages \<open>bus\<close>
  it published, the streams from which \<open>time.Now()\<close>/\<open>NOW()\<close> and \<open>uuid.New()\<close> read, and the
  schedule \<open>faults\<close> of external failures, indexed by the number of external calls made so far.
  A call to the database, the broker or another service can be lost before it takes effect
  (\<open>Before\<close>) or after (\<open>After\<close>: a timeout on the answer). The theorems hold for every schedule, so
  they cover every failure at every point of a method.

  \<open>WithTx\<close> is \<open>pkg/postgres/postgres.go\<close>. The lemmas compute \<open>wp m Q s\<close>, that \<open>Q\<close> holds of what
  \<open>m\<close> returns and leaves.
\<close>

datatype fault = Before goerr | After goerr

record ('d, 'm) env =
  faults :: "nat \<Rightarrow> fault option"
  calls :: nat
  clock :: "nat \<Rightarrow> time"
  ticks :: nat
  gen :: "nat \<Rightarrow> uuid"
  gens :: nat
  db :: 'd
  bus :: "'m list"

type_synonym ('s, 'a) comp = "'s \<Rightarrow> (goerr + 'a) \<times> 's"

section \<open>Sequencing\<close>

definition ret :: "'a \<Rightarrow> ('s, 'a) comp" where
  "ret a s = (Inr a, s)"

definition fail :: "goerr \<Rightarrow> ('s, 'a) comp" where
  "fail e s = (Inl e, s)"

text \<open>\<open>x, err := m()\<close>, the result and the error handed on together.\<close>

definition bindS :: "('s, 'a) comp \<Rightarrow> (goerr + 'a \<Rightarrow> ('s, 'b) comp) \<Rightarrow> ('s, 'b) comp" where
  "bindS m k s = (case m s of (r, s') \<Rightarrow> k r s')"

text \<open>\<open>x, err := m(); if err != nil { return err }\<close>.\<close>

definition bindE :: "('s, 'a) comp \<Rightarrow> ('a \<Rightarrow> ('s, 'b) comp) \<Rightarrow> ('s, 'b) comp" where
  "bindE m k = bindS m (\<lambda>r. case r of Inl e \<Rightarrow> fail e | Inr a \<Rightarrow> k a)"

text \<open>\<open>if err != nil { return appErrors.Wrap(kind, err, msg) }\<close>.\<close>

definition wrapE :: "Kind \<Rightarrow> string \<Rightarrow> ('s, 'a) comp \<Rightarrow> ('s, 'a) comp" where
  "wrapE k msg m = bindS m (\<lambda>r. case r of Inl e \<Rightarrow> fail (Wrap k (Some e) msg) | Inr a \<Rightarrow> ret a)"

definition read :: "('s \<Rightarrow> 'a) \<Rightarrow> ('s, 'a) comp" where
  "read f s = (Inr (f s), s)"

definition time_Now :: "(('d, 'm, 'z) env_scheme, time) comp" where
  "time_Now s = (Inr (clock s (ticks s)), s\<lparr>ticks := ticks s + 1\<rparr>)"

definition uuid_New :: "(('d, 'm, 'z) env_scheme, uuid) comp" where
  "uuid_New s = (Inr (gen s (gens s)), s\<lparr>gens := gens s + 1\<rparr>)"

section \<open>External calls\<close>

definition extern ::
  "(('d, 'm, 'z) env_scheme, 'a) comp \<Rightarrow> (('d, 'm, 'z) env_scheme, 'a) comp" where
  "extern m s =
     (let s1 = s\<lparr>calls := calls s + 1\<rparr> in
      case faults s (calls s) of
        None \<Rightarrow> m s1
      | Some (Before e) \<Rightarrow> (Inl e, s1)
      | Some (After e) \<Rightarrow> (case m s1 of (Inl e', s2) \<Rightarrow> (Inl e', s2) | (Inr a, s2) \<Rightarrow> (Inl e, s2)))"

definition on_db ::
  "('d \<Rightarrow> (goerr + 'a) \<times> 'd) \<Rightarrow> (('d, 'm, 'z) env_scheme, 'a) comp" where
  "on_db f s = (case f (db s) of (r, d) \<Rightarrow> (r, s\<lparr>db := d\<rparr>))"

text \<open>A SQL statement sent to the database.\<close>

definition query ::
  "('d \<Rightarrow> (goerr + 'a) \<times> 'd) \<Rightarrow> (('d, 'm, 'z) env_scheme, 'a) comp" where
  "query f = extern (on_db f)"

text \<open>A message sent to the broker.\<close>

definition send :: "'m \<Rightarrow> (('d, 'm, 'z) env_scheme, unit) comp" where
  "send m = extern (\<lambda>s. (Inr (), s\<lparr>bus := bus s @ [m]\<rparr>))"

section \<open>Transactions\<close>

text \<open>A rolled back transaction leaves the database as it found it, and nothing else.\<close>

definition rollback ::
  "('d, 'm, 'z) env_scheme \<Rightarrow> ('d, 'm, 'z) env_scheme \<Rightarrow> ('d, 'm, 'z) env_scheme" where
  "rollback s s' = s'\<lparr>db := db s\<rparr>"

definition WithTx ::
  "bool \<Rightarrow> (('d, 'm, 'z) env_scheme, 'a) comp option \<Rightarrow> (('d, 'm, 'z) env_scheme, 'a) comp" where
  "WithTx pool fn s =
     (if \<not> pool then fail (New KindInternal ''postgres pool is nil'') s else
      case fn of
        None \<Rightarrow> fail (New KindInvalidInput ''transaction callback is nil'') s
      | Some body \<Rightarrow>
        (case extern (ret ()) s of
           (Inl err, s1) \<Rightarrow> fail (Wrap KindInternal (Some err) ''failed to begin transaction'') s1
         | (Inr _, s1) \<Rightarrow>
           (case body s1 of
              (Inl err, s2) \<Rightarrow> (Inl err, rollback s s2)
            | (Inr a, s2) \<Rightarrow>
              (case faults s2 (calls s2) of
                 None \<Rightarrow> (Inr a, s2\<lparr>calls := calls s2 + 1\<rparr>)
               | Some (Before err) \<Rightarrow>
                   (Inl (Wrap KindInternal (Some err) ''failed to commit transaction''),
                    rollback s (s2\<lparr>calls := calls s2 + 1\<rparr>))
               | Some (After err) \<Rightarrow>
                   (Inl (Wrap KindInternal (Some err) ''failed to commit transaction''),
                    s2\<lparr>calls := calls s2 + 1\<rparr>)))))"

section \<open>Weakest preconditions\<close>

definition wp :: "('s, 'a) comp \<Rightarrow> (goerr + 'a \<Rightarrow> 's \<Rightarrow> bool) \<Rightarrow> 's \<Rightarrow> bool" where
  "wp m Q s = Q (fst (m s)) (snd (m s))"

lemma wp_iff: "wp m Q s \<longleftrightarrow> (case m s of (r, s') \<Rightarrow> Q r s')"
  by (simp add: wp_def split: prod.splits)

lemma wpD: "wp m Q s \<Longrightarrow> m s = (r, s') \<Longrightarrow> Q r s'"
  by (simp add: wp_def)

lemma wpI: "(\<And>r s'. m s = (r, s') \<Longrightarrow> Q r s') \<Longrightarrow> wp m Q s"
  by (cases "m s") (simp add: wp_def)

lemma wp_mono: "wp m Q s \<Longrightarrow> (\<And>r s'. Q r s' \<Longrightarrow> R r s') \<Longrightarrow> wp m R s"
  by (simp add: wp_def)

lemma wp_conj: "wp m (\<lambda>r s'. Q r s' \<and> R r s') s \<longleftrightarrow> wp m Q s \<and> wp m R s"
  by (simp add: wp_def)

lemma wp_ret [wp_simps]: "wp (ret a) Q s = Q (Inr a) s"
  by (simp add: wp_def ret_def)

lemma wp_fail [wp_simps]: "wp (fail e) Q s = Q (Inl e) s"
  by (simp add: wp_def fail_def)

lemma wp_read [wp_simps]: "wp (read f) Q s = Q (Inr (f s)) s"
  by (simp add: wp_def read_def)

lemma wp_bindS [wp_simps]: "wp (bindS m k) Q s = wp m (\<lambda>r s'. wp (k r) Q s') s"
  by (simp add: wp_def bindS_def split: prod.splits)

lemma wp_bindE [wp_simps]:
  "wp (bindE m k) Q s =
     wp m (\<lambda>r s'. case r of Inl e \<Rightarrow> Q (Inl e) s' | Inr a \<Rightarrow> wp (k a) Q s') s"
  by (auto simp add: bindE_def bindS_def wp_def fail_def split: sum.splits prod.splits)

lemma wp_wrapE [wp_simps]:
  "wp (wrapE k msg m) Q s =
     wp m (\<lambda>r s'. case r of Inl e \<Rightarrow> Q (Inl (Wrap k (Some e) msg)) s' | Inr a \<Rightarrow> Q (Inr a) s') s"
  by (auto simp add: wrapE_def bindS_def wp_def fail_def ret_def split: sum.splits prod.splits)

lemma wp_time_Now [wp_simps]:
  "wp time_Now Q s = Q (Inr (clock s (ticks s))) (s\<lparr>ticks := ticks s + 1\<rparr>)"
  by (simp add: wp_def time_Now_def)

lemma wp_uuid_New [wp_simps]:
  "wp uuid_New Q s = Q (Inr (gen s (gens s))) (s\<lparr>gens := gens s + 1\<rparr>)"
  by (simp add: wp_def uuid_New_def)

lemma wp_if [wp_simps]: "wp (if b then m else n) Q s = (if b then wp m Q s else wp n Q s)"
  by simp

lemma wp_case_sum [wp_simps]:
  "wp (case x of Inl e \<Rightarrow> f e | Inr a \<Rightarrow> g a) Q s =
     (case x of Inl e \<Rightarrow> wp (f e) Q s | Inr a \<Rightarrow> wp (g a) Q s)"
  by (simp split: sum.splits)

lemma wp_case_option [wp_simps]:
  "wp (case x of None \<Rightarrow> f | Some a \<Rightarrow> g a) Q s =
     (case x of None \<Rightarrow> wp f Q s | Some a \<Rightarrow> wp (g a) Q s)"
  by (simp split: option.splits)

lemma wp_Let [wp_simps]: "wp (let x = a in f x) Q s = (let x = a in wp (f x) Q s)"
  by simp

lemma wp_on_db [wp_simps]:
  "wp (on_db f) Q s = (case f (db s) of (r, d) \<Rightarrow> Q r (s\<lparr>db := d\<rparr>))"
  by (simp add: wp_def on_db_def split: prod.splits)

text \<open>
  What follows from an external call: it fails with the database untouched, or its effect
  happens and the answer is its own or a failure.
\<close>

lemma wp_externI:
  assumes "\<And>e. faults s (calls s) = Some (Before e) \<Longrightarrow> Q (Inl e) (s\<lparr>calls := calls s + 1\<rparr>)"
    and "wp m (\<lambda>r s'. Q r s' \<and> (\<forall>a e. r = Inr a \<longrightarrow> Q (Inl e) s')) (s\<lparr>calls := calls s + 1\<rparr>)"
  shows "wp (extern m) Q s"
  using assms
  by (auto simp: wp_def extern_def Let_def split: option.splits fault.splits sum.splits prod.splits)

lemma wp_extern_ok [wp_simps]:
  "faults s (calls s) = None \<Longrightarrow> wp (extern m) Q s = wp m Q (s\<lparr>calls := calls s + 1\<rparr>)"
  by (simp add: wp_def extern_def Let_def)

text \<open>
  The rule the invariant proofs use: the call can fail, or take effect and then answer or fail.
\<close>

lemma wp_queryI:
  assumes "\<And>e. Q (Inl e) (s\<lparr>calls := calls s + 1\<rparr>)"
    and "\<And>r d. f (db s) = (r, d) \<Longrightarrow> Q r (s\<lparr>calls := calls s + 1, db := d\<rparr>)"
    and "\<And>a d e. f (db s) = (Inr a, d) \<Longrightarrow> Q (Inl e) (s\<lparr>calls := calls s + 1, db := d\<rparr>)"
  shows "wp (query f) Q s"
  unfolding query_def
proof (rule wp_externI)
  show "Q (Inl e) (s\<lparr>calls := calls s + 1\<rparr>)" for e by (rule assms(1))
next
  obtain r d where f: "f (db s) = (r, d)" by (cases "f (db s)")
  show "wp (on_db f) (\<lambda>r s'. Q r s' \<and> (\<forall>a e. r = Inr a \<longrightarrow> Q (Inl e) s')) (s\<lparr>calls := calls s + 1\<rparr>)"
    using assms f by (auto simp: wp_on_db)
qed

text \<open>The same as a case distinction on what a query did, and what it does when nothing fails.\<close>

lemma query_cases:
  assumes "query f s = (r, s')"
  shows "s' = s\<lparr>calls := calls s + 1, db := db s'\<rparr> \<and>
    (((\<exists>e. r = Inl e) \<and> db s' = db s) \<or>
     (\<exists>x. f (db s) = (x, db s') \<and> (r = x \<or> (\<exists>a e. x = Inr a \<and> r = Inl e))))"
proof -
  have "wp (query f) (\<lambda>r s'. s' = s\<lparr>calls := calls s + 1, db := db s'\<rparr> \<and>
    (((\<exists>e. r = Inl e) \<and> db s' = db s) \<or>
     (\<exists>x. f (db s) = (x, db s') \<and> (r = x \<or> (\<exists>a e. x = Inr a \<and> r = Inl e))))) s"
    by (rule wp_queryI) auto
  with assms show ?thesis by (auto dest: wpD)
qed

lemma wp_query_ok:
  "faults s (calls s) = None \<Longrightarrow> wp (query f) Q s =
     (case f (db s) of (r, d) \<Rightarrow> Q r (s\<lparr>calls := calls s + 1, db := d\<rparr>))"
  by (simp add: query_def wp_simps)

section \<open>Preservation\<close>

text \<open>
  \<open>keeps I m\<close>: the method leaves \<open>I\<close> true whatever it answers. The rules follow the syntax of a
  method, so that an invariant of a service is proved once per SQL statement.
\<close>

definition keeps :: "('s \<Rightarrow> bool) \<Rightarrow> ('s, 'a) comp \<Rightarrow> bool" where
  "keeps I m \<longleftrightarrow> (\<forall>s. I s \<longrightarrow> I (snd (m s)))"

lemma keepsI: "(\<And>s. I s \<Longrightarrow> I (snd (m s))) \<Longrightarrow> keeps I m"
  by (simp add: keeps_def)

lemma keepsD: "keeps I m \<Longrightarrow> I s \<Longrightarrow> m s = (r, s') \<Longrightarrow> I s'"
  by (metis keeps_def snd_conv)

lemma keepsI_snd: "keeps I m \<Longrightarrow> I s \<Longrightarrow> I (snd (m s))"
  by (simp add: keeps_def)

lemma keeps_ret [keeps_rules]: "keeps I (ret a)"
  by (simp add: keeps_def ret_def)

lemma keeps_fail [keeps_rules]: "keeps I (fail e)"
  by (simp add: keeps_def fail_def)

lemma keeps_read [keeps_rules]: "keeps I (read f)"
  by (simp add: keeps_def read_def)

lemma keeps_bindS [keeps_rules]:
  "keeps I m \<Longrightarrow> (\<And>r. keeps I (k r)) \<Longrightarrow> keeps I (bindS m k)"
  by (auto simp: keeps_def bindS_def split: prod.splits)

lemma keeps_bindE [keeps_rules]:
  "keeps I m \<Longrightarrow> (\<And>a. keeps I (k a)) \<Longrightarrow> keeps I (bindE m k)"
  unfolding bindE_def by (rule keeps_bindS) (auto intro: keeps_rules split: sum.splits)

lemma keeps_wrapE [keeps_rules]: "keeps I m \<Longrightarrow> keeps I (wrapE k msg m)"
  unfolding wrapE_def by (rule keeps_bindS) (auto intro: keeps_rules split: sum.splits)

lemma keeps_if [keeps_rules]:
  "(b \<Longrightarrow> keeps I m) \<Longrightarrow> (\<not> b \<Longrightarrow> keeps I n) \<Longrightarrow> keeps I (if b then m else n)"
  by simp

lemma keeps_Let [keeps_rules]: "keeps I (f a) \<Longrightarrow> keeps I (let x = a in f x)"
  by simp

lemma keeps_case_sum [keeps_rules]:
  "(\<And>e. keeps I (f e)) \<Longrightarrow> (\<And>a. keeps I (g a)) \<Longrightarrow>
    keeps I (case x of Inl e \<Rightarrow> f e | Inr a \<Rightarrow> g a)"
  by (simp split: sum.splits)

lemma keeps_case_option [keeps_rules]:
  "keeps I f \<Longrightarrow> (\<And>a. keeps I (g a)) \<Longrightarrow>
    keeps I (case x of None \<Rightarrow> f | Some a \<Rightarrow> g a)"
  by (simp split: option.splits)

lemma keeps_case_prod [keeps_rules]:
  "(\<And>a b. keeps I (f a b)) \<Longrightarrow> keeps I (case x of (a, b) \<Rightarrow> f a b)"
  by (simp split: prod.splits)

text \<open>Invariants of the database alone.\<close>

abbreviation (input) keeps_db ::
  "('d \<Rightarrow> bool) \<Rightarrow> (('d, 'm, 'z) env_scheme, 'a) comp \<Rightarrow> bool" where
  "keeps_db J m \<equiv> keeps (\<lambda>s. J (db s)) m"

lemma keeps_time_Now [keeps_rules]: "keeps_db J time_Now"
  by (simp add: keeps_def time_Now_def)

lemma keeps_uuid_New [keeps_rules]: "keeps_db J uuid_New"
  by (simp add: keeps_def uuid_New_def)

lemma keeps_extern:
  "keeps I m \<Longrightarrow> (\<And>s. I s \<Longrightarrow> I (s\<lparr>calls := calls s + 1\<rparr>)) \<Longrightarrow> keeps I (extern m)"
  by (auto simp: keeps_def extern_def Let_def split: option.splits fault.splits prod.splits sum.splits)
    (metis snd_conv)+

lemma keeps_db_extern [keeps_rules]: "keeps_db J m \<Longrightarrow> keeps_db J (extern m)"
  by (rule keeps_extern) auto

lemma keeps_query: "(\<And>d. J d \<Longrightarrow> J (snd (f d))) \<Longrightarrow> keeps_db J (query f)"
  unfolding query_def
  by (rule keeps_db_extern) (auto simp: keeps_def on_db_def split: prod.splits, metis snd_conv)

lemma keeps_send [keeps_rules]: "keeps_db J (send m)"
  unfolding send_def by (rule keeps_db_extern) (simp add: keeps_def)

lemma keeps_WithTx_option:
  "(\<And>body. fn = Some body \<Longrightarrow> keeps_db J body) \<Longrightarrow> keeps_db J (WithTx pool fn)"
proof (rule keepsI)
  fix s :: "('a, 'b, 'c) env_scheme"
  assume body: "\<And>body. fn = Some body \<Longrightarrow> keeps_db J body" and J: "J (db s)"
  from J have "J (db (snd (extern (ret ()) s)))"
    by (simp add: extern_def ret_def Let_def split: option.splits fault.splits)
  then show "J (db (snd (WithTx pool fn s)))"
    using J body
    by (auto simp: WithTx_def fail_def rollback_def keeps_def
        split: option.splits fault.splits prod.splits sum.splits) (metis snd_conv)+
qed

lemma keeps_WithTx [keeps_rules]: "keeps_db J body \<Longrightarrow> keeps_db J (WithTx pool (Some body))"
  by (rule keeps_WithTx_option) simp

text \<open>A transaction that answers an error before its commit leaves the database as it was.\<close>

lemma WithTx_error:
  assumes "WithTx pool fn s = (Inl e, s')"
  shows "db s' = db s \<or> (\<exists>err. e = Wrap KindInternal (Some err) ''failed to commit transaction'')"
proof -
  have "db (snd (extern (ret ()) s)) = db s"
    by (simp add: extern_def ret_def Let_def split: option.splits fault.splits)
  with assms show ?thesis
    by (auto simp: WithTx_def fail_def rollback_def split: if_splits option.splits fault.splits
        prod.splits sum.splits)
qed

text \<open>What a transaction did: nothing, or the effect of its body, whose answer may be lost.\<close>

lemma WithTx_cases:
  assumes "WithTx pool (Some body) s = (r, s')"
  shows "((\<exists>e. r = Inl e) \<and> db s' = db s) \<or>
    (\<exists>a s2. body (s\<lparr>calls := calls s + 1\<rparr>) = (Inr a, s2) \<and> db s' = db s2 \<and>
       (r = Inr a \<or> (\<exists>e. r = Inl e)))"
proof -
  have "snd (extern (ret ()) s) = s\<lparr>calls := calls s + 1\<rparr>"
    by (simp add: extern_def ret_def Let_def split: option.splits fault.splits)
  with assms show ?thesis
    by (auto simp: WithTx_def fail_def rollback_def split: if_splits option.splits fault.splits
        prod.splits sum.splits)
qed

lemma bindE_Inr:
  "bindE m k s = (Inr b, s') \<longleftrightarrow> (\<exists>a s1. m s = (Inr a, s1) \<and> k a s1 = (Inr b, s'))"
  by (auto simp: bindE_def bindS_def fail_def split: prod.splits sum.splits)

lemma bindS_iff:
  "bindS m k s = (r, s') \<longleftrightarrow> (\<exists>x s1. m s = (x, s1) \<and> k x s1 = (r, s'))"
  by (auto simp: bindS_def split: prod.splits)

lemma bindS_sum_iff:
  "bindS m k s = (r, s') \<longleftrightarrow> (\<exists>e s1. m s = (Inl e, s1) \<and> k (Inl e) s1 = (r, s')) \<or>
     (\<exists>a s1. m s = (Inr a, s1) \<and> k (Inr a) s1 = (r, s'))"
proof -
  obtain x s1 where "m s = (x, s1)" by (cases "m s")
  then show ?thesis by (cases x) (auto simp: bindS_def)
qed

lemma wrapE_Inr: "wrapE k msg m s = (Inr a, s') \<longleftrightarrow> m s = (Inr a, s')"
  by (auto simp: wrapE_def bindS_def fail_def ret_def split: prod.splits sum.splits)

lemma ret_eq: "ret a s = (r, s') \<longleftrightarrow> r = Inr a \<and> s' = s"
  by (auto simp: ret_def)

lemma fail_eq: "fail e s = (r, s') \<longleftrightarrow> r = Inl e \<and> s' = s"
  by (auto simp: fail_def)

text \<open>A step whose result is ignored.\<close>

lemma bindS_ignore:
  assumes "bindS m (\<lambda>_. ret a) s = (r, s')"
  shows "r = Inr a \<and> s' = snd (m s)"
  using assms by (auto simp: bindS_def ret_def split: prod.splits)

section \<open>Runs without failures\<close>

definition healthy :: "('d, 'm, 'z) env_scheme \<Rightarrow> bool" where
  "healthy s \<longleftrightarrow> (\<forall>i. faults s i = None)"

lemma healthy_update [simp]:
  "healthy (s\<lparr>calls := c\<rparr>) = healthy s" "healthy (s\<lparr>ticks := t\<rparr>) = healthy s"
  "healthy (s\<lparr>gens := g\<rparr>) = healthy s" "healthy (s\<lparr>db := d\<rparr>) = healthy s"
  "healthy (s\<lparr>bus := b\<rparr>) = healthy s"
  by (simp_all add: healthy_def)

lemma healthyD: "healthy s \<Longrightarrow> faults s i = None"
  by (simp add: healthy_def)

lemma keeps_healthy_time_Now [keeps_rules]: "keeps healthy time_Now"
  by (simp add: keeps_def time_Now_def)

lemma keeps_healthy_uuid_New [keeps_rules]: "keeps healthy uuid_New"
  by (simp add: keeps_def uuid_New_def)

lemma keeps_healthy_extern [keeps_rules]: "keeps healthy m \<Longrightarrow> keeps healthy (extern m)"
  by (rule keeps_extern) auto

lemma keeps_healthy_query [keeps_rules]: "keeps healthy (query f)"
  unfolding query_def
  by (rule keeps_healthy_extern) (auto simp: keeps_def on_db_def split: prod.splits)

lemma keeps_healthy_send [keeps_rules]: "keeps healthy (send m)"
  unfolding send_def by (rule keeps_healthy_extern) (simp add: keeps_def)

lemma extern_healthy: "healthy s \<Longrightarrow> extern m s = m (s\<lparr>calls := calls s + 1\<rparr>)"
  by (simp add: extern_def Let_def healthyD)

lemma wp_query_healthy:
  "healthy s \<Longrightarrow> wp (query f) Q s =
     (case f (db s) of (r, d) \<Rightarrow> Q r (s\<lparr>calls := calls s + 1, db := d\<rparr>))"
  by (rule wp_query_ok) (rule healthyD)

lemma keeps_healthy_WithTx_option:
  "(\<And>body. fn = Some body \<Longrightarrow> keeps healthy body) \<Longrightarrow> keeps healthy (WithTx pool fn)"
proof (rule keepsI)
  fix s :: "('a, 'b, 'c) env_scheme"
  assume body: "\<And>body. fn = Some body \<Longrightarrow> keeps healthy body" and s: "healthy s"
  have "extern (ret ()) s = (Inr (), s\<lparr>calls := calls s + 1\<rparr>)"
    using s by (simp add: extern_healthy ret_def)
  then show "healthy (snd (WithTx pool fn s))"
    using s body
    by (auto simp: WithTx_def fail_def rollback_def keeps_def
        split: option.splits fault.splits prod.splits sum.splits) (metis healthy_update(1) snd_conv)+
qed

lemma keeps_healthy_WithTx [keeps_rules]: "keeps healthy body \<Longrightarrow> keeps healthy (WithTx pool (Some body))"
  by (rule keeps_healthy_WithTx_option) simp

lemma bindS_ignore_iff: "bindS m (\<lambda>_. ret a) s = (r, s') \<longleftrightarrow> r = Inr a \<and> s' = snd (m s)"
  by (auto simp: bindS_def ret_def split: prod.splits)

section \<open>The part of the state a method leaves alone\<close>

lemma keeps_WithTx_gen:
  assumes "keeps I body" and "\<And>s. I s \<Longrightarrow> I (s\<lparr>calls := calls s + 1\<rparr>)"
    and "\<And>s d. I s \<Longrightarrow> I (s\<lparr>db := d\<rparr>)"
  shows "keeps I (WithTx pool (Some body))"
proof (rule keepsI)
  fix s assume s: "I s"
  have start: "snd (extern (ret ()) s) = s\<lparr>calls := calls s + 1\<rparr>"
    by (simp add: extern_def ret_def Let_def split: option.splits fault.splits)
  have body: "body (s\<lparr>calls := calls s + 1\<rparr>) = (x, s2) \<Longrightarrow> I s2" for x s2
    using keepsD [OF assms(1)] assms(2) s by blast
  show "I (snd (WithTx pool (Some body) s))"
    using s start body assms(2,3)
    by (auto simp: WithTx_def fail_def rollback_def split: option.splits fault.splits
        prod.splits sum.splits)
qed

lemma tx_healthy_error:
  assumes "WithTx True (Some body) s = (Inl e, s')" and "healthy s" and "keeps healthy body"
  shows "db s' = db s"
proof -
  let ?s1 = "s\<lparr>calls := calls s + 1\<rparr>"
  have start: "extern (ret ()) s = (Inr (), ?s1)"
    using assms(2) by (simp add: extern_healthy ret_def)
  obtain x s2 where body: "body ?s1 = (x, s2)" by (cases "body ?s1")
  have "healthy s2" using keepsD [OF assms(3) _ body] assms(2) by simp
  then have "faults s2 (calls s2) = None" by (rule healthyD)
  with assms(1) start body show ?thesis
    by (auto simp: WithTx_def rollback_def split: sum.splits)
qed

lemma query_Inr: "query f s = (Inr a, s') \<Longrightarrow> f (db s) = (Inr a, db s')"
  using query_cases [of f s "Inr a" s'] by auto

lemma keeps_bindE_post:
  assumes "keeps I m" and "\<And>s a s'. m s = (Inr a, s') \<Longrightarrow> P a" and "\<And>a. P a \<Longrightarrow> keeps I (k a)"
  shows "keeps I (bindE m k)"
proof (rule keepsI)
  fix s assume "I s"
  obtain r s1 where run: "m s = (r, s1)" by (cases "m s")
  note I1 = keepsD [OF assms(1) \<open>I s\<close> run]
  show "I (snd (bindE m k s))"
  proof (cases r)
    case (Inl e)
    with run I1 show ?thesis by (simp add: bindE_def bindS_def fail_def)
  next
    case (Inr a)
    with run have "keeps I (k a)" using assms(2,3) by blast
    with run I1 Inr show ?thesis by (simp add: bindE_def bindS_def keeps_def)
  qed
qed

lemma WithTx_healthy:
  assumes "healthy s" and "body (s\<lparr>calls := calls s + 1\<rparr>) = (Inr a, s2)" and "healthy s2"
  shows "WithTx True (Some body) s = (Inr a, s2\<lparr>calls := calls s2 + 1\<rparr>)"
  using assms by (simp add: WithTx_def extern_healthy ret_def healthyD)


section \<open>Things that can be used once\<close>

text \<open>A sequence of operations with what each answered.\<close>

fun run_ops :: "('o \<Rightarrow> 's \<Rightarrow> 'r \<times> 's) \<Rightarrow> 'o list \<Rightarrow> 's \<Rightarrow> ('o \<times> 'r) list \<times> 's" where
  "run_ops step [] s = ([], s)"
| "run_ops step (opn # ops) s =
     (case step opn s of (r, s1) \<Rightarrow> case run_ops step ops s1 of (rs, s2) \<Rightarrow> ((opn, r) # rs, s2))"

lemma run_ops_keeps:
  assumes "\<And>opn s. I s \<Longrightarrow> I (snd (step opn s))"
  shows "I s \<Longrightarrow> I (snd (run_ops step ops s))"
proof (induction ops arbitrary: s)
  case Nil
  then show ?case by simp
next
  case (Cons opn ops)
  obtain r s1 where step: "step opn s = (r, s1)" by (cases "step opn s")
  with assms [OF Cons.prems, of opn] have "I s1" by simp
  from Cons.IH [OF this] step show ?case by (cases "run_ops step ops s1") simp
qed

text \<open>Every answer was given in a state that the invariant holds in.\<close>

lemma run_ops_answer:
  assumes "\<And>opn s. I s \<Longrightarrow> I (snd (step opn s))"
  shows "I s \<Longrightarrow> (opn, r) \<in> set (fst (run_ops step ops s)) \<Longrightarrow> \<exists>t t'. I t \<and> step opn t = (r, t')"
proof (induction ops arbitrary: s)
  case Nil
  then show ?case by simp
next
  case (Cons o1 ops)
  obtain r1 s1 where step: "step o1 s = (r1, s1)" by (cases "step o1 s")
  with assms [OF Cons.prems(1), of o1] have "I s1" by simp
  from Cons.IH [OF this] Cons.prems step show ?case
    by (cases "run_ops step ops s1") auto
qed

text \<open>
  The contract of a thing that is spent by its first successful use: a success finds it unspent and
  spends it, and no operation makes it whole again. The laws may rest on a condition \<open>sane\<close> of the
  state an operation ends in, which then held before it.
\<close>

locale one_shot =
  fixes inv :: "'s \<Rightarrow> bool"
    and sane :: "'s \<Rightarrow> bool"
    and spent :: "'s \<Rightarrow> bool"
    and step :: "'o \<Rightarrow> 's \<Rightarrow> (goerr + 'a) \<times> 's"
    and uses :: "'o \<Rightarrow> bool"
  assumes inv_step: "inv s \<Longrightarrow> inv (snd (step opn s))"
    and sane_before: "sane (snd (step opn s)) \<Longrightarrow> sane s"
    and spends: "inv s \<Longrightarrow> sane s' \<Longrightarrow> uses opn \<Longrightarrow> step opn s = (Inr a, s') \<Longrightarrow> \<not> spent s \<and> spent s'"
    and stays: "inv s \<Longrightarrow> sane (snd (step opn s)) \<Longrightarrow> spent s \<Longrightarrow> spent (snd (step opn s))"
begin

lemma run_sane_before: "sane (snd (run_ops step ops s)) \<Longrightarrow> sane s"
proof (induction ops arbitrary: s)
  case Nil
  then show ?case by simp
next
  case (Cons opn ops)
  obtain r s1 where step: "step opn s = (r, s1)" by (cases "step opn s")
  with Cons have "sane s1" by (cases "run_ops step ops s1") force
  with sane_before [of opn s] step show ?case by simp
qed

lemma at_most_once:
  "inv s \<Longrightarrow> sane (snd (run_ops step ops s)) \<Longrightarrow>
    length [x \<leftarrow> fst (run_ops step ops s). uses (fst x) \<and> (\<exists>a. snd x = Inr a)] \<le>
      (if spent s then 0 else 1)"
proof (induction ops arbitrary: s)
  case Nil
  then show ?case by simp
next
  case (Cons opn ops)
  obtain r s1 where step: "step opn s = (r, s1)" by (cases "step opn s")
  have inv1: "inv s1" using inv_step [OF Cons.prems(1), of opn] step by simp
  have run: "sane (snd (run_ops step ops s1))"
    using Cons.prems(2) step by (cases "run_ops step ops s1") simp
  note sane1 = run_sane_before [OF run]
  show ?case
  proof (cases "uses opn \<and> (\<exists>a. r = Inr a)")
    case True
    then obtain a where "step opn s = (Inr a, s1)" "uses opn" using step by auto
    with spends [OF Cons.prems(1) sane1] have "\<not> spent s" "spent s1" by blast+
    with Cons.IH [OF inv1 run] True step show ?thesis by (cases "run_ops step ops s1") simp
  next
    case False
    have "spent s \<Longrightarrow> spent s1" using stays [OF Cons.prems(1), of opn] step sane1 by simp
    with Cons.IH [OF inv1 run] False step show ?thesis
      by (cases "run_ops step ops s1") (auto split: if_splits)
  qed
qed

end

end
