(* ===== verification/Sql.thy ===== *)
theory Sql
  imports Effects
begin

text \<open>
  The statements the repositories send to Postgres, over tables held as lists of rows. A table's
  constraints are its \<open>schema\<close>: \<open>row_err\<close> says which error a row is refused with (a CHECK, a
  VARCHAR length or a value out of its column's range) and \<open>uniq\<close> is the primary key and the
  UNIQUE constraints of the whole table. A statement is all or nothing: when one row is refused
  the table is as it was.

  The locale \<open>keyed_update\<close> is the contract of an UPDATE whose WHERE clause names a key; every
  such statement of the services is an interpretation of it. \<open>sql_inbox\<close> is
  \<open>INSERT ... ON CONFLICT DO NOTHING\<close>, on which the services' deduplication rests.
\<close>

abbreviation (input) check_violation :: goerr where
  "check_violation \<equiv> PgError ''23514''"

abbreviation (input) unique_violation :: goerr where
  "unique_violation \<equiv> PgError ''23505''"

abbreviation (input) numeric_out_of_range :: goerr where
  "numeric_out_of_range \<equiv> PgError ''22003''"

abbreviation (input) string_too_long :: goerr where
  "string_too_long \<equiv> PgError ''22001''"

abbreviation (input) null_byte :: goerr where
  "null_byte \<equiv> PgError ''22021''"

text \<open>INTEGER and BIGINT results: out of range is an error, not a wrap-around.\<close>

definition pg_int4 :: "int \<Rightarrow> goerr + i32" where
  "pg_int4 i = (if fits32 i then Inr (word_of_int i) else Inl numeric_out_of_range)"

definition pg_int8 :: "int \<Rightarrow> goerr + i64" where
  "pg_int8 i = (if fits64 i then Inr (word_of_int i) else Inl numeric_out_of_range)"

lemma pg_int4_Inr: "pg_int4 i = Inr v \<Longrightarrow> sint v = i"
  unfolding pg_int4_def by (metis Inl_Inr_False Inr_inject sint_of_int32)

lemma pg_int8_Inr: "pg_int8 i = Inr v \<Longrightarrow> sint v = i"
  unfolding pg_int8_def by (metis Inl_Inr_False Inr_inject sint_of_int64)

text \<open>The characters of a UTF-8 string: its bytes that do not continue a character.\<close>

definition char_count :: "string \<Rightarrow> nat" where
  "char_count s = length (filter (\<lambda>c. of_char c div (64 :: nat) \<noteq> 2) s)"

definition pg_text :: "nat option \<Rightarrow> string \<Rightarrow> goerr option" where
  "pg_text limit s =
     (if CHR 0x00 \<in> set s then Some null_byte
      else case limit of
          Some n \<Rightarrow> (if n < char_count s then Some string_too_long else None)
        | None \<Rightarrow> None)"

fun first_err :: "goerr option list \<Rightarrow> goerr option" where
  "first_err [] = None"
| "first_err (Some e # es) = Some e"
| "first_err (None # es) = first_err es"

definition check :: "bool \<Rightarrow> goerr option" where
  "check b = (if b then None else Some check_violation)"

lemma first_err_None_iff [simp]: "first_err es = None \<longleftrightarrow> set es \<subseteq> {None}"
  by (induction es rule: first_err.induct) auto

lemma check_None_iff [simp]: "check b = None \<longleftrightarrow> b"
  by (simp add: check_def)

section \<open>Tables\<close>

record 'r schema =
  row_err :: "'r \<Rightarrow> goerr option"
  uniq :: "'r list \<Rightarrow> bool"

definition tbl_wf :: "'r schema \<Rightarrow> 'r list \<Rightarrow> bool" where
  "tbl_wf sch t \<longleftrightarrow> (\<forall>r \<in> set t. row_err sch r = None) \<and> uniq sch t"

lemma tbl_wf_row: "tbl_wf sch t \<Longrightarrow> tbl_get key t k = Some r \<Longrightarrow> row_err sch r = None"
  by (auto simp: tbl_wf_def dest: tbl_get_SomeD)

text \<open>\<open>INSERT\<close> of one row.\<close>

definition sql_insert :: "'r schema \<Rightarrow> 'r \<Rightarrow> 'r list \<Rightarrow> (goerr + unit) \<times> 'r list" where
  "sql_insert sch r t =
     (case row_err sch r of
        Some e \<Rightarrow> (Inl e, t)
      | None \<Rightarrow> if uniq sch (t @ [r]) then (Inr (), t @ [r]) else (Inl unique_violation, t))"

text \<open>\<open>UPDATE ... SET f WHERE P\<close>: the number of rows it affected.\<close>

fun upd_rows :: "'r schema \<Rightarrow> ('r \<Rightarrow> bool) \<Rightarrow> ('r \<Rightarrow> goerr + 'r) \<Rightarrow> 'r list \<Rightarrow> goerr + nat \<times> 'r list" where
  "upd_rows sch P f [] = Inr (0, [])"
| "upd_rows sch P f (r # t) =
     (if \<not> P r then map_sum id (\<lambda>(n, t'). (n, r # t')) (upd_rows sch P f t)
      else case f r of
          Inl e \<Rightarrow> Inl e
        | Inr r' \<Rightarrow>
            (case row_err sch r' of
               Some e \<Rightarrow> Inl e
             | None \<Rightarrow> map_sum id (\<lambda>(n, t'). (n + 1, r' # t')) (upd_rows sch P f t)))"

definition sql_update ::
  "'r schema \<Rightarrow> ('r \<Rightarrow> bool) \<Rightarrow> ('r \<Rightarrow> goerr + 'r) \<Rightarrow> 'r list \<Rightarrow> (goerr + nat) \<times> 'r list" where
  "sql_update sch P f t =
     (case upd_rows sch P f t of
        Inl e \<Rightarrow> (Inl e, t)
      | Inr (n, t') \<Rightarrow> if uniq sch t' then (Inr n, t') else (Inl unique_violation, t))"

lemma sql_insert_wf: "tbl_wf sch t \<Longrightarrow> tbl_wf sch (snd (sql_insert sch r t))"
  by (auto simp: sql_insert_def tbl_wf_def split: option.splits)

lemma upd_rows_row_err:
  "upd_rows sch P f t = Inr (n, t') \<Longrightarrow> \<forall>r \<in> set t. row_err sch r = None \<Longrightarrow>
    \<forall>r \<in> set t'. row_err sch r = None"
proof (induction t arbitrary: n t')
  case Nil
  then show ?case by simp
next
  case (Cons r t)
  then show ?case
    by (cases "upd_rows sch P f t") (auto split: if_splits sum.splits option.splits)
qed

lemma sql_update_wf: "tbl_wf sch t \<Longrightarrow> tbl_wf sch (snd (sql_update sch P f t))"
  by (auto simp: sql_update_def tbl_wf_def split: sum.splits dest: upd_rows_row_err)

lemma sql_update_error: "sql_update sch P f t = (Inl e, t') \<Longrightarrow> t' = t"
  by (auto simp: sql_update_def split: sum.splits if_splits prod.splits)

lemma sql_insert_cases:
  "sql_insert sch r t = (x, t') \<Longrightarrow>
    (x = Inr () \<and> t' = t @ [r] \<and> row_err sch r = None \<and> uniq sch (t @ [r])) \<or>
    ((\<exists>e. x = Inl e) \<and> t' = t)"
  by (auto simp: sql_insert_def split: option.splits if_splits)

text \<open>A keyed table after one row was replaced.\<close>

definition tbl_set :: "('r \<Rightarrow> 'k) \<Rightarrow> 'r list \<Rightarrow> 'k \<Rightarrow> 'r \<Rightarrow> 'r list" where
  "tbl_set key t k r' = map (\<lambda>r. if key r = k then r' else r) t"

lemma tbl_set_simps [simp]:
  "tbl_set key [] k r' = []"
  "tbl_set key (r # t) k r' = (if key r = k then r' else r) # tbl_set key t k r'"
  by (simp_all add: tbl_set_def)

lemma tbl_set_absent: "k \<notin> key ` set t \<Longrightarrow> tbl_set key t k r' = t"
  by (induction t) auto

lemma tbl_get_set:
  "key r' = k \<Longrightarrow>
    tbl_get key (tbl_set key t k r') k' =
      (if k' = k then (case tbl_get key t k of None \<Rightarrow> None | Some _ \<Rightarrow> Some r')
       else tbl_get key t k')"
  by (induction t) (auto split: option.splits)

lemma map_key_tbl_set: "key r' = k \<Longrightarrow> map key (tbl_set key t k r') = map key t"
  by (induction t) auto

section \<open>Updates by key\<close>

text \<open>
  \<open>UPDATE ... WHERE key = k AND guard\<close>: at most one row is concerned. The laws are that the
  WHERE clause names the key and that the SET clause leaves it alone; in a \<open>keyed_update\<close> the
  table's unique constraints are those of the key.
\<close>

locale keyed_where =
  fixes key :: "'r \<Rightarrow> 'k"
    and sch :: "'r schema"
    and k :: 'k
    and P :: "'r \<Rightarrow> bool"
    and f :: "'r \<Rightarrow> goerr + 'r"
  assumes where_key: "P r \<Longrightarrow> key r = k"
    and set_key: "f r = Inr r' \<Longrightarrow> key r' = key r"
begin

lemma upd_rows_absent: "k \<notin> key ` set t \<Longrightarrow> upd_rows sch P f t = Inr (0, t)"
  by (induction t) (auto dest: where_key)

lemma upd_rows_key:
  assumes "distinct (map key t)"
  shows "upd_rows sch P f t =
    (case tbl_get key t k of
       None \<Rightarrow> Inr (0, t)
     | Some r \<Rightarrow>
         if \<not> P r then Inr (0, t)
         else case f r of
             Inl e \<Rightarrow> Inl e
           | Inr r' \<Rightarrow> (case row_err sch r' of
                Some e \<Rightarrow> Inl e
              | None \<Rightarrow> Inr (1, tbl_set key t k r')))"
  using assms
proof (induction t)
  case Nil
  then show ?case by simp
next
  case (Cons r t)
  show ?case
  proof (cases "key r = k")
    case True
    with Cons.prems have "k \<notin> key ` set t" by auto
    with True show ?thesis
      by (auto simp: upd_rows_absent tbl_set_absent split: sum.splits option.splits)
  next
    case False
    then have "\<not> P r" using where_key by blast
    with False Cons show ?thesis
      by (auto split: sum.splits option.splits)
  qed
qed

end

locale keyed_update = keyed_where +
  assumes uniq_key: "uniq sch t \<longleftrightarrow> distinct (map key t)"
begin

lemma update_key:
  assumes "tbl_wf sch t"
  shows "sql_update sch P f t =
    (case tbl_get key t k of
       None \<Rightarrow> (Inr 0, t)
     | Some r \<Rightarrow>
         if \<not> P r then (Inr 0, t)
         else case f r of
             Inl e \<Rightarrow> (Inl e, t)
           | Inr r' \<Rightarrow> (case row_err sch r' of
                Some e \<Rightarrow> (Inl e, t)
              | None \<Rightarrow> (Inr 1, tbl_set key t k r')))"
proof -
  from assms have dist: "distinct (map key t)" and uniq: "uniq sch t"
    by (auto simp: tbl_wf_def uniq_key)
  have "key r' = k" if "tbl_get key t k = Some r" "f r = Inr r'" for r r'
    using that set_key by (auto dest: tbl_get_SomeD)
  with dist uniq show ?thesis
    by (auto simp: sql_update_def upd_rows_key uniq_key map_key_tbl_set
        split: option.splits sum.splits)
qed

text \<open>An update reports one affected row exactly when the row with the key passed the guard.\<close>

lemma update_affected:
  assumes "tbl_wf sch t" and "sql_update sch P f t = (Inr n, t')"
  shows "(n = 0 \<and> t' = t \<and> (\<forall>r. tbl_get key t k = Some r \<longrightarrow> \<not> P r)) \<or>
    (n = 1 \<and> (\<exists>r r'. tbl_get key t k = Some r \<and> P r \<and> f r = Inr r' \<and>
       row_err sch r' = None \<and> t' = tbl_set key t k r'))"
  using assms by (auto simp: update_key split: option.splits sum.splits if_splits)

lemma update_wf: "tbl_wf sch t \<Longrightarrow> tbl_wf sch (snd (sql_update sch P f t))"
  by (rule sql_update_wf)

text \<open>Rows with other keys are not touched.\<close>

lemma update_frame:
  assumes "tbl_wf sch t" and "k' \<noteq> k"
  shows "tbl_get key (snd (sql_update sch P f t)) k' = tbl_get key t k'"
proof -
  have "key r' = k" if "tbl_get key t k = Some r" "f r = Inr r'" for r r'
    using that set_key by (auto dest: tbl_get_SomeD)
  with assms show ?thesis
    by (auto simp: update_key tbl_get_set split: option.splits sum.splits)
qed

end

section \<open>The inbox\<close>

text \<open>\<open>INSERT ... ON CONFLICT (event_id) DO NOTHING\<close>: the rows it added, 0 or 1.\<close>

definition sql_inbox ::
  "('e \<Rightarrow> uuid) \<Rightarrow> ('e \<Rightarrow> goerr option) \<Rightarrow> 'e \<Rightarrow> 'e list \<Rightarrow> (goerr + nat) \<times> 'e list" where
  "sql_inbox key err e t =
     (case err e of
        Some x \<Rightarrow> (Inl x, t)
      | None \<Rightarrow> if key e \<in> key ` set t then (Inr 0, t) else (Inr 1, t @ [e]))"

lemma sql_inbox_distinct:
  "distinct (map key t) \<Longrightarrow> distinct (map key (snd (sql_inbox key err e t)))"
  by (auto simp: sql_inbox_def split: option.splits)

lemma sql_inbox_keys:
  "sql_inbox key err e t = (Inr n, t') \<Longrightarrow>
    key ` set t' = insert (key e) (key ` set t) \<and> (n = 0 \<longleftrightarrow> key e \<in> key ` set t) \<and> n \<le> 1 \<and>
    (n = 0 \<longrightarrow> t' = t)"
  by (auto simp: sql_inbox_def split: option.splits if_splits)

lemma sql_inbox_error: "sql_inbox key err e t = (Inl x, t') \<Longrightarrow> t' = t"
  by (auto simp: sql_inbox_def split: option.splits if_splits)

text \<open>
  At-least-once delivery. \<open>deliveries handle other view n s t\<close>: on the way from \<open>s\<close> to \<open>t\<close> the
  message was handled any number of times, with any steps of \<open>other\<close> between, and \<open>n\<close> of these
  handlings changed \<open>view\<close>.
\<close>

inductive deliveries ::
  "('s \<Rightarrow> (goerr + unit) \<times> 's) \<Rightarrow> ('s \<Rightarrow> 's \<Rightarrow> bool) \<Rightarrow> ('s \<Rightarrow> 'v) \<Rightarrow> nat \<Rightarrow> 's \<Rightarrow> 's \<Rightarrow> bool"
  for handle other view where
  none: "deliveries handle other view 0 s s"
| handled: "handle s = (r, s') \<Longrightarrow> deliveries handle other view n s' t \<Longrightarrow>
    deliveries handle other view (n + (if view s' \<noteq> view s then 1 else 0)) s t"
| between: "other s s' \<Longrightarrow> deliveries handle other view n s' t \<Longrightarrow>
    deliveries handle other view n s t"

text \<open>
  The contract of a handler that records the messages it has processed: a handling without
  error records the message, a message on record changes nothing, a change is recorded with it,
  and none of the other steps of its service takes the message off the record.
\<close>

locale inbox_consumer =
  fixes handle :: "'s \<Rightarrow> (goerr + unit) \<times> 's"
    and other :: "'s \<Rightarrow> 's \<Rightarrow> bool"
    and seen :: "'s \<Rightarrow> bool"
    and view :: "'s \<Rightarrow> 'v"
  assumes duplicate: "seen s \<Longrightarrow> handle s = (r, s') \<Longrightarrow> seen s' \<and> view s' = view s"
    and recorded: "handle s = (r, s') \<Longrightarrow> seen s' \<or> view s' = view s"
    and acknowledged: "handle s = (Inr (), s') \<Longrightarrow> seen s'"
    and remembered: "other s s' \<Longrightarrow> seen s \<Longrightarrow> seen s'"
begin

lemma at_most_once: "deliveries handle other view n s t \<Longrightarrow> n \<le> (if seen s then 0 else 1)"
proof (induction rule: deliveries.induct)
  case (none s)
  then show ?case by simp
next
  case (handled s r s' n t)
  show ?case
  proof (cases "seen s")
    case True
    with duplicate [OF True handled.hyps(1)] handled.IH show ?thesis by simp
  next
    case False
    with recorded [OF handled.hyps(1)] handled.IH show ?thesis by (auto split: if_splits)
  qed
next
  case (between s s' n t)
  with remembered [OF between.hyps(1)] show ?case by (auto split: if_splits)
qed

lemma acknowledged_then_never: 
  assumes "handle s = (Inr (), s')" and "deliveries handle other view n s' t"
  shows "n = 0"
  using at_most_once [OF assms(2)] acknowledged [OF assms(1)] by simp

end

section \<open>What an UPDATE does to every row\<close>

lemma sql_insert_superset: "set t \<subseteq> set (snd (sql_insert sch r t))"
  by (auto simp: sql_insert_def split: option.splits)

lemma upd_rows_image:
  "upd_rows sch P f t = Inr (n, t') \<Longrightarrow>
    \<forall>r \<in> set t. \<exists>r' \<in> set t'. r' = r \<or> (P r \<and> f r = Inr r')"
proof (induction t arbitrary: n t')
  case Nil
  then show ?case by simp
next
  case (Cons r t)
  then show ?case
    by (cases "upd_rows sch P f t") (auto split: if_splits sum.splits option.splits)
qed

lemma sql_update_image:
  "r \<in> set t \<Longrightarrow> \<exists>r' \<in> set (snd (sql_update sch P f t)). r' = r \<or> (P r \<and> f r = Inr r')"
  using upd_rows_image [of sch P f t] by (auto simp: sql_update_def split: sum.splits)

lemma upd_rows_map:
  assumes "\<And>r r'. P r \<Longrightarrow> f r = Inr r' \<Longrightarrow> h r' = h r"
  shows "upd_rows sch P f t = Inr (n, t') \<Longrightarrow> map h t' = map h t"
proof (induction t arbitrary: n t')
  case Nil
  then show ?case by simp
next
  case (Cons r t)
  then show ?case
    by (cases "upd_rows sch P f t") (auto split: if_splits sum.splits option.splits intro: assms)
qed

lemma sql_update_map:
  assumes "\<And>r r'. P r \<Longrightarrow> f r = Inr r' \<Longrightarrow> h r' = h r"
  shows "map h (snd (sql_update sch P f t)) = map h t"
  using upd_rows_map [of P f h, OF assms] by (auto simp: sql_update_def split: sum.splits)


text \<open>An update that reports affected rows changed one of them.\<close>

lemma upd_rows_hit:
  "upd_rows sch P f t = Inr (n, t') \<Longrightarrow> n \<noteq> 0 \<Longrightarrow> \<exists>r \<in> set t. P r \<and> (\<exists>r' \<in> set t'. f r = Inr r')"
proof (induction t arbitrary: n t')
  case Nil
  then show ?case by simp
next
  case (Cons r t)
  then show ?case
    by (cases "upd_rows sch P f t") (fastforce split: if_splits sum.splits option.splits)+
qed

lemma sql_update_hit:
  "sql_update sch P f t = (Inr n, t') \<Longrightarrow> n \<noteq> 0 \<Longrightarrow> \<exists>r \<in> set t. P r \<and> (\<exists>r' \<in> set t'. f r = Inr r')"
  using upd_rows_hit [of sch P f t] by (auto simp: sql_update_def split: sum.splits if_splits)

end
