(* ===== verification/Events.thy ===== *)
theory Events
  imports Sql
begin

text \<open>
  \<open>pkg/events\<close> (\<open>stock.go\<close>, \<open>payment.go\<close>, \<open>user.go\<close>): the payloads the services exchange and
  their routing keys. A published message is kept on the state's \<open>bus\<close> as its routing key and
  its payload; the bytes of its body are \<open>Marshal\<close> of the payload, where \<open>event_json\<close> stands for
  \<open>encoding/json\<close> on these structs. \<open>event_json_ok\<close> is the documented round trip of that package:
  a payload that was marshalled is read back as it was. Nothing is assumed of other bodies.
\<close>

record StockReleaseRequested =
  sr_EventID :: uuid
  sr_OrderID :: uuid
  sr_ProductID :: uuid
  sr_Quantity :: i32
  sr_Reason :: string
  sr_RequestedAt :: time

record StockConfirmRequested =
  sc_EventID :: uuid
  sc_OrderID :: uuid
  sc_ProductID :: uuid
  sc_Quantity :: i32
  sc_RequestedAt :: time

record OrderCreatedItem =
  oci_ProductID :: uuid
  oci_Quantity :: i32
  oci_UnitPrice :: i64

record OrderCreated =
  oc_EventID :: uuid
  oc_OrderID :: uuid
  oc_UserID :: uuid
  oc_TotalAmount :: i64
  oc_Items :: "OrderCreatedItem list"
  oc_CreatedAt :: time

record PaymentCompleted =
  pc_EventID :: uuid
  pc_OrderID :: uuid
  pc_PaymentID :: uuid
  pc_GatewayName :: string
  pc_GatewayRefID :: string
  pc_CompletedAt :: time

record PaymentFailed =
  pf_EventID :: uuid
  pf_OrderID :: uuid
  pf_PaymentID :: uuid
  pf_Reason :: string
  pf_FailedAt :: time

record UserOTPRequested =
  uo_EventID :: uuid
  uo_UserID :: uuid
  uo_PhoneNumber :: string
  uo_Code :: string
  uo_RequestedAt :: time

datatype event =
    EvStockRelease StockReleaseRequested
  | EvStockConfirm StockConfirmRequested
  | EvOrderCreated OrderCreated
  | EvPaymentCompleted PaymentCompleted
  | EvPaymentFailed PaymentFailed
  | EvUserOTP UserOTPRequested

type_synonym message = "string \<times> event"

definition RoutingKeyStockReleaseRequested :: string where
  "RoutingKeyStockReleaseRequested = ''stock.release.requested''"

definition RoutingKeyStockConfirmRequested :: string where
  "RoutingKeyStockConfirmRequested = ''stock.confirm.requested''"

definition RoutingKeyOrderCreated :: string where
  "RoutingKeyOrderCreated = ''order.created''"

definition RoutingKeyPaymentCompleted :: string where
  "RoutingKeyPaymentCompleted = ''payment.completed''"

definition RoutingKeyPaymentFailed :: string where
  "RoutingKeyPaymentFailed = ''payment.failed''"

definition RoutingKeyUserOTPRequested :: string where
  "RoutingKeyUserOTPRequested = ''user.otp.requested''"

lemmas routing_keys =
  RoutingKeyStockReleaseRequested_def RoutingKeyStockConfirmRequested_def
  RoutingKeyOrderCreated_def RoutingKeyPaymentCompleted_def RoutingKeyPaymentFailed_def
  RoutingKeyUserOTPRequested_def

record event_json =
  Marshal :: "event \<Rightarrow> goerr + string"
  UnmarshalStockRelease :: "string \<Rightarrow> goerr + StockReleaseRequested"
  UnmarshalStockConfirm :: "string \<Rightarrow> goerr + StockConfirmRequested"
  UnmarshalOrderCreated :: "string \<Rightarrow> goerr + OrderCreated"
  UnmarshalPaymentCompleted :: "string \<Rightarrow> goerr + PaymentCompleted"
  UnmarshalPaymentFailed :: "string \<Rightarrow> goerr + PaymentFailed"

definition event_json_ok :: "event_json \<Rightarrow> bool" where
  "event_json_ok js \<longleftrightarrow>
     (\<forall>e b. Marshal js (EvStockRelease e) = Inr b \<longrightarrow> UnmarshalStockRelease js b = Inr e) \<and>
     (\<forall>e b. Marshal js (EvStockConfirm e) = Inr b \<longrightarrow> UnmarshalStockConfirm js b = Inr e) \<and>
     (\<forall>e b. Marshal js (EvOrderCreated e) = Inr b \<longrightarrow> UnmarshalOrderCreated js b = Inr e) \<and>
     (\<forall>e b. Marshal js (EvPaymentCompleted e) = Inr b \<longrightarrow> UnmarshalPaymentCompleted js b = Inr e) \<and>
     (\<forall>e b. Marshal js (EvPaymentFailed e) = Inr b \<longrightarrow> UnmarshalPaymentFailed js b = Inr e)"

end
