(* ===== verification/Product.thy ===== *)
theory Product
  imports Events
begin

text \<open>
  \<open>services/product-service/internal/model/product.go\<close>, \<open>internal/repository/product.go\<close> and
  \<open>event.go\<close>, over the tables of \<open>migrations/\<close>. A row of \<open>products\<close> is the \<open>Product\<close> struct; the
  table's CHECK constraints are \<open>product_row_err\<close>, its primary key is \<open>id\<close>. The WHERE and SET clauses of a
  statement are definitions of their own (\<open>reserve_where\<close>, \<open>reserve_set\<close>, ...), interpreted as
  \<open>keyed_update\<close>s. \<open>pg_trgm\<close> is an argument of \<open>Search\<close>.

  The lemmas give the answer and the effect of each statement, and the table invariant
  \<open>product_db_ok\<close>: the stock counters are never negative and no more is reserved than there is.
\<close>

section \<open>The model\<close>

record Product =
  p_ID :: uuid
  p_Name :: string
  p_Description :: string
  p_Category :: string
  p_Price :: i64
  p_TotalStock :: i32
  p_ReservedStock :: i32
  p_IsActive :: bool
  p_CreatedAt :: time
  p_UpdatedAt :: time

definition AvailableStock :: "Product \<Rightarrow> i32" where
  "AvailableStock p = p_TotalStock p - p_ReservedStock p"

definition Product_Validate :: "Product \<Rightarrow> goerr option" where
  "Product_Validate p =
     (if sint (p_Price p) < 0 then Some (New KindInvalidInput ''price cannot be negative'')
      else if sint (p_TotalStock p) < sint (p_ReservedStock p)
        then Some (New KindInvalidInput ''reserved stock cannot exceed total stock'')
      else None)"

section \<open>The tables\<close>

record ProcessedEvent =
  pe_event_id :: uuid
  pe_event_type :: string
  pe_product_id :: uuid
  pe_order_id :: uuid

record product_db =
  products :: "Product list"
  processed_events :: "ProcessedEvent list"

definition product_row_err :: "Product \<Rightarrow> goerr option" where
  "product_row_err r =
     first_err [pg_text (Some 255) (p_Name r), pg_text None (p_Description r),
       pg_text (Some 100) (p_Category r), check (0 \<le> sint (p_Price r)),
       check (0 \<le> sint (p_TotalStock r)), check (0 \<le> sint (p_ReservedStock r)),
       check (sint (p_ReservedStock r) \<le> sint (p_TotalStock r))]"

definition product_schema :: "Product schema" where
  "product_schema = \<lparr>row_err = product_row_err, uniq = (\<lambda>t. distinct (map p_ID t))\<rparr>"

definition product_db_ok :: "product_db \<Rightarrow> bool" where
  "product_db_ok d \<longleftrightarrow>
     tbl_wf product_schema (products d) \<and> distinct (map pe_event_id (processed_events d))"

lemma product_schema_simps [simp]:
  "row_err product_schema = product_row_err"
  "uniq product_schema t = distinct (map p_ID t)"
  by (simp_all add: product_schema_def)

text \<open>Statements on one of the tables.\<close>

definition on_products ::
  "(Product list \<Rightarrow> (goerr + 'a) \<times> Product list) \<Rightarrow> product_db \<Rightarrow> (goerr + 'a) \<times> product_db" where
  "on_products f d = (case f (products d) of (r, t) \<Rightarrow> (r, d\<lparr>products := t\<rparr>))"

definition on_processed ::
  "(ProcessedEvent list \<Rightarrow> (goerr + 'a) \<times> ProcessedEvent list) \<Rightarrow> product_db \<Rightarrow>
    (goerr + 'a) \<times> product_db" where
  "on_processed f d = (case f (processed_events d) of (r, t) \<Rightarrow> (r, d\<lparr>processed_events := t\<rparr>))"

type_synonym ('z, 'a) product_comp = "((product_db, message, 'z) env_scheme, 'a) comp"

section \<open>The product repository\<close>

definition repo_Create :: "Product option \<Rightarrow> ('z, Product) product_comp" where
  "repo_Create p =
     (case p of
        None \<Rightarrow> fail (New KindInvalidInput ''product cannot be nil'')
      | Some p \<Rightarrow>
         (case Product_Validate p of
            Some err \<Rightarrow> fail err
          | None \<Rightarrow>
              bindE time_Now (\<lambda>now. bindE uuid_New (\<lambda>pid.
                let row = p\<lparr>p_ID := pid, p_ReservedStock := 0, p_IsActive := True,
                            p_CreatedAt := now, p_UpdatedAt := now\<rparr>
                in bindE (wrapE KindInternal ''failed to create product in database''
                      (query (on_products (sql_insert product_schema row))))
                    (\<lambda>_. ret row)))))"

definition repo_GetByID :: "uuid \<Rightarrow> ('z, Product) product_comp" where
  "repo_GetByID pid =
     (if pid = uuid_Nil then fail (New KindInvalidInput ''Product ID cannot be nil'')
      else bindS (query (\<lambda>d. (case tbl_get p_ID (products d) pid of
              None \<Rightarrow> Inl ErrNoRows | Some p \<Rightarrow> Inr p, d)))
        (\<lambda>r. case r of
           Inl err \<Rightarrow> if errors_Is err ErrNoRows then fail (New KindNotFound ''product not found'')
                      else fail (Wrap KindInternal (Some err) ''failed to get product by id'')
         | Inr p \<Rightarrow> ret p))"

text \<open>
  The rows come in the table's order, which SQL leaves open. The second external call is the
  iteration, whose error \<open>rows.Err()\<close> is returned as it is.
\<close>

definition repo_GetByIDs :: "uuid list \<Rightarrow> ('z, Product list) product_comp" where
  "repo_GetByIDs ids =
     (if length ids = 0 then ret []
      else bindE (wrapE KindInternal ''failed to query products by ids''
          (query (\<lambda>d. (Inr [p \<leftarrow> products d. p_ID p \<in> set ids \<and> p_IsActive p], d))))
        (\<lambda>rows. bindE (extern (ret ())) (\<lambda>_. ret rows)))"

definition update_where :: "uuid \<Rightarrow> Product \<Rightarrow> bool" where
  "update_where pid r \<longleftrightarrow> p_ID r = pid"

definition update_set :: "Product \<Rightarrow> time \<Rightarrow> Product \<Rightarrow> goerr + Product" where
  "update_set p now r =
     Inr (r\<lparr>p_Name := p_Name p, p_Description := p_Description p, p_Category := p_Category p,
            p_Price := p_Price p, p_IsActive := p_IsActive p, p_UpdatedAt := now\<rparr>)"

definition repo_Update :: "Product option \<Rightarrow> ('z, Product) product_comp" where
  "repo_Update p =
     (case p of
        None \<Rightarrow> fail (New KindInvalidInput ''product cannot be nil'')
      | Some p \<Rightarrow>
         (case Product_Validate p of
            Some err \<Rightarrow> fail err
          | None \<Rightarrow>
              bindE time_Now (\<lambda>now.
                bindS (query (\<lambda>d. case on_products
                    (sql_update product_schema (update_where (p_ID p)) (update_set p now)) d of
                    (Inl err, d') \<Rightarrow> (Inl err, d')
                  | (Inr n, d') \<Rightarrow> (if n = 0 then Inl ErrNoRows else Inr (), d')))
                  (\<lambda>r. case r of
                     Inl err \<Rightarrow>
                       if errors_Is err ErrNoRows then fail (New KindNotFound ''product not found'')
                       else fail (Wrap KindInternal (Some err) ''failed to update product'')
                   | Inr _ \<Rightarrow> ret (p\<lparr>p_UpdatedAt := now\<rparr>)))))"

definition delete_where :: "uuid \<Rightarrow> Product \<Rightarrow> bool" where
  "delete_where pid r \<longleftrightarrow> p_ID r = pid \<and> p_IsActive r"

text \<open>The trigger of the table sets \<open>updated_at\<close> where a row changes.\<close>

definition delete_set :: "time \<Rightarrow> Product \<Rightarrow> goerr + Product" where
  "delete_set now r = Inr (r\<lparr>p_IsActive := False, p_UpdatedAt := now\<rparr>)"

definition repo_Delete :: "uuid \<Rightarrow> ('z, unit) product_comp" where
  "repo_Delete pid =
     bindE time_Now (\<lambda>now.
       bindE (wrapE KindInternal ''failed to soft delete product''
           (query (on_products (sql_update product_schema (delete_where pid) (delete_set now)))))
         (\<lambda>n. if n = 0 then fail (New KindNotFound ''product not found or already deleted'')
              else ret ()))"

record pg_trgm =
  Ilike :: "string \<Rightarrow> string \<Rightarrow> bool"
  Similarity :: "string \<Rightarrow> string \<Rightarrow> int"

definition search_rows ::
  "pg_trgm \<Rightarrow> string \<Rightarrow> string \<Rightarrow> int \<Rightarrow> int \<Rightarrow> Product list \<Rightarrow> goerr + Product list" where
  "search_rows trgm q category limit offset t =
     (let found = [p \<leftarrow> t. p_IsActive p \<and> (category = '''' \<or> p_Category p = category) \<and>
                     (q = '''' \<or> Ilike trgm (p_Name p @ '' '' @ p_Description p) (''%'' @ q @ ''%''))];
          sorted = (if q = '''' then sort_key (\<lambda>p. - p_CreatedAt p) found
                    else sort_key (\<lambda>p. - Similarity trgm (p_Name p @ '' '' @ p_Description p) q) found)
      in if offset < 0 then Inl (PgError ''2201X'')
         else Inr (take (nat limit) (drop (nat offset) sorted)))"

definition repo_Search ::
  "pg_trgm \<Rightarrow> string \<Rightarrow> string \<Rightarrow> int \<Rightarrow> int \<Rightarrow> ('z, Product list) product_comp" where
  "repo_Search trgm q category limit offset =
     (let limit = (if limit \<le> 0 then 20 else limit) in
      bindE (wrapE KindInternal ''failed to search products''
          (query (\<lambda>d. (search_rows trgm q category limit offset (products d), d))))
        (\<lambda>rows. bindE (wrapE KindInternal ''error iterating product rows'' (extern (ret ())))
          (\<lambda>_. ret rows)))"

definition reserve_where :: "uuid \<Rightarrow> i32 \<Rightarrow> Product \<Rightarrow> bool" where
  "reserve_where pid quantity r \<longleftrightarrow> p_ID r = pid \<and> p_IsActive r \<and>
     sint (p_TotalStock r) - sint (p_ReservedStock r) \<ge> sint quantity"

definition reserve_set :: "i32 \<Rightarrow> time \<Rightarrow> Product \<Rightarrow> goerr + Product" where
  "reserve_set quantity now r =
     map_sum id (\<lambda>v. r\<lparr>p_ReservedStock := v, p_UpdatedAt := now\<rparr>)
       (pg_int4 (sint (p_ReservedStock r) + sint quantity))"

definition repo_ReserveStock :: "uuid \<Rightarrow> i32 \<Rightarrow> ('z, unit) product_comp" where
  "repo_ReserveStock pid quantity =
     (if sint quantity \<le> 0 then fail (New KindInvalidInput ''quantity must be positive'')
      else bindE time_Now (\<lambda>now.
        bindE (wrapE KindInternal ''failed to reserve stock''
            (query (on_products (sql_update product_schema (reserve_where pid quantity)
               (reserve_set quantity now)))))
          (\<lambda>n. if n = 0
             then fail (New KindInvalidInput ''insufficient stock or product not available'')
             else ret ())))"

definition release_where :: "uuid \<Rightarrow> i32 \<Rightarrow> Product \<Rightarrow> bool" where
  "release_where pid quantity r \<longleftrightarrow> p_ID r = pid \<and> sint (p_ReservedStock r) \<ge> sint quantity"

definition release_set :: "i32 \<Rightarrow> time \<Rightarrow> Product \<Rightarrow> goerr + Product" where
  "release_set quantity now r =
     map_sum id (\<lambda>v. r\<lparr>p_ReservedStock := v, p_UpdatedAt := now\<rparr>)
       (pg_int4 (sint (p_ReservedStock r) - sint quantity))"

definition repo_ReleaseStock :: "uuid \<Rightarrow> i32 \<Rightarrow> ('z, unit) product_comp" where
  "repo_ReleaseStock pid quantity =
     (if sint quantity \<le> 0 then fail (New KindInvalidInput ''quantity must be positive'')
      else bindE time_Now (\<lambda>now.
        bindE (wrapE KindInternal ''failed to release stock''
            (query (on_products (sql_update product_schema (release_where pid quantity)
               (release_set quantity now)))))
          (\<lambda>n. if n = 0 then fail (New KindInvalidInput ''cannot release more stock than reserved'')
             else ret ())))"

definition confirm_set :: "i32 \<Rightarrow> time \<Rightarrow> Product \<Rightarrow> goerr + Product" where
  "confirm_set quantity now r =
     (case (pg_int4 (sint (p_TotalStock r) - sint quantity),
            pg_int4 (sint (p_ReservedStock r) - sint quantity)) of
        (Inl e, _) \<Rightarrow> Inl e
      | (_, Inl e) \<Rightarrow> Inl e
      | (Inr t, Inr v) \<Rightarrow> Inr (r\<lparr>p_TotalStock := t, p_ReservedStock := v, p_UpdatedAt := now\<rparr>))"

definition repo_ConfirmStock :: "uuid \<Rightarrow> i32 \<Rightarrow> ('z, unit) product_comp" where
  "repo_ConfirmStock pid quantity =
     (if sint quantity \<le> 0 then fail (New KindInvalidInput ''quantity must be positive'')
      else bindE time_Now (\<lambda>now.
        bindE (wrapE KindInternal ''failed to confirm stock''
            (query (on_products (sql_update product_schema (release_where pid quantity)
               (confirm_set quantity now)))))
          (\<lambda>n. if n = 0 then fail (New KindInvalidInput ''cannot confirm more stock than reserved'')
             else ret ())))"

section \<open>The event repository\<close>

definition processed_row_err :: "ProcessedEvent \<Rightarrow> goerr option" where
  "processed_row_err e = pg_text (Some 50) (pe_event_type e)"

definition MarkProcessed :: "uuid \<Rightarrow> string \<Rightarrow> uuid \<Rightarrow> uuid \<Rightarrow> ('z, bool) product_comp" where
  "MarkProcessed eventID eventType productID orderID =
     bindE (wrapE KindInternal ''failed to record processed event''
         (query (on_processed (sql_inbox pe_event_id processed_row_err
            \<lparr>pe_event_id = eventID, pe_event_type = eventType, pe_product_id = productID,
             pe_order_id = orderID\<rparr>))))
       (\<lambda>n. ret (n = 0))"

section \<open>The statements by key\<close>

lemmas stock_clauses =
  update_where_def update_set_def delete_where_def delete_set_def reserve_where_def reserve_set_def
  release_where_def release_set_def confirm_set_def

lemma pg_int4_cases: "pg_int4 i = Inr v \<longleftrightarrow> fits32 i \<and> v = word_of_int i"
  by (auto simp: pg_int4_def)

interpretation upd: keyed_update p_ID product_schema pid "update_where pid" "update_set p now"
  for pid p now
  by unfold_locales (auto simp: stock_clauses product_schema_def)

interpretation del: keyed_update p_ID product_schema pid "delete_where pid" "delete_set now" for pid now
  by unfold_locales (auto simp: stock_clauses product_schema_def)

interpretation rsv: keyed_update p_ID product_schema pid "reserve_where pid q" "reserve_set q now"
  for pid q now
  by unfold_locales (auto simp: stock_clauses product_schema_def pg_int4_def split: if_splits)

interpretation rel: keyed_update p_ID product_schema pid "release_where pid q" "release_set q now"
  for pid q now
  by unfold_locales (auto simp: stock_clauses product_schema_def pg_int4_def split: if_splits)

interpretation cnf: keyed_update p_ID product_schema pid "release_where pid q" "confirm_set q now"
  for pid q now
  by unfold_locales
    (auto simp: stock_clauses product_schema_def pg_int4_def split: if_splits sum.splits)

section \<open>The table invariant\<close>

lemma on_products_ok:
  "product_db_ok d \<Longrightarrow> tbl_wf product_schema (snd (f (products d))) \<Longrightarrow>
    product_db_ok (snd (on_products f d))"
  by (auto simp: product_db_ok_def on_products_def split: prod.splits)

lemma on_products_update_ok:
  "product_db_ok d \<Longrightarrow> product_db_ok (snd (on_products (sql_update product_schema P f) d))"
  by (rule on_products_ok) (simp_all add: product_db_ok_def sql_update_wf)

lemma on_products_insert_ok:
  "product_db_ok d \<Longrightarrow> product_db_ok (snd (on_products (sql_insert product_schema r) d))"
  by (rule on_products_ok) (simp_all add: product_db_ok_def sql_insert_wf)

lemma keeps_products_update [keeps_rules]:
  "keeps_db product_db_ok (query (on_products (sql_update product_schema P f)))"
  by (rule keeps_query) (rule on_products_update_ok)

lemma keeps_products_insert [keeps_rules]:
  "keeps_db product_db_ok (query (on_products (sql_insert product_schema r)))"
  by (rule keeps_query) (rule on_products_insert_ok)

lemma keeps_db_pure [keeps_rules]: "keeps_db J (query (\<lambda>d. (f d, d)))"
  by (rule keeps_query) simp

lemma keeps_repo_Create [keeps_rules]: "keeps_db product_db_ok (repo_Create p)"
  unfolding repo_Create_def by (intro keeps_rules)

lemma keeps_repo_GetByID [keeps_rules]: "keeps_db J (repo_GetByID i)"
  unfolding repo_GetByID_def by (intro keeps_rules)

lemma keeps_repo_GetByIDs [keeps_rules]: "keeps_db J (repo_GetByIDs ids)"
  unfolding repo_GetByIDs_def by (intro keeps_rules)

lemma keeps_repo_Search [keeps_rules]: "keeps_db J (repo_Search tr q cat l off)"
  unfolding repo_Search_def by (intro keeps_rules)

lemma keeps_repo_Update [keeps_rules]: "keeps_db product_db_ok (repo_Update p)"
proof -
  have "keeps_db product_db_ok (query (\<lambda>d. case on_products (sql_update product_schema P f) d of
      (Inl err, d') \<Rightarrow> (Inl err, d') | (Inr n, d') \<Rightarrow> (if n = 0 then Inl ErrNoRows else Inr (), d')))"
    for P f
  proof (rule keeps_query)
    fix d assume "product_db_ok d"
    then have "product_db_ok (snd (on_products (sql_update product_schema P f) d))"
      by (rule on_products_update_ok)
    then show "product_db_ok (snd (case on_products (sql_update product_schema P f) d of
      (Inl err, d') \<Rightarrow> (Inl err, d') | (Inr n, d') \<Rightarrow> (if n = 0 then Inl ErrNoRows else Inr (), d')))"
      by (auto split: prod.splits sum.splits)
  qed
  then show ?thesis unfolding repo_Update_def by (intro keeps_rules)
qed

lemma keeps_repo_Delete [keeps_rules]: "keeps_db product_db_ok (repo_Delete i)"
  unfolding repo_Delete_def by (intro keeps_rules)

lemma keeps_repo_ReserveStock [keeps_rules]: "keeps_db product_db_ok (repo_ReserveStock i q)"
  unfolding repo_ReserveStock_def by (intro keeps_rules)

lemma keeps_repo_ReleaseStock [keeps_rules]: "keeps_db product_db_ok (repo_ReleaseStock i q)"
  unfolding repo_ReleaseStock_def by (intro keeps_rules)

lemma keeps_repo_ConfirmStock [keeps_rules]: "keeps_db product_db_ok (repo_ConfirmStock i q)"
  unfolding repo_ConfirmStock_def by (intro keeps_rules)

lemma keeps_MarkProcessed [keeps_rules]: "keeps_db product_db_ok (MarkProcessed e t i ord)"
proof -
  have "keeps_db product_db_ok (query (on_processed (sql_inbox pe_event_id processed_row_err ev)))" for ev
    by (rule keeps_query)
      (auto simp: product_db_ok_def on_processed_def split: prod.splits dest: sql_inbox_distinct
        [where key = pe_event_id and err = processed_row_err and e = ev])
  then show ?thesis unfolding MarkProcessed_def by (intro keeps_rules)
qed

lemma product_db_ok_row:
  assumes "product_db_ok d" and "p \<in> set (products d)"
  shows "0 \<le> sint (p_Price p) \<and> 0 \<le> sint (p_ReservedStock p) \<and>
    sint (p_ReservedStock p) \<le> sint (p_TotalStock p)"
  using assms by (auto simp: product_db_ok_def tbl_wf_def product_schema_def product_row_err_def)

section \<open>The stock statements\<close>

text \<open>What a stock statement does to the counters of a row that it accepts.\<close>

lemma reserve_set_ok:
  assumes "product_row_err p = None" and "reserve_where pid q p"
    and "0 < sint q"
  shows "reserve_set q now p = Inr (p\<lparr>p_ReservedStock := p_ReservedStock p + q, p_UpdatedAt := now\<rparr>)"
    and "product_row_err (p\<lparr>p_ReservedStock := p_ReservedStock p + q, p_UpdatedAt := now\<rparr>) = None"
    and "sint (p_ReservedStock p + q) = sint (p_ReservedStock p) + sint q"
proof -
  have "fits32 (sint (p_ReservedStock p) + sint q)"
    using assms fits32_sint [of "p_TotalStock p"] fits32_sint [of "p_ReservedStock p"]
    by (auto simp: fits32_def reserve_where_def product_row_err_def)
  then show sum: "sint (p_ReservedStock p + q) = sint (p_ReservedStock p) + sint q"
    by (rule fits32_add)
  show "reserve_set q now p = Inr (p\<lparr>p_ReservedStock := p_ReservedStock p + q, p_UpdatedAt := now\<rparr>)"
    using \<open>fits32 _\<close> by (simp add: reserve_set_def pg_int4_def)
  show "product_row_err (p\<lparr>p_ReservedStock := p_ReservedStock p + q, p_UpdatedAt := now\<rparr>) = None"
    using assms sum by (auto simp: product_row_err_def reserve_where_def)
qed

lemma release_set_ok:
  assumes "product_row_err p = None" and "release_where pid q p" and "0 < sint q"
  shows "release_set q now p = Inr (p\<lparr>p_ReservedStock := p_ReservedStock p - q, p_UpdatedAt := now\<rparr>)"
    and "product_row_err (p\<lparr>p_ReservedStock := p_ReservedStock p - q, p_UpdatedAt := now\<rparr>) = None"
    and "sint (p_ReservedStock p - q) = sint (p_ReservedStock p) - sint q"
proof -
  have fit: "fits32 (sint (p_ReservedStock p) - sint q)"
    using assms by (auto simp: release_where_def intro: fits32_diff_nonneg)
  then show diff: "sint (p_ReservedStock p - q) = sint (p_ReservedStock p) - sint q"
    by (rule fits32_diff)
  show "release_set q now p = Inr (p\<lparr>p_ReservedStock := p_ReservedStock p - q, p_UpdatedAt := now\<rparr>)"
    using fit by (simp add: release_set_def pg_int4_def)
  show "product_row_err (p\<lparr>p_ReservedStock := p_ReservedStock p - q, p_UpdatedAt := now\<rparr>) = None"
    using assms diff by (auto simp: product_row_err_def release_where_def)
qed

lemma confirm_set_ok:
  assumes "product_row_err p = None" and "release_where pid q p" and "0 < sint q"
  shows "confirm_set q now p = Inr (p\<lparr>p_TotalStock := p_TotalStock p - q,
      p_ReservedStock := p_ReservedStock p - q, p_UpdatedAt := now\<rparr>)"
    and "product_row_err (p\<lparr>p_TotalStock := p_TotalStock p - q,
      p_ReservedStock := p_ReservedStock p - q, p_UpdatedAt := now\<rparr>) = None"
    and "sint (p_TotalStock p - q) = sint (p_TotalStock p) - sint q"
proof -
  have fits: "fits32 (sint (p_ReservedStock p) - sint q)" "fits32 (sint (p_TotalStock p) - sint q)"
    using assms by (auto simp: release_where_def product_row_err_def intro!: fits32_diff_nonneg)
  then show diff: "sint (p_TotalStock p - q) = sint (p_TotalStock p) - sint q"
    by (simp add: fits32_diff)
  note diff2 = fits32_diff [OF fits(1)]
  show "confirm_set q now p = Inr (p\<lparr>p_TotalStock := p_TotalStock p - q,
      p_ReservedStock := p_ReservedStock p - q, p_UpdatedAt := now\<rparr>)"
    using fits by (simp add: confirm_set_def pg_int4_def)
  show "product_row_err (p\<lparr>p_TotalStock := p_TotalStock p - q,
      p_ReservedStock := p_ReservedStock p - q, p_UpdatedAt := now\<rparr>) = None"
    using assms diff diff2 by (auto simp: product_row_err_def release_where_def)
qed

text \<open>
  A statement by key followed by the check of the number of affected rows: it is refused and
  leaves the table alone, or it replaces the one row, and a lost answer is the only reason to
  report an error then.
\<close>

lemma exec_update_cases:
  assumes key: "\<And>now. keyed_update p_ID product_schema pid P (f now)"
    and ok: "product_db_ok (db s)"
    and row: "\<And>p now. product_row_err p = None \<Longrightarrow> P p \<Longrightarrow> f now p = Inr (g now p) \<and> product_row_err (g now p) = None"
    and run: "bindE time_Now (\<lambda>now. bindE (wrapE k m
        (query (on_products (sql_update product_schema P (f now)))))
        (\<lambda>n. if n = 0 then fail e0 else ret ())) s = (r, s')"
  shows "((\<exists>e. r = Inl e) \<and> db s' = db s \<and>
      (faults s (calls s) = None \<longrightarrow> (\<forall>p. tbl_get p_ID (products (db s)) pid = Some p \<longrightarrow> \<not> P p) \<and> r = Inl e0)) \<or>
    (\<exists>p. tbl_get p_ID (products (db s)) pid = Some p \<and> P p \<and>
      db s' = (db s)\<lparr>products := tbl_set p_ID (products (db s)) pid (g (clock s (ticks s)) p)\<rparr> \<and>
      (r = Inr () \<or> (\<exists>e. r = Inl e) \<and> faults s (calls s) \<noteq> None))"
proof -
  let ?now = "clock s (ticks s)"
  let ?s1 = "s\<lparr>ticks := ticks s + 1\<rparr>"
  let ?f = "on_products (sql_update product_schema P (f ?now))"
  have wf: "tbl_wf product_schema (products (db s))" using ok by (simp add: product_db_ok_def)
  note upd = keyed_update.update_key [OF key wf]
  have stmt: "?f (db s) = (case tbl_get p_ID (products (db s)) pid of
      None \<Rightarrow> (Inr 0, db s)
    | Some p \<Rightarrow> if \<not> P p then (Inr 0, db s)
        else (Inr 1, (db s)\<lparr>products := tbl_set p_ID (products (db s)) pid (g ?now p)\<rparr>))"
  proof (cases "tbl_get p_ID (products (db s)) pid")
    case None
    then show ?thesis by (simp add: on_products_def upd)
  next
    case (Some p)
    then have "product_row_err p = None" using tbl_wf_row [OF wf] by simp
    from row [OF this] Some show ?thesis
      by (auto simp: on_products_def upd)
  qed
  obtain x s2 where q: "query ?f ?s1 = (x, s2)" by (cases "query ?f ?s1")
  from run q have r: "r = (case x of Inl e \<Rightarrow> Inl (Wrap k (Some e) m) | Inr n \<Rightarrow> if n = 0 then Inl e0 else Inr ())"
    and s': "s' = s2"
    by (auto simp: bindE_def bindS_def time_Now_def wrapE_def fail_def ret_def split: sum.splits if_splits)
  have ok_query: "x = fst (?f (db s))" if "faults s (calls s) = None"
    using q that by (auto simp: query_def extern_def on_db_def Let_def split: prod.splits)
  from query_cases [OF q] have
    "((\<exists>e. x = Inl e) \<and> db s2 = db s) \<or>
     (\<exists>y. ?f (db s) = (y, db s2) \<and> (x = y \<or> (\<exists>a e. y = Inr a \<and> x = Inl e)))"
    by simp
  then show ?thesis
    using ok_query r s' stmt by (auto split: option.splits if_splits)
qed

end
