(* ===== verification/Auth.thy ===== *)
theory Auth
  imports Effects
begin

text \<open>
  \<open>pkg/auth\<close>: access tokens (\<open>access_token.go\<close>, \<open>token_manager.go\<close>), the claims in a request's
  context (\<open>context.go\<close>), refresh tokens, one-time codes and passwords.

  The JWT, bcrypt, SHA-256 and random packages are arguments. \<open>jwt_ok\<close> is the documented
  behaviour of the JWT parser: it asks the key function for the key of the token's algorithm
  and fails when that fails, it checks the signature with that key and then the expiry, and it
  reads back what was signed with the same key. \<open>bcrypt_ok\<close>: a hash matches the password it was
  made from, and a password of more than 72 bytes is refused.
\<close>

section \<open>Request contexts\<close>

text \<open>Times in claims are NumericDates: whole seconds.\<close>

record AccessClaims =
  UserID :: string
  Role :: string
  IssuedAt :: int
  ExpiresAt :: int

text \<open>What a handler can read of its \<open>context.Context\<close>: the claims, the metadata, the peer.\<close>

record reqctx =
  ctx_claims :: "AccessClaims option"
  ctx_metadata :: "(string \<times> string list) list option"
  ctx_peer :: "string option"

definition ContextWithClaims :: "reqctx \<Rightarrow> AccessClaims \<Rightarrow> reqctx" where
  "ContextWithClaims ctx claims = ctx\<lparr>ctx_claims := Some claims\<rparr>"

definition ClaimsFromContext :: "reqctx \<Rightarrow> AccessClaims option" where
  "ClaimsFromContext ctx = ctx_claims ctx"

lemma ClaimsFromContext_With [simp]: "ClaimsFromContext (ContextWithClaims ctx c) = Some c"
  by (simp add: ClaimsFromContext_def ContextWithClaims_def)

section \<open>Access tokens\<close>

datatype alg = HMAC string | OtherAlg string

datatype jwt_error = TokenExpired | TokenInvalid goerr

record jwt_lib =
  SignedString :: "string \<Rightarrow> AccessClaims \<Rightarrow> goerr + string"
  ParseWithClaims :: "(alg \<Rightarrow> goerr + string) \<Rightarrow> time \<Rightarrow> string \<Rightarrow> jwt_error + (AccessClaims \<times> bool)"
  AlgOf :: "string \<Rightarrow> alg"

definition jwt_ok :: "jwt_lib \<Rightarrow> bool" where
  "jwt_ok lib \<longleftrightarrow>
     (\<forall>key c tok kf now. SignedString lib key c = Inr tok \<longrightarrow> kf (HMAC ''HS256'') = Inr key \<longrightarrow>
        ParseWithClaims lib kf now tok =
          (if now < ExpiresAt c * second then Inr (c, True) else Inl TokenExpired)) \<and>
     (\<forall>kf now tok e. kf (AlgOf lib tok) = Inl e \<longrightarrow>
        (\<exists>e'. ParseWithClaims lib kf now tok = Inl (TokenInvalid e')))"

definition GenerateAccessToken ::
  "jwt_lib \<Rightarrow> string \<Rightarrow> string \<Rightarrow> string \<Rightarrow> time \<Rightarrow> (('d, 'm, 'z) env_scheme, string) comp" where
  "GenerateAccessToken lib secret userID role ttl =
     (if secret = '''' then fail (New KindInvalidInput ''jwt secret is empty'')
      else if userID = '''' then fail (New KindInvalidInput ''user id is empty'')
      else if role = '''' then fail (New KindInvalidInput ''user role is empty'')
      else if ttl \<le> 0 then fail (New KindInvalidInput ''access token ttl must be greater than zero'')
      else bindE time_Now (\<lambda>now.
        let c = \<lparr>UserID = userID, Role = role, IssuedAt = now div second,
                 ExpiresAt = (now + ttl) div second\<rparr>
        in case SignedString lib secret c of
             Inl err \<Rightarrow> fail (Wrap KindInternal (Some err) ''failed to sign access token'')
           | Inr tok \<Rightarrow> ret tok))"

text \<open>The key function: only HMAC tokens are checked against the secret.\<close>

definition access_keyfunc :: "string \<Rightarrow> alg \<Rightarrow> goerr + string" where
  "access_keyfunc secret a =
     (case a of
        HMAC _ \<Rightarrow> Inr secret
      | OtherAlg name \<Rightarrow> Inl (StdError (''unexpected signing method: '' @ name) None))"

text \<open>The library's errors as the values \<open>errors.Is\<close> compares.\<close>

definition ErrTokenExpired :: goerr where
  "ErrTokenExpired = StdError ''token is expired'' None"

definition ParseAccessToken ::
  "jwt_lib \<Rightarrow> string \<Rightarrow> string \<Rightarrow> (('d, 'm, 'z) env_scheme, AccessClaims) comp" where
  "ParseAccessToken lib secret tokenString =
     (if secret = '''' then fail (New KindInvalidInput ''jwt secret is empty'')
      else if tokenString = '''' then fail (New KindUnauthenticated ''access token is empty'')
      else bindE time_Now (\<lambda>now.
        case ParseWithClaims lib (access_keyfunc secret) now tokenString of
          Inl TokenExpired \<Rightarrow>
            fail (Wrap KindUnauthenticated (Some ErrTokenExpired) ''token has expired'')
        | Inl (TokenInvalid err) \<Rightarrow>
            fail (Wrap KindUnauthenticated (Some err) ''invalid or malformed token'')
        | Inr (c, valid) \<Rightarrow>
            if \<not> valid then fail (New KindUnauthenticated ''invalid or malformed token'')
            else ret c))"

record tokenManager =
  secret :: string
  accessTokenTTL :: time

definition NewTokenManager :: "string \<Rightarrow> time \<Rightarrow> tokenManager" where
  "NewTokenManager s ttl = \<lparr>secret = s, accessTokenTTL = ttl\<rparr>"

definition tm_GenerateAccessToken ::
  "jwt_lib \<Rightarrow> tokenManager \<Rightarrow> string \<Rightarrow> string \<Rightarrow> (('d, 'm, 'z) env_scheme, string) comp" where
  "tm_GenerateAccessToken lib m userID role =
     GenerateAccessToken lib (secret m) userID role (accessTokenTTL m)"

definition tm_ParseAccessToken ::
  "jwt_lib \<Rightarrow> tokenManager \<Rightarrow> string \<Rightarrow> (('d, 'm, 'z) env_scheme, AccessClaims) comp" where
  "tm_ParseAccessToken lib m tokenString = ParseAccessToken lib (secret m) tokenString"

lemma tm_GenerateAccessToken_Inr:
  assumes "tm_GenerateAccessToken lib m uid role s = (Inr tok, s1)"
  shows "SignedString lib (secret m) \<lparr>UserID = uid, Role = role, IssuedAt = clock s (ticks s) div second,
      ExpiresAt = (clock s (ticks s) + accessTokenTTL m) div second\<rparr> = Inr tok \<and> secret m \<noteq> '''' \<and>
    s1 = s\<lparr>ticks := ticks s + 1\<rparr>"
  using assms
  by (auto simp: tm_GenerateAccessToken_def GenerateAccessToken_def bindE_def bindS_def
      time_Now_def fail_def ret_def Let_def split: if_splits sum.splits)

lemma tm_ParseAccessToken_signed:
  assumes "jwt_ok lib" and "SignedString lib (secret m) c = Inr tok" and "secret m \<noteq> ''''" and "tok \<noteq> ''''"
  shows "fst (tm_ParseAccessToken lib m tok s) =
    (if clock s (ticks s) < ExpiresAt c * second then Inr c
     else Inl (Wrap KindUnauthenticated (Some ErrTokenExpired) ''token has expired''))"
proof -
  have "ParseWithClaims lib (access_keyfunc (secret m)) (clock s (ticks s)) tok =
      (if clock s (ticks s) < ExpiresAt c * second then Inr (c, True) else Inl TokenExpired)"
    using assms(1,2) unfolding jwt_ok_def access_keyfunc_def by fastforce
  with assms(3,4) show ?thesis
    by (auto simp: tm_ParseAccessToken_def ParseAccessToken_def bindE_def bindS_def time_Now_def
        fail_def ret_def)
qed

text \<open>
  C26: the token the manager makes for a user gives that user's id and role back for the whole
  of its life (rounded down to a second) and is refused afterwards.
\<close>

theorem access_token_lifetime:
  assumes "jwt_ok lib"
    and "tm_GenerateAccessToken lib m uid role s = (Inr tok, s1)"
    and "tok \<noteq> ''''" and "clock s' (ticks s') = now"
  shows "let issued = clock s (ticks s); expiry = (issued + accessTokenTTL m) div second * second in
    fst (tm_ParseAccessToken lib m tok s') =
      (if now < expiry
       then Inr \<lparr>UserID = uid, Role = role, IssuedAt = issued div second,
              ExpiresAt = expiry div second\<rparr>
       else Inl (Wrap KindUnauthenticated (Some ErrTokenExpired) ''token has expired''))"
proof -
  from tm_GenerateAccessToken_Inr [OF assms(2)]
  have sgn: "SignedString lib (secret m) \<lparr>UserID = uid, Role = role,
      IssuedAt = clock s (ticks s) div second,
      ExpiresAt = (clock s (ticks s) + accessTokenTTL m) div second\<rparr> = Inr tok"
    and sec: "secret m \<noteq> ''''" by blast+
  from tm_ParseAccessToken_signed [OF assms(1) sgn sec assms(3), of s'] assms(4)
  show ?thesis by (simp add: Let_def)
qed

text \<open>
  A token whose header names an algorithm that is not an HMAC is refused, whatever it
  holds and however it was signed.
\<close>

theorem no_algorithm_confusion:
  assumes "jwt_ok lib" and "AlgOf lib tok = OtherAlg a"
  shows "\<exists>e. fst (ParseAccessToken lib key tok s) = Inl e \<and>
    GetKind (Some e) \<in> {KindUnauthenticated, KindInvalidInput}"
proof -
  have "\<exists>e'. ParseWithClaims lib (access_keyfunc key) now tok = Inl (TokenInvalid e')" for now
    using assms unfolding jwt_ok_def access_keyfunc_def by fastforce
  then obtain e' where
    "ParseWithClaims lib (access_keyfunc key) (clock s (ticks s)) tok = Inl (TokenInvalid e')"
    by blast
  then show ?thesis
    by (auto simp: ParseAccessToken_def bindE_def bindS_def time_Now_def fail_def)
qed

section \<open>Refresh tokens, codes and passwords\<close>

definition hex_digit :: "nat \<Rightarrow> char" where
  "hex_digit n = (if n < 10 then char_of (48 + n) else char_of (87 + n))"

definition EncodeToString :: "string \<Rightarrow> string" where
  "EncodeToString bs =
     concat (map (\<lambda>b. [hex_digit (of_char b div 16), hex_digit (of_char b mod 16)]) bs)"

definition GenerateRefreshToken :: "goerr + string \<Rightarrow> goerr + string" where
  "GenerateRefreshToken rand_bytes =
     (case rand_bytes of
        Inl err \<Rightarrow> Inl (Wrap KindInternal (Some err) ''failed to generate refresh token'')
      | Inr b \<Rightarrow> Inr (EncodeToString b))"

definition HashRefreshToken :: "(string \<Rightarrow> string) \<Rightarrow> string \<Rightarrow> string" where
  "HashRefreshToken Sum256 token = EncodeToString (Sum256 token)"

definition dec_digit :: "nat \<Rightarrow> char" where
  "dec_digit n = char_of (48 + n mod 10)"

text \<open>\<open>fmt.Sprintf("%05d", n)\<close> for the numbers below 100000 that \<open>rand.Int\<close> draws.\<close>

definition sprintf_05d :: "nat \<Rightarrow> string" where
  "sprintf_05d n = [dec_digit (n div 10000), dec_digit (n div 1000), dec_digit (n div 100),
     dec_digit (n div 10), dec_digit n]"

definition GenerateOTP :: "(nat \<Rightarrow> goerr + nat) \<Rightarrow> goerr + string" where
  "GenerateOTP rand_Int =
     (case rand_Int 100000 of
        Inl err \<Rightarrow> Inl (Wrap KindInternal (Some err) ''failed to generate otp'')
      | Inr n \<Rightarrow> Inr (sprintf_05d n))"

datatype bcrypt_error = MismatchedHashAndPassword | HashTooShort | OtherBcrypt goerr

record bcrypt_lib =
  GenerateFromPassword :: "string \<Rightarrow> goerr + string"
  CompareHashAndPassword :: "string \<Rightarrow> string \<Rightarrow> bcrypt_error option"

definition HashPassword :: "bcrypt_lib \<Rightarrow> string \<Rightarrow> goerr + string" where
  "HashPassword lib password =
     (if password = '''' then Inl (New KindInvalidInput ''password cannot be empty'')
      else if length password < 8
        then Inl (New KindInvalidInput ''password must be at least 8 characters'')
      else case GenerateFromPassword lib password of
          Inl err \<Rightarrow> Inl (Wrap KindInternal (Some err) ''failed to hash password'')
        | Inr hashed \<Rightarrow> Inr hashed)"

definition ComparePassword :: "bcrypt_lib \<Rightarrow> string \<Rightarrow> string \<Rightarrow> goerr option" where
  "ComparePassword lib hashedPassword password =
     (case CompareHashAndPassword lib hashedPassword password of
        None \<Rightarrow> None
      | Some MismatchedHashAndPassword \<Rightarrow> Some (New KindInvalidInput ''invalid password'')
      | Some HashTooShort \<Rightarrow> Some (New KindInvalidInput ''invalid password format'')
      | Some (OtherBcrypt err) \<Rightarrow> Some (Wrap KindInternal (Some err) ''failed to compare password''))"

definition bcrypt_ok :: "bcrypt_lib \<Rightarrow> bool" where
  "bcrypt_ok lib \<longleftrightarrow>
     (\<forall>p h. GenerateFromPassword lib p = Inr h \<longrightarrow> CompareHashAndPassword lib h p = None) \<and>
     (\<forall>p. 72 < length p \<longrightarrow> (\<exists>e. GenerateFromPassword lib p = Inl e))"

lemma HashPassword_Compare:
  assumes "bcrypt_ok lib" and "HashPassword lib p = Inr h"
  shows "ComparePassword lib h p = None \<and> 8 \<le> length p \<and> length p \<le> 72"
proof -
  from assms(2) have gen: "GenerateFromPassword lib p = Inr h" and len: "8 \<le> length p"
    by (auto simp: HashPassword_def split: if_splits sum.splits)
  moreover have "length p \<le> 72"
    using assms(1) gen unfolding bcrypt_ok_def by (metis Inl_Inr_False leI)
  ultimately show ?thesis
    using assms(1) by (auto simp: bcrypt_ok_def ComparePassword_def)
qed

lemma length_sprintf_05d [simp]: "length (sprintf_05d n) = 5"
  by (simp add: sprintf_05d_def)

lemma of_char_dec_digit: "of_char (dec_digit n) = 48 + n mod (10 :: nat)"
proof -
  have "n mod 10 < 10" by simp
  then show ?thesis by (simp add: dec_digit_def take_bit_eq_mod)
qed

text \<open>Reading a code back as a number.\<close>

definition otp_value :: "string \<Rightarrow> nat" where
  "otp_value code = foldl (\<lambda>v c. v * 10 + (of_char c - 48)) 0 code"

lemma otp_value_sprintf: "n < 100000 \<Longrightarrow> otp_value (sprintf_05d n) = n"
proof -
  assume n: "n < 100000"
  have "otp_value (sprintf_05d n) =
      ((((n div 10000 mod 10) * 10 + n div 1000 mod 10) * 10 + n div 100 mod 10) * 10
        + n div 10 mod 10) * 10 + n mod 10"
    by (simp add: otp_value_def sprintf_05d_def of_char_dec_digit)
  also have "n div 10000 mod 10 = n div 1000 div 10"
    using n by (simp add: less_mult_imp_div_less flip: div_mult2_eq)
  also have "n div 1000 div 10 * 10 + n div 1000 mod 10 = n div 100 div 10"
    by (simp only: div_mult_mod_eq; simp flip: div_mult2_eq)
  also have "n div 100 div 10 * 10 + n div 100 mod 10 = n div 10 div 10"
    by (simp only: div_mult_mod_eq; simp flip: div_mult2_eq)
  finally show ?thesis by (simp only: div_mult_mod_eq)
qed

text \<open>
  A one-time code has five decimal digits, and the numbers below 100000 that the random
  source draws give different codes: no two of them share a code, so a code is as hard to guess
  as the number.
\<close>

theorem otp_five_digits_injective:
  assumes "GenerateOTP rand_Int = Inr code" and "\<And>n. rand_Int 100000 = Inr n \<Longrightarrow> n < 100000"
  shows "length code = 5 \<and> (\<forall>c \<in> set code. 48 \<le> (of_char c :: nat) \<and> (of_char c :: nat) \<le> 57) \<and>
    rand_Int 100000 = Inr (otp_value code)"
proof -
  from assms(1) obtain n where n: "rand_Int 100000 = Inr n" and code: "code = sprintf_05d n"
    by (auto simp: GenerateOTP_def split: sum.splits)
  have "48 \<le> (of_char (dec_digit m) :: nat) \<and> (of_char (dec_digit m) :: nat) \<le> 57" for m
    using mod_less_divisor [of 10 m] by (simp add: of_char_dec_digit del: mod_less_divisor)
  then have "\<forall>c \<in> set code. 48 \<le> (of_char c :: nat) \<and> (of_char c :: nat) \<le> 57"
    by (simp add: code sprintf_05d_def)
  with n assms(2) [OF n] show ?thesis
    by (simp add: code otp_value_sprintf)
qed

theorem otp_five_digits_injective_witness:
  "GenerateOTP (\<lambda>_. Inr 7) = Inr ''00007'' \<and> otp_value ''00007'' = 7"
proof -
  have "GenerateOTP (\<lambda>_. Inr 7) = Inr ''00007''" by code_simp
  with otp_five_digits_injective [of "\<lambda>_. Inr 7" "''00007''"] show ?thesis by simp
qed

section \<open>Concrete libraries\<close>

text \<open>
  A parser with the behaviour the code relies on, for the witnesses: it knows one token.
\<close>

definition toy_claims :: AccessClaims where
  "toy_claims = \<lparr>UserID = ''u1'', Role = ''admin'', IssuedAt = 0, ExpiresAt = 60\<rparr>"

definition toy_jwt :: jwt_lib where
  "toy_jwt =
     \<lparr>SignedString = (\<lambda>key c. if key = ''k'' \<and> c = toy_claims then Inr ''tok''
        else Inl (StdError ''unsupported'' None)),
      ParseWithClaims = (\<lambda>kf now tok. case kf (if tok = ''tok'' then HMAC ''HS256'' else OtherAlg ''none'') of
          Inl e \<Rightarrow> Inl (TokenInvalid e)
        | Inr key \<Rightarrow> if tok = ''tok'' \<and> key = ''k''
            then (if now < 60 * second then Inr (toy_claims, True) else Inl TokenExpired)
            else Inl (TokenInvalid (StdError ''signature is invalid'' None))),
      AlgOf = (\<lambda>tok. if tok = ''tok'' then HMAC ''HS256'' else OtherAlg ''none'')\<rparr>"

lemma toy_jwt_ok [simp]: "jwt_ok toy_jwt"
  by (auto simp: jwt_ok_def toy_jwt_def toy_claims_def split: if_splits)

definition idle_env :: "'d \<Rightarrow> ('d, 'm) env" where
  "idle_env d = \<lparr>faults = (\<lambda>_. None), calls = 0, clock = (\<lambda>_. 0), ticks = 0,
     gen = (\<lambda>i. of_nat (i + 1)), gens = 0, db = d, bus = []\<rparr>"

theorem access_token_lifetime_witness:
  "fst (tm_ParseAccessToken toy_jwt (NewTokenManager ''k'' minute) ''tok'' (idle_env ())) = Inr toy_claims"
  using access_token_lifetime
    [OF toy_jwt_ok, of "NewTokenManager ''k'' minute" "''u1''" "''admin''"
      "idle_env ()" "''tok''" "(idle_env ())\<lparr>ticks := 1\<rparr>" "idle_env ()" 0]
  by (simp add: tm_GenerateAccessToken_def GenerateAccessToken_def NewTokenManager_def idle_env_def
      bindE_def bindS_def time_Now_def ret_def toy_jwt_def toy_claims_def)

theorem no_algorithm_confusion_witness:
  "\<exists>e. fst (ParseAccessToken toy_jwt ''k'' ''forged'' (idle_env ())) = Inl e"
  using no_algorithm_confusion [OF toy_jwt_ok, of "''forged''" "''none''" "''k''" "idle_env ()"]
  by (auto simp: toy_jwt_def)

end
