(* ===== verification/GrpcErrors.thy ===== *)
theory GrpcErrors
  imports AppErrors
begin

text \<open>
  \<open>pkg/grpcerrors\<close> (\<open>error_mapper.go\<close>, \<open>client.go\<close>) and \<open>api/internal/httperrors\<close>: how an
  error of a service becomes a gRPC status on the wire, an error of the calling service, or an
  HTTP answer of the gateway.

  The status package itself is the argument \<open>status_lib\<close>: \<open>FromError\<close> reads a status off an
  error, \<open>DetailFails\<close> says that \<open>WithDetails\<close> cannot attach a detail, \<open>ErrText\<close> is what a
  foreign error prints. \<open>status_lib_ok\<close> is the documented behaviour the code relies on: a
  status error is read back as it was made, and the text of a status error is not asked for.

  The lemmas show that a classified error keeps its kind and its message over the wire, that an
  unclassified one is reported without any of its text, and what the gateway answers.
\<close>

record status_lib =
  FromError :: "goerr \<Rightarrow> (code \<times> string \<times> detail list) option"
  DetailFails :: "detail \<Rightarrow> bool"
  ErrText :: "goerr \<Rightarrow> string"

definition status_lib_ok :: "status_lib \<Rightarrow> bool" where
  "status_lib_ok lib \<longleftrightarrow> (\<forall>c m ds. FromError lib (StatusError c m ds) = Some (c, m, ds))"

lemma FromError_Status [simp]:
  "status_lib_ok lib \<Longrightarrow> FromError lib (StatusError c m ds) = Some (c, m, ds)"
  by (simp add: status_lib_ok_def)

section \<open>The server side\<close>

definition errorInfo :: "string \<Rightarrow> string \<Rightarrow> detail" where
  "errorInfo reason domain = ErrorInfo reason domain"

definition withDetails :: "status_lib \<Rightarrow> code \<Rightarrow> goerr \<Rightarrow> detail \<Rightarrow> goerr" where
  "withDetails lib c err d =
     (let msg = Error_string (ErrText lib) err in
      if \<not> DetailFails lib d then StatusError c msg [d] else StatusError c msg [])"

definition FromAppError :: "status_lib \<Rightarrow> goerr option \<Rightarrow> string \<Rightarrow> goerr option" where
  "FromAppError lib e domain =
     (case e of None \<Rightarrow> None
      | Some err \<Rightarrow> Some (case GetKind (Some err) of
          KindInvalidInput \<Rightarrow>
            withDetails lib InvalidArgument err (BadRequest [('''', Error_string (ErrText lib) err)])
        | KindUnauthenticated \<Rightarrow>
            withDetails lib Unauthenticated err (errorInfo ''UNAUTHENTICATED'' domain)
        | KindNotFound \<Rightarrow> withDetails lib NotFound err (errorInfo ''NOT_FOUND'' domain)
        | KindAlreadyExists \<Rightarrow>
            withDetails lib AlreadyExists err (errorInfo ''ALREADY_EXISTS'' domain)
        | KindPermissionDenied \<Rightarrow>
            withDetails lib PermissionDenied err (errorInfo ''PERMISSION_DENIED'' domain)
        | _ \<Rightarrow>
            (let d = errorInfo ''INTERNAL_ERROR'' domain in
             if \<not> DetailFails lib d then StatusError Internal ''internal server error'' [d]
             else StatusError Internal ''internal server error'' [])))"

section \<open>The client side\<close>

definition ToAppError :: "status_lib \<Rightarrow> goerr option \<Rightarrow> goerr option" where
  "ToAppError lib e =
     (case e of None \<Rightarrow> None
      | Some err \<Rightarrow> Some (case FromError lib err of
          None \<Rightarrow> Wrap KindInternal (Some err) ''non-grpc error from remote service''
        | Some (c, m, ds) \<Rightarrow>
            (case c of
               InvalidArgument \<Rightarrow> New KindInvalidInput m
             | NotFound \<Rightarrow> New KindNotFound m
             | AlreadyExists \<Rightarrow> New KindAlreadyExists m
             | Unauthenticated \<Rightarrow> New KindUnauthenticated m
             | PermissionDenied \<Rightarrow> New KindPermissionDenied m
             | _ \<Rightarrow> Wrap KindInternal (Some err) ''remote service call failed'')))"

section \<open>The gateway\<close>

record Body =
  body_Error :: string
  body_Reason :: string
  body_Fields :: "(string \<times> string) list"

fun httpStatusFromCode :: "code \<Rightarrow> nat" where
  "httpStatusFromCode NotFound = 404"
| "httpStatusFromCode AlreadyExists = 409"
| "httpStatusFromCode InvalidArgument = 400"
| "httpStatusFromCode Unauthenticated = 401"
| "httpStatusFromCode PermissionDenied = 403"
| "httpStatusFromCode ResourceExhausted = 429"
| "httpStatusFromCode _ = 500"

fun add_detail :: "Body \<Rightarrow> detail \<Rightarrow> Body" where
  "add_detail b (ErrorInfo reason domain) = b\<lparr>body_Reason := reason\<rparr>"
| "add_detail b (BadRequest fvs) = b\<lparr>body_Fields := body_Fields b @ fvs\<rparr>"

definition Respond :: "status_lib \<Rightarrow> goerr \<Rightarrow> nat \<times> Body" where
  "Respond lib err =
     (case FromError lib err of
        None \<Rightarrow> (500, \<lparr>body_Error = ''internal server error'', body_Reason = '''', body_Fields = []\<rparr>)
      | Some (c, m, ds) \<Rightarrow>
          (httpStatusFromCode c,
           foldl add_detail \<lparr>body_Error = m, body_Reason = '''', body_Fields = []\<rparr> ds))"

section \<open>Lemmas\<close>

text \<open>The kinds \<open>FromAppError\<close> passes on; \<open>KindUnknown\<close> and \<open>KindInternal\<close> are hidden.\<close>

fun public_kind :: "Kind \<Rightarrow> bool" where
  "public_kind KindUnknown \<longleftrightarrow> False"
| "public_kind KindInternal \<longleftrightarrow> False"
| "public_kind k \<longleftrightarrow> True"

fun httpStatusFromKind :: "Kind \<Rightarrow> nat" where
  "httpStatusFromKind KindNotFound = 404"
| "httpStatusFromKind KindAlreadyExists = 409"
| "httpStatusFromKind KindInvalidInput = 400"
| "httpStatusFromKind KindUnauthenticated = 401"
| "httpStatusFromKind KindPermissionDenied = 403"
| "httpStatusFromKind _ = 500"

lemma withDetails_eq:
  "withDetails lib c err d =
     StatusError c (Error_string (ErrText lib) err) (if DetailFails lib d then [] else [d])"
  by (simp add: withDetails_def Let_def)

lemma FromAppError_hidden:
  assumes "\<not> public_kind (GetKind (Some err))"
  shows "\<exists>ds. FromAppError lib (Some err) domain =
           Some (StatusError Internal ''internal server error'' ds) \<and>
           set ds \<subseteq> {ErrorInfo ''INTERNAL_ERROR'' domain}"
  using assms
  by (cases "GetKind (Some err)") (auto simp: FromAppError_def errorInfo_def Let_def)

lemma ToApp_FromApp_public:
  assumes "status_lib_ok lib" and "public_kind (GetKind (Some err))"
  shows "ToAppError lib (FromAppError lib (Some err) domain) =
           Some (New (GetKind (Some err)) (Error_string (ErrText lib) err))"
  using assms
  by (cases "GetKind (Some err)") (auto simp: FromAppError_def ToAppError_def withDetails_eq)

lemma Respond_status:
  assumes "status_lib_ok lib"
  shows "fst (Respond lib (StatusError c m ds)) = httpStatusFromCode c"
  using assms by (simp add: Respond_def)

text \<open>
  C27: an error a service returns keeps its kind and its text when another service receives it
  over gRPC; an error of the unknown or the internal kind arrives as an internal error that wraps a
  status with a fixed text, and says nothing of its own text.
\<close>

theorem error_kind_roundtrip:
  assumes "status_lib_ok lib"
  shows "(GetKind (Some err) \<notin> {KindUnknown, KindInternal} \<longrightarrow>
      ToAppError lib (FromAppError lib (Some err) domain) =
        Some (New (GetKind (Some err)) (Error_string (ErrText lib) err))) \<and>
    (GetKind (Some err) \<in> {KindUnknown, KindInternal} \<longrightarrow>
      (\<exists>ds. ToAppError lib (FromAppError lib (Some err) domain) =
        Some (Wrap KindInternal (Some (StatusError Internal ''internal server error'' ds))
          ''remote service call failed'') \<and> set ds \<subseteq> {ErrorInfo ''INTERNAL_ERROR'' domain}))"
proof (intro conjI impI)
  assume "GetKind (Some err) \<notin> {KindUnknown, KindInternal}"
  then have "public_kind (GetKind (Some err))" by (cases "GetKind (Some err)") auto
  with assms show "ToAppError lib (FromAppError lib (Some err) domain) =
      Some (New (GetKind (Some err)) (Error_string (ErrText lib) err))"
    by (rule ToApp_FromApp_public)
next
  assume "GetKind (Some err) \<in> {KindUnknown, KindInternal}"
  then have "\<not> public_kind (GetKind (Some err))" by auto
  from FromAppError_hidden [OF this] obtain ds where
    "FromAppError lib (Some err) domain = Some (StatusError Internal ''internal server error'' ds)"
    "set ds \<subseteq> {ErrorInfo ''INTERNAL_ERROR'' domain}"
    by blast
  with assms show "\<exists>ds. ToAppError lib (FromAppError lib (Some err) domain) =
        Some (Wrap KindInternal (Some (StatusError Internal ''internal server error'' ds))
          ''remote service call failed'') \<and> set ds \<subseteq> {ErrorInfo ''INTERNAL_ERROR'' domain}"
    by (simp add: ToAppError_def)
qed

text \<open>A status package with the behaviour the code relies on, for the witnesses.\<close>

definition plain_status_lib :: status_lib where
  "plain_status_lib =
     \<lparr>FromError = (\<lambda>e. case e of StatusError c m ds \<Rightarrow> Some (c, m, ds) | _ \<Rightarrow> None),
      DetailFails = (\<lambda>_. False), ErrText = (\<lambda>_. ''driver'')\<rparr>"

lemma plain_status_lib_ok [simp]: "status_lib_ok plain_status_lib"
  by (simp add: status_lib_ok_def plain_status_lib_def)

theorem error_kind_roundtrip_witness:
  "ToAppError plain_status_lib
     (FromAppError plain_status_lib (Some (New KindNotFound ''gone'')) ''product-service'') =
     Some (New KindNotFound ''gone'')"
  using error_kind_roundtrip
    [OF plain_status_lib_ok, of "New KindNotFound ''gone''" "''product-service''"]
  by simp

text \<open>
  What the gateway answers for an error of a service depends on the error's kind only, and
  an error without a public kind is reported with a fixed text: no part of the error reaches
  the client.
\<close>

theorem gateway_answer_by_kind:
  assumes "status_lib_ok lib" and "FromAppError lib (Some err) domain = Some st"
  shows "fst (Respond lib st) = httpStatusFromKind (GetKind (Some err)) \<and>
         (GetKind (Some err) \<in> {KindUnknown, KindInternal} \<longrightarrow>
            body_Error (snd (Respond lib st)) = ''internal server error'' \<and>
            body_Fields (snd (Respond lib st)) = [])"
proof (cases "public_kind (GetKind (Some err))")
  case True
  with assms show ?thesis
    by (cases "GetKind (Some err)") (auto simp: FromAppError_def withDetails_eq Respond_def)
next
  case False
  with assms show ?thesis
    by (cases "GetKind (Some err)")
      (auto simp: FromAppError_def Let_def errorInfo_def Respond_def)
qed

theorem gateway_answer_by_kind_witness:
  "fst (Respond plain_status_lib
     (StatusError Internal ''internal server error'' [ErrorInfo ''INTERNAL_ERROR'' ''user-service''])) = 500"
  using gateway_answer_by_kind
    [OF plain_status_lib_ok, of "Wrap KindInternal (Some (PgError ''57014'')) ''failed''" "''user-service''"
      "StatusError Internal ''internal server error'' [ErrorInfo ''INTERNAL_ERROR'' ''user-service'']"]
  by (simp add: FromAppError_def plain_status_lib_def errorInfo_def)

end
