(* ===== verification/Rpc.thy ===== *)
theory Rpc
  imports Effects GrpcErrors
begin

text \<open>
  Calls between processes. \<open>renv\<close> is the state of a service that calls another process, whose state is
  \<open>remote\<close>; \<open>grpc_answer\<close> is what every gRPC handler of the services does with the error of its
  service method.
\<close>

section \<open>A remote process\<close>

record ('d, 'm, 'r) renv = "('d, 'm) env" +
  remote :: 'r

definition on_remote :: "('r \<Rightarrow> (goerr + 'a) \<times> 'r) \<Rightarrow> (('d, 'm, 'r, 'z) renv_scheme, 'a) comp" where
  "on_remote f s = (case f (remote s) of (r, w) \<Rightarrow> (r, s\<lparr>remote := w\<rparr>))"

lemma keeps_on_remote [keeps_rules]: "keeps_db J (on_remote f)" "keeps healthy (on_remote f)"
  by (auto simp: keeps_def on_remote_def healthy_def split: prod.splits)

lemma keeps_remote [keeps_rules]:
  fixes J :: "'r \<Rightarrow> bool"
  shows "keeps (\<lambda>s. J (remote s)) (time_Now :: (('d, 'm, 'r, 'z) renv_scheme, time) comp)"
    and "keeps (\<lambda>s. J (remote s)) (uuid_New :: (('d, 'm, 'r, 'z) renv_scheme, uuid) comp)"
    and "keeps (\<lambda>s. J (remote s)) (query f :: (('d, 'm, 'r, 'z) renv_scheme, 'a) comp)"
    and "keeps (\<lambda>s. J (remote s)) (send m :: (('d, 'm, 'r, 'z) renv_scheme, unit) comp)"
    and "keeps (\<lambda>s. J (remote s)) (extern (ret a) :: (('d, 'm, 'r, 'z) renv_scheme, 'b) comp)"
  by (auto simp: keeps_def time_Now_def uuid_New_def query_def send_def extern_def on_db_def Let_def ret_def
      split: option.splits fault.splits prod.splits sum.splits)

lemma keeps_remote_WithTx [keeps_rules]:
  "keeps (\<lambda>s. J (remote s)) body \<Longrightarrow> keeps (\<lambda>s. J (remote s)) (WithTx pool (Some body))"
  by (erule keeps_WithTx_gen) auto

text \<open>A computed result as a step.\<close>

definition of_sum :: "goerr + 'a \<Rightarrow> ('s, 'a) comp" where
  "of_sum x = (case x of Inl e \<Rightarrow> fail e | Inr a \<Rightarrow> ret a)"

lemma keeps_of_sum [keeps_rules]: "keeps I (of_sum x)"
  unfolding of_sum_def by (intro keeps_rules)

lemma of_sum_Inr: "of_sum x s = (Inr a, s') \<longleftrightarrow> x = Inr a \<and> s' = s"
  by (cases x) (auto simp: of_sum_def ret_eq fail_eq)

section \<open>Answering a call\<close>

definition grpc_answer :: "status_lib \<Rightarrow> string \<Rightarrow> ('s, 'a) comp \<Rightarrow> ('s, 'a) comp" where
  "grpc_answer lib domain m =
     bindS m (\<lambda>r. case r of
        Inl err \<Rightarrow> (case FromAppError lib (Some err) domain of Some st \<Rightarrow> fail st | None \<Rightarrow> fail err)
      | Inr resp \<Rightarrow> ret resp)"

lemma keeps_grpc_answer [keeps_rules]: "keeps I m \<Longrightarrow> keeps I (grpc_answer lib dn m)"
  unfolding grpc_answer_def by (intro keeps_rules)

end
