(* ===== verification/Broker.thy ===== *)
theory Broker
  imports Events
begin

text \<open>
  \<open>pkg/rabbitmq\<close> (\<open>connection.go\<close>, \<open>publisher.go\<close>, \<open>consumer.go\<close>, \<open>module.go\<close>) and the
  queues the services declare.

  \<open>Publish\<close> is what the method answers and leaves when the confirmation it waits for arrives; the
  connection's failures and refusals are faults of the environment. \<open>Publish_waiting\<close> is the same method
  with the confirmation listeners of its channel, which the code never takes away: it answers as
  \<open>Publish\<close> does, or never (\<open>None\<close>). \<open>BindQueue\<close> and \<open>Consume\<close> are the consumer's methods:
  \<open>Consume\<close> reads the finite sequence of things its \<open>select\<close> observes and returns the decision
  (ack or requeue) it took for each message. The channel's own methods are external calls.
\<close>

section \<open>Connections\<close>

record Connection =
  conn :: "bool option"          \<comment> \<open>\<open>nil\<close>, or whether \<open>IsClosed()\<close>\<close>
  closeDone :: bool              \<comment> \<open>\<open>closeOnce\<close> has run\<close>

definition Connect :: "(string \<Rightarrow> goerr option) \<Rightarrow> string \<Rightarrow> goerr + Connection" where
  "Connect Dial url =
     (if url = '''' then Inl (New KindInvalidInput ''rabbitmq url is empty'')
      else case Dial url of
          Some err \<Rightarrow> Inl (Wrap KindInternal (Some err) ''failed to connect to rabbitmq'')
        | None \<Rightarrow> Inr \<lparr>conn = Some False, closeDone = False\<rparr>)"

definition Connection_Channel :: "(Connection \<Rightarrow> goerr + 'ch) \<Rightarrow> Connection option \<Rightarrow> goerr + 'ch" where
  "Connection_Channel openCh c =
     (case c of
        None \<Rightarrow> Inl (New KindInternal ''rabbitmq connection is nil'')
      | Some c' \<Rightarrow>
         (case conn c' of
            None \<Rightarrow> Inl (New KindInternal ''rabbitmq connection is nil'')
          | Some closed \<Rightarrow>
              if closed then Inl (New KindInternal ''rabbitmq connection is closed'')
              else case openCh c' of
                  Inl err \<Rightarrow> Inl (Wrap KindInternal (Some err) ''failed to open rabbitmq channel'')
                | Inr ch \<Rightarrow> Inr ch))"

text \<open>The error of the first \<open>Close\<close> is what that call returns; later calls do nothing.\<close>

definition Connection_Close ::
  "goerr option \<Rightarrow> Connection option \<Rightarrow> goerr option \<times> Connection option" where
  "Connection_Close closeErr c =
     (case c of
        None \<Rightarrow> (None, c)
      | Some c' \<Rightarrow>
         (case conn c' of
            None \<Rightarrow> (None, c)
          | Some closed \<Rightarrow>
              if closeDone c' then (None, c)
              else (closeErr, Some (c'\<lparr>conn := Some True, closeDone := True\<rparr>))))"

section \<open>Publishing\<close>

record Publisher =
  channel_ok :: bool
  exchange :: string

definition NewPublisher ::
  "(string \<Rightarrow> goerr option) \<Rightarrow> goerr option \<Rightarrow> bool \<Rightarrow> string \<Rightarrow> goerr + Publisher" where
  "NewPublisher ExchangeDeclare ConfirmMode channel ex =
     (if \<not> channel then Inl (New KindInternal ''rabbitmq channel is nil'')
      else if ex = '''' then Inl (New KindInvalidInput ''rabbitmq exchange is empty'')
      else case ExchangeDeclare ex of
          Some err \<Rightarrow> Inl (Wrap KindInternal (Some err) ''failed to declare exchange'')
        | None \<Rightarrow>
           (case ConfirmMode of
              Some err \<Rightarrow> Inl (Wrap KindInternal (Some err) ''failed to enable publisher confirms'')
            | None \<Rightarrow> Inr \<lparr>channel_ok = True, exchange = ex\<rparr>))"

text \<open>
  What \<open>Publish\<close> answers when its confirmation arrives (whether it does is \<open>Publish_waiting\<close> below).
  The confirmation is the second external call: an error there is a negative confirmation, or the end
  of the channel.
\<close>

definition Publish ::
  "event_json \<Rightarrow> Publisher option \<Rightarrow> string \<Rightarrow> event \<Rightarrow> (('d, message, 'z) env_scheme, unit) comp" where
  "Publish js p routingKey payload =
     (if (case p of None \<Rightarrow> True | Some p' \<Rightarrow> \<not> channel_ok p')
      then fail (New KindInternal ''rabbitmq publisher is not initialized'')
      else if routingKey = '''' then fail (New KindInvalidInput ''rabbitmq routing key is empty'')
      else case Marshal js payload of
          Inl err \<Rightarrow> fail (Wrap KindInternal (Some err) ''failed to marshal event payload'')
        | Inr body \<Rightarrow>
            bindE (wrapE KindInternal ''failed to publish event'' (send (routingKey, payload)))
              (\<lambda>_. bindS (extern (ret ())) (\<lambda>ack. case ack of
                 Inl _ \<Rightarrow> fail (New KindInternal ''rabbitmq rejected published message'')
               | Inr _ \<Rightarrow> ret ())))"

text \<open>
  What a call of \<open>Publish\<close> can do to the state: it adds its message to the bus or not; when it
  answers no error the message is there.
\<close>

definition only_bus :: "message list \<Rightarrow> ('d, message, 'z) env_scheme \<Rightarrow> ('d, message, 'z) env_scheme \<Rightarrow> bool" where
  "only_bus ms s s' \<longleftrightarrow>
     (\<exists>c \<ge> calls s. s' = s\<lparr>calls := c, bus := bus s @ ms\<rparr>)"

lemma only_bus_refl: "only_bus [] s s"
  unfolding only_bus_def by (rule exI [of _ "calls s"]) simp

lemma only_busD:
  "only_bus ms s s' \<Longrightarrow> db s' = db s \<and> bus s' = bus s @ ms \<and> faults s' = faults s \<and>
    clock s' = clock s \<and> ticks s' = ticks s \<and> gen s' = gen s \<and> gens s' = gens s \<and>
    env.more s' = env.more s"
  by (auto simp: only_bus_def)

lemma only_bus_trans: "only_bus ms s s1 \<Longrightarrow> only_bus ns s1 s2 \<Longrightarrow> only_bus (ms @ ns) s s2"
  by (auto simp: only_bus_def) (metis le_trans)

lemma only_bus_calls: "only_bus [] s (s\<lparr>calls := calls s + 1\<rparr>)"
  unfolding only_bus_def by (rule exI [of _ "calls s + 1"]) simp

lemma extern_ret_cases: "extern (ret a) s = (r, s') \<Longrightarrow> only_bus [] s s'"
  using only_bus_calls [of s]
  by (auto simp: extern_def ret_def Let_def split: option.splits fault.splits)

lemma send_cases:
  assumes "send m s = (r, s')"
  shows "(r = Inr () \<and> only_bus [m] s s') \<or>
    ((\<exists>e. r = Inl e) \<and> (only_bus [] s s' \<or> only_bus [m] s s'))"
proof -
  have "only_bus [m] s (s\<lparr>calls := calls s + 1, bus := bus s @ [m]\<rparr>)"
    unfolding only_bus_def by (rule exI [of _ "calls s + 1"]) simp
  with assms only_bus_calls [of s] show ?thesis
    by (auto simp: send_def extern_def Let_def split: option.splits fault.splits)
qed

lemma Publish_cases:
  assumes "Publish js p rk ev s = (r, s')"
  shows "(r = Inr () \<and> only_bus [(rk, ev)] s s') \<or>
    ((\<exists>e. r = Inl e) \<and> (only_bus [] s s' \<or> only_bus [(rk, ev)] s s'))"
proof (cases "(\<exists>p'. p = Some p' \<and> channel_ok p') \<and> rk \<noteq> '''' \<and> (\<exists>body. Marshal js ev = Inr body)")
  case False
  with assms have "(\<exists>e. r = Inl e) \<and> s' = s"
    by (auto simp: Publish_def fail_def split: if_splits option.splits sum.splits)
  then show ?thesis using only_bus_refl by blast
next
  case True
  obtain x s1 where send: "send (rk, ev) s = (x, s1)" by (cases "send (rk, ev) s")
  obtain y s2 where ack: "extern (ret ()) s1 = (y, s2)" by (cases "extern (ret ()) s1")
  from True send ack assms have "(case x of Inl e \<Rightarrow> (\<exists>e. r = Inl e) \<and> s' = s1
      | Inr _ \<Rightarrow> (case y of Inl e \<Rightarrow> (\<exists>e. r = Inl e) | Inr _ \<Rightarrow> r = Inr ()) \<and> s' = s2)"
    by (auto simp: Publish_def bindE_def bindS_def wrapE_def fail_def ret_def split: sum.splits)
  with send_cases [OF send] extern_ret_cases [OF ack] show ?thesis
    by (auto split: sum.splits dest: only_bus_trans)
qed

lemma keeps_db_Publish [keeps_rules]: "keeps_db J (Publish js p rk ev)"
  unfolding Publish_def by (intro keeps_rules | simp add: keeps_rules)+

section \<open>Publisher confirms\<close>

text \<open>
  \<open>Publish\<close> registers a new confirmation channel of capacity 1 for each message and never removes
  it. A state of the publisher is the list of the free places of its channels. \<open>dispatch\<close> is the
  client library's delivery of one confirmation to the channels: by its documentation each one
  receives it, and the delivery blocks on a channel nobody reads (\<open>None\<close>). The confirmation
  is taken to arrive after the channel is registered: if it came before, it would be lost.
\<close>

definition dispatch_ok :: "(nat list \<Rightarrow> nat list option) \<Rightarrow> bool" where
  "dispatch_ok dispatch \<longleftrightarrow>
     (\<forall>ls. (if 0 \<in> set ls then dispatch ls = None else dispatch ls = Some (map (\<lambda>n. n - 1) ls)))"

definition await_confirm :: "(nat list \<Rightarrow> nat list option) \<Rightarrow> nat list \<Rightarrow> nat list option" where
  "await_confirm dispatch listeners =
     (case dispatch (listeners @ [1]) of
        None \<Rightarrow> None
      | Some ls \<Rightarrow> Some (butlast ls @ [last ls + 1]))"

fun await_confirms :: "(nat list \<Rightarrow> nat list option) \<Rightarrow> nat \<Rightarrow> nat list option" where
  "await_confirms dispatch 0 = Some []"
| "await_confirms dispatch (Suc n) =
     (case await_confirms dispatch n of None \<Rightarrow> None | Some ls \<Rightarrow> await_confirm dispatch ls)"

text \<open>
  \<open>Publish\<close> with the listeners \<open>ls\<close> of its channel before and after: \<open>None\<close> when it never returns.
\<close>

definition Publish_waiting ::
  "(nat list \<Rightarrow> nat list option) \<Rightarrow> event_json \<Rightarrow> Publisher option \<Rightarrow> string \<Rightarrow> event \<Rightarrow>
    ('d, message, 'z) env_scheme \<Rightarrow> nat list \<Rightarrow>
    ((goerr + unit) \<times> ('d, message, 'z) env_scheme \<times> nat list) option" where
  "Publish_waiting dispatch js p routingKey payload s ls =
     (if (case p of None \<Rightarrow> True | Some p' \<Rightarrow> \<not> channel_ok p')
      then Some (Inl (New KindInternal ''rabbitmq publisher is not initialized''), s, ls)
      else if routingKey = ''''
      then Some (Inl (New KindInvalidInput ''rabbitmq routing key is empty''), s, ls)
      else case Marshal js payload of
          Inl err \<Rightarrow> Some (Inl (Wrap KindInternal (Some err) ''failed to marshal event payload''), s, ls)
        | Inr body \<Rightarrow>
           (case send (routingKey, payload) s of
              (Inl err, s1) \<Rightarrow> Some (Inl (Wrap KindInternal (Some err) ''failed to publish event''), s1, ls)
            | (Inr _, s1) \<Rightarrow>
               (case await_confirm dispatch ls of
                  None \<Rightarrow> None
                | Some ls' \<Rightarrow>
                   (case extern (ret ()) s1 of
                      (Inl _, s2) \<Rightarrow>
                        Some (Inl (New KindInternal ''rabbitmq rejected published message''), s2, ls')
                    | (Inr u, s2) \<Rightarrow> Some (Inr (), s2, ls')))))"

lemma Publish_waiting_Some:
  assumes "Publish_waiting dispatch js p rk ev s ls = Some (r, s', ls')"
  shows "Publish js p rk ev s = (r, s')"
proof (cases "(\<exists>p'. p = Some p' \<and> channel_ok p') \<and> rk \<noteq> '''' \<and> (\<exists>body. Marshal js ev = Inr body)")
  case False
  with assms show ?thesis
    by (auto simp: Publish_waiting_def Publish_def fail_def split: if_splits option.splits sum.splits)
next
  case True
  then obtain p' body where ok: "p = Some p'" "channel_ok p'" "rk \<noteq> ''''" "Marshal js ev = Inr body" by blast
  obtain x s1 where send: "send (rk, ev) s = (x, s1)" by (cases "send (rk, ev) s")
  obtain y s2 where ack: "extern (ret ()) s1 = (y, s2)" by (cases "extern (ret ()) s1 :: (goerr + unit) \<times> _")
  show ?thesis
    using assms ok send ack
    by (cases x; cases y)
      (auto simp: Publish_waiting_def Publish_def bindE_def bindS_def wrapE_def fail_def ret_def split: option.splits)
qed

text \<open>Messages published one after the other on the same channel.\<close>

fun publish_each ::
  "(nat list \<Rightarrow> nat list option) \<Rightarrow> event_json \<Rightarrow> Publisher option \<Rightarrow> message list \<Rightarrow>
    ('d, message, 'z) env_scheme \<Rightarrow> nat list \<Rightarrow> (('d, message, 'z) env_scheme \<times> nat list) option" where
  "publish_each dispatch js p [] s ls = Some (s, ls)"
| "publish_each dispatch js p (m # ms) s ls =
     (case Publish_waiting dispatch js p (fst m) (snd m) s ls of
        None \<Rightarrow> None
      | Some (r, s1, ls1) \<Rightarrow> publish_each dispatch js p ms s1 ls1)"

lemma Publish_waiting_healthy:
  assumes "healthy s" and "channel_ok p" and "rk \<noteq> ''''" and "Marshal js ev = Inr body"
  shows "Publish_waiting dispatch js (Some p) rk ev s ls =
    map_option (\<lambda>ls'. (Inr (), s\<lparr>calls := calls s + 2, bus := bus s @ [(rk, ev)]\<rparr>, ls')) (await_confirm dispatch ls)"
  using assms
  by (simp add: Publish_waiting_def send_def extern_healthy ret_def split: option.splits)

lemma publish_each_healthy:
  assumes "channel_ok p" and "\<forall>m \<in> set ms. fst m \<noteq> '''' \<and> (\<exists>body. Marshal js (snd m) = Inr body)"
    and "healthy s" and "await_confirms dispatch k = Some ls"
  shows "(publish_each dispatch js (Some p) ms s ls = None) = (await_confirms dispatch (k + length ms) = None)"
  using assms(2-)
proof (induction ms arbitrary: s ls k)
  case Nil
  then show ?case by simp
next
  case (Cons m ms)
  from Cons.prems(1) obtain body where m: "fst m \<noteq> ''''" "Marshal js (snd m) = Inr body" by auto
  note one = Publish_waiting_healthy [OF Cons.prems(2) assms(1) m]
  show ?case
  proof (cases "await_confirm dispatch ls")
    case None
    have "await_confirms dispatch (Suc k + n) = None" for n
      by (induction n) (simp_all add: Cons.prems(3) None)
    from this [of "length ms"] None one show ?thesis by simp
  next
    case (Some ls1)
    let ?s1 = "s\<lparr>calls := calls s + 2, bus := bus s @ [m]\<rparr>"
    have "(publish_each dispatch js (Some p) ms ?s1 ls1 = None) = (await_confirms dispatch (Suc k + length ms) = None)"
      by (rule Cons.IH) (use Cons.prems Some in auto)
    with one Some show ?thesis by simp
  qed
qed

lemma confirms_two:
  assumes "dispatch_ok dispatch"
  shows "(n \<le> 2 \<longrightarrow> await_confirms dispatch n \<noteq> None) \<and> (3 \<le> n \<longrightarrow> await_confirms dispatch n = None)"
proof -
  have none: "await_confirms dispatch (m + 3) = None" for m
    using assms
    by (induction m) (simp_all add: await_confirm_def dispatch_ok_def numeral_3_eq_3)
  have "n = 0 \<or> n = 1 \<or> n = 2 \<or> (\<exists>m. n = m + 3)" by presburger
  with none show ?thesis
    using assms by (auto simp: await_confirm_def dispatch_ok_def numeral_2_eq_2)
qed

text \<open>
  C37: a publisher confirms two messages; from the third on \<open>Publish\<close> never returns, because the
  confirmation is first delivered to the channel of the first message, which is full: of messages that
  can be marshalled, published one after the other while nothing fails, one or two are confirmed,
  and with three or more the publisher is stuck.
\<close>

theorem publish_blocks_from_third:
  fixes s :: "('d, message, 'z) env_scheme"
  assumes "dispatch_ok dispatch"
  shows "(n \<le> 2 \<longrightarrow> await_confirms dispatch n \<noteq> None) \<and> (3 \<le> n \<longrightarrow> await_confirms dispatch n = None) \<and>
    (healthy s \<and> channel_ok p \<and> (\<forall>m \<in> set ms. fst m \<noteq> '''' \<and> (\<exists>body. Marshal js (snd m) = Inr body)) \<longrightarrow>
      (length ms \<le> 2 \<longrightarrow> (\<exists>s' ls. publish_each dispatch js (Some p) ms s [] = Some (s', ls))) \<and>
      (3 \<le> length ms \<longrightarrow> publish_each dispatch js (Some p) ms s [] = None))"
  using confirms_two [OF assms, of n] confirms_two [OF assms, of "length ms"]
    publish_each_healthy [of p ms js s dispatch 0 "[]"]
  by auto

definition go_dispatch :: "nat list \<Rightarrow> nat list option" where
  "go_dispatch ls = (if 0 \<in> set ls then None else Some (map (\<lambda>n. n - 1) ls))"

definition one_env :: "(unit, message) env" where
  "one_env = \<lparr>faults = (\<lambda>_. None), calls = 0, clock = int, ticks = 0, gen = (\<lambda>i. of_nat (i + 1)), gens = 0,
     db = (), bus = []\<rparr>"

definition any_json :: event_json where
  "any_json = \<lparr>Marshal = (\<lambda>_. Inr ''b''), UnmarshalStockRelease = (\<lambda>_. Inl (StdError ''bad'' None)),
     UnmarshalStockConfirm = (\<lambda>_. Inl (StdError ''bad'' None)), UnmarshalOrderCreated = (\<lambda>_. Inl (StdError ''bad'' None)),
     UnmarshalPaymentCompleted = (\<lambda>_. Inl (StdError ''bad'' None)),
     UnmarshalPaymentFailed = (\<lambda>_. Inl (StdError ''bad'' None))\<rparr>"

theorem publish_blocks_from_third_witness:
  "await_confirms go_dispatch 4 = None \<and>
    publish_each go_dispatch any_json (Some \<lparr>channel_ok = True, exchange = ''payment_events''\<rparr>)
      (replicate 3 (RoutingKeyPaymentFailed, EvPaymentFailed \<lparr>pf_EventID = 1, pf_OrderID = 2, pf_PaymentID = 3,
        pf_Reason = '''', pf_FailedAt = 0\<rparr>)) one_env [] = None"
proof -
  have "dispatch_ok go_dispatch" by (simp add: dispatch_ok_def go_dispatch_def)
  from publish_blocks_from_third [OF this, of 4 one_env "\<lparr>channel_ok = True, exchange = ''payment_events''\<rparr>"
      "replicate 3 (RoutingKeyPaymentFailed, EvPaymentFailed \<lparr>pf_EventID = 1, pf_OrderID = 2, pf_PaymentID = 3,
        pf_Reason = '''', pf_FailedAt = 0\<rparr>)" any_json]
  show ?thesis by (simp add: any_json_def one_env_def healthy_def RoutingKeyPaymentFailed_def)
qed

section \<open>Consuming\<close>

definition BindQueue ::
  "(string \<Rightarrow> goerr option) \<Rightarrow> (string \<Rightarrow> string \<Rightarrow> string \<Rightarrow> goerr option) \<Rightarrow>
    string \<Rightarrow> string \<Rightarrow> string \<Rightarrow> goerr option" where
  "BindQueue QueueDeclare QueueBind queueName ex routingKey =
     (if queueName = '''' then Some (New KindInvalidInput ''queue name is empty'')
      else if ex = '''' then Some (New KindInvalidInput ''exchange name is empty'')
      else if routingKey = '''' then Some (New KindInvalidInput ''routing key is empty'')
      else case QueueDeclare queueName of
          Some err \<Rightarrow> Some (Wrap KindInternal (Some err) ''failed to declare rabbitmq queue'')
        | None \<Rightarrow>
           (case QueueBind queueName routingKey ex of
              Some err \<Rightarrow> Some (Wrap KindInternal (Some err) ''failed to bind rabbitmq queue'')
            | None \<Rightarrow> None))"

text \<open>What the consumer's \<open>select\<close> observes, and what it decides about a message.\<close>

datatype observed = CtxDone | ChannelClosed | Delivery string

datatype decision = Acked string | Requeued string

text \<open>
  The loop: \<open>None\<close> as result means that it waits for more.
\<close>

fun consume_loop ::
  "(string \<Rightarrow> (('d, 'm, 'z) env_scheme, unit) comp) \<Rightarrow> observed list \<Rightarrow>
    ('d, 'm, 'z) env_scheme \<Rightarrow> goerr option option \<times> decision list \<times> ('d, 'm, 'z) env_scheme" where
  "consume_loop handler [] s = (None, [], s)"
| "consume_loop handler (CtxDone # obs) s = (Some None, [], s)"
| "consume_loop handler (ChannelClosed # obs) s =
     (Some (Some (New KindInternal ''rabbitmq consumer channel closed'')), [], s)"
| "consume_loop handler (Delivery body # obs) s =
     (case handler body s of
        (Inr _, s1) \<Rightarrow>
          (case extern (ret ()) s1 of
             (Inl err, s2) \<Rightarrow>
               (Some (Some (Wrap KindInternal (Some err) ''failed to ack rabbitmq message'')), [], s2)
           | (Inr _, s2) \<Rightarrow>
               (case consume_loop handler obs s2 of (r, ds, s3) \<Rightarrow> (r, Acked body # ds, s3)))
      | (Inl _, s1) \<Rightarrow>
          (case extern (ret ()) s1 of
             (Inl err, s2) \<Rightarrow>
               (Some (Some (Wrap KindInternal (Some err) ''failed to nack rabbitmq message'')), [], s2)
           | (Inr _, s2) \<Rightarrow>
               (case consume_loop handler obs s2 of (r, ds, s3) \<Rightarrow> (r, Requeued body # ds, s3))))"

definition Consume ::
  "bool \<Rightarrow> string \<Rightarrow> (string \<Rightarrow> (('d, 'm, 'z) env_scheme, unit) comp) option \<Rightarrow> observed list \<Rightarrow>
    ('d, 'm, 'z) env_scheme \<Rightarrow> goerr option option \<times> decision list \<times> ('d, 'm, 'z) env_scheme" where
  "Consume channel queueName handler obs s =
     (if \<not> channel then (Some (Some (New KindInternal ''rabbitmq consumer is not initialized'')), [], s)
      else case handler of
          None \<Rightarrow> (Some (Some (New KindInvalidInput ''consumer handler is nil'')), [], s)
        | Some h \<Rightarrow>
            if queueName = '''' then (Some (Some (New KindInvalidInput ''queue name is empty'')), [], s)
            else
             (case extern (ret ()) s of
                (Inl err, s1) \<Rightarrow>
                  (Some (Some (Wrap KindInternal (Some err) ''failed to configure rabbitmq qos'')), [], s1)
              | (Inr _, s1) \<Rightarrow>
                 (case extern (ret ()) s1 of
                    (Inl err, s2) \<Rightarrow>
                      (Some (Some (Wrap KindInternal (Some err) ''failed to start rabbitmq consumer'')), [], s2)
                  | (Inr _, s2) \<Rightarrow> consume_loop h obs s2)))"

text \<open>
  An invariant of the handler's database holds after any run of the loop.
\<close>

lemma extern_ret_db: "extern (ret a) s = (r, s') \<Longrightarrow> db s' = db s"
  by (auto simp: extern_def ret_def Let_def split: option.splits fault.splits)

lemma consume_loop_keeps:
  assumes "\<And>body. keeps_db J (handler body)" and "J (db s)"
    and "consume_loop handler obs s = (r, ds, s')"
  shows "J (db s')"
  using assms(2,3)
proof (induction obs arbitrary: s r ds s')
  case Nil
  then show ?case by simp
next
  case (Cons ob obs)
  show ?case
  proof (cases ob)
    case (Delivery body)
    obtain x s1 where h: "handler body s = (x, s1)" by (cases "handler body s")
    obtain y s2 where e: "extern (ret ()) s1 = (y, s2)" by (cases "extern (ret ()) s1 :: (goerr + unit) \<times> _")
    from keepsD [OF assms(1) Cons.prems(1) h] extern_ret_db [OF e] have J2: "J (db s2)" by simp
    from Cons.prems(2) Delivery h e J2 show ?thesis
      by (auto split: sum.splits prod.splits intro: Cons.IH)
  qed (use Cons.prems in auto)
qed

text \<open>Each message is acknowledged exactly when its handler answered no error.\<close>

lemma consume_loop_decides:
  assumes "consume_loop handler (Delivery body # obs) s = (r, d # ds, s')"
  shows "(d = Acked body) = (\<exists>s1. handler body s = (Inr (), s1)) \<and> d \<in> {Acked body, Requeued body}"
  using assms by (auto split: sum.splits prod.splits)

section \<open>The queues of the deployed services\<close>

text \<open>
  Every service publishes through the publisher of \<open>NewPublisherProvider\<close>; the constructor of the
  order service for another exchange is not given to the container. \<open>matches\<close> is the broker's
  comparison of a binding key with a routing key, which is equality on keys without wildcards.
\<close>

definition NewPublisherProvider ::
  "(string \<Rightarrow> goerr option) \<Rightarrow> goerr option \<Rightarrow> (Connection \<Rightarrow> goerr + unit) \<Rightarrow> Connection option \<Rightarrow>
    goerr + Publisher" where
  "NewPublisherProvider ExchangeDeclare ConfirmMode openCh c =
     (case Connection_Channel openCh c of
        Inl err \<Rightarrow> Inl err
      | Inr _ \<Rightarrow> NewPublisher ExchangeDeclare ConfirmMode True ''payment_events'')"

type_synonym binding = "string \<times> string \<times> string"   \<comment> \<open>queue, exchange, key\<close>

definition order_bindings :: "binding list" where
  "order_bindings =
     [(''order.payment_completed.queue'', ''payment_events'', RoutingKeyPaymentCompleted),
      (''order.payment_failed.queue'', ''payment_events'', RoutingKeyPaymentFailed)]"

definition product_bindings :: "binding list" where
  "product_bindings =
     [(''product_service_stock_release_queue'', ''order_events'', ''stock.release.requested''),
      (''product_service_stock_confirm_queue'', ''order_events'', ''stock.confirm.requested'')]"

text \<open>The payment service consumes from a queue with the routing key's name, and binds none.\<close>

definition payment_consumes :: string where
  "payment_consumes = RoutingKeyOrderCreated"

definition queues_for ::
  "(string \<Rightarrow> string \<Rightarrow> bool) \<Rightarrow> binding list \<Rightarrow> string \<Rightarrow> string \<Rightarrow> string list" where
  "queues_for matches bs ex rk = [q. (q, e, k) \<leftarrow> bs, e = ex \<and> matches k rk]"

definition matches_ok :: "(string \<Rightarrow> string \<Rightarrow> bool) \<Rightarrow> bool" where
  "matches_ok matches \<longleftrightarrow>
     (\<forall>k rk. CHR ''*'' \<notin> set k \<and> CHR ''#'' \<notin> set k \<longrightarrow> matches k rk = (k = rk))"

text \<open>
  C38: of all the messages the services publish, the payment results reach the order service's
  queues, and nothing else reaches a queue: the stock events, \<open>order.created\<close> and the users' one-time
  passwords are dropped by the broker, as is a message under any other key, and the queue the
  payment service reads from is not among the bound ones.
\<close>

theorem topology_delivers_only_payment_events:
  assumes "matches_ok matches"
    and "NewPublisherProvider ExchangeDeclare ConfirmMode openCh c = Inr p"
  shows "queues_for matches (order_bindings @ product_bindings) (exchange p) RoutingKeyPaymentCompleted
           = [''order.payment_completed.queue'']
       \<and> queues_for matches (order_bindings @ product_bindings) (exchange p) RoutingKeyPaymentFailed
           = [''order.payment_failed.queue'']
       \<and> queues_for matches (order_bindings @ product_bindings) (exchange p) RoutingKeyOrderCreated = []
       \<and> queues_for matches (order_bindings @ product_bindings) (exchange p)
           RoutingKeyStockReleaseRequested = []
       \<and> queues_for matches (order_bindings @ product_bindings) (exchange p)
           RoutingKeyStockConfirmRequested = []
       \<and> queues_for matches (order_bindings @ product_bindings) (exchange p)
           RoutingKeyUserOTPRequested = []
       \<and> (\<forall>rk. rk \<noteq> RoutingKeyPaymentCompleted \<and> rk \<noteq> RoutingKeyPaymentFailed \<longrightarrow>
           queues_for matches (order_bindings @ product_bindings) (exchange p) rk = [])
       \<and> payment_consumes \<notin> fst ` set (order_bindings @ product_bindings)"
proof -
  have ex: "exchange p = ''payment_events''"
    using assms(2)
    by (auto simp: NewPublisherProvider_def NewPublisher_def split: sum.splits option.splits)
  have "matches ''payment.completed'' = (=) ''payment.completed''"
    "matches ''payment.failed'' = (=) ''payment.failed''"
    using assms(1) by (auto simp: matches_ok_def fun_eq_iff)
  with ex show ?thesis
    by (simp add: queues_for_def order_bindings_def product_bindings_def payment_consumes_def
        routing_keys)
qed

theorem topology_delivers_only_payment_events_witness:
  "queues_for (=) (order_bindings @ product_bindings) ''payment_events'' RoutingKeyOrderCreated = []"
  using topology_delivers_only_payment_events
    [of "(=)" "\<lambda>_. None" None "\<lambda>_. Inr ()" "Some \<lparr>conn = Some False, closeDone = False\<rparr>"
      "\<lparr>channel_ok = True, exchange = ''payment_events''\<rparr>"]
  by (simp add: matches_ok_def NewPublisherProvider_def NewPublisher_def Connection_Channel_def)

end
