(* ===== verification/ProductProps.thy ===== *)
theory ProductProps
  imports ProductService
begin

text \<open>
  What the product service guarantees. Its requests and messages are the constructors of
  \<open>product_op\<close>; \<open>product_reach\<close> are the states it can get into, with any failures of its database
  and its cache, and any changes of the cache's contents, in between.
\<close>

section \<open>Every operation keeps the table invariant\<close>

lemma keeps_store [keeps_rules]:
  "keeps_db J (store_GetProduct u st i)"
  "keeps_db J (store_SetProduct u st p ttl)"
  "keeps_db J (store_InvalidateProduct u st i)"
  "keeps_db J (store_GetSearch st q cat l off)"
  "keeps_db J (store_SetSearch st q cat l off ps ttl)"
  unfolding store_GetProduct_def store_SetProduct_def store_InvalidateProduct_def
    store_GetSearch_def store_SetSearch_def
  by (intro keeps_rules)+

lemma keeps_then_invalidate [keeps_rules]: "keeps_db J m \<Longrightarrow> keeps_db J (then_invalidate c i m)"
  unfolding then_invalidate_def by (intro keeps_rules)

lemma keeps_cached_GetByID [keeps_rules]: "keeps_db J (cached_GetByID c i)"
  unfolding cached_GetByID_def by (intro keeps_rules)

lemma keeps_cached_lookups [keeps_rules]: "keeps_db J (cached_lookups c ids res miss)"
proof (induction ids arbitrary: res miss)
  case Nil
  then show ?case by (simp add: keeps_rules)
next
  case (Cons i ids)
  then show ?case unfolding cached_lookups.simps by (intro keeps_rules)
qed

lemma keeps_cache_each [keeps_rules]: "keeps_db J (cache_each c ps res)"
proof (induction ps arbitrary: res)
  case Nil
  then show ?case by (simp add: keeps_rules)
next
  case (Cons p ps)
  then show ?case unfolding cache_each.simps by (intro keeps_rules)
qed

lemma keeps_cached_reads [keeps_rules]:
  "keeps_db J (cached_GetByIDs c ids)" "keeps_db J (cached_Search c q cat l off)"
  unfolding cached_GetByIDs_def cached_Search_def by (intro keeps_rules)+

lemma keeps_requireAdmin [keeps_rules]: "keeps I (requireAdmin ctx)"
  unfolding requireAdmin_def by (intro keeps_rules)

lemma keeps_parseProductID [keeps_rules]: "keeps I (parseProductID u i)"
  unfolding parseProductID_def by (intro keeps_rules)

lemma keeps_parse_ids [keeps_rules]: "keeps I (parse_ids u ids us)"
proof (induction ids arbitrary: us)
  case Nil
  then show ?case by (simp add: keeps_rules)
next
  case (Cons i ids)
  then show ?case unfolding parse_ids.simps by (intro keeps_rules)
qed

lemmas cached_defs =
  cached_Create_def cached_Update_def cached_Delete_def cached_ReserveStock_def
  cached_ReleaseStock_def cached_ConfirmStock_def

lemmas product_svc_defs =
  svc_CreateProduct_def svc_UpdateProduct_def svc_DeleteProduct_def svc_GetProduct_def
  svc_GetProductsByIDs_def svc_SearchProducts_def svc_ReserveStock_def svc_ReleaseStock_def
  svc_ConfirmStock_def

lemmas product_grpc_defs =
  grpc_CreateProduct_def grpc_UpdateProduct_def grpc_DeleteProduct_def grpc_GetProduct_def
  grpc_GetProductsByIDs_def grpc_SearchProducts_def grpc_ReserveStock_def grpc_ReleaseStock_def
  grpc_ConfirmStock_def

lemma keeps_product_writes:
  "keeps_db product_db_ok (svc_CreateProduct c ctx cr)"
  "keeps_db product_db_ok (svc_UpdateProduct c ctx ur)"
  "keeps_db product_db_ok (svc_DeleteProduct c ctx dr)"
  "keeps_db product_db_ok (svc_ReserveStock c sr)"
  "keeps_db product_db_ok (svc_ReleaseStock c sr)"
  "keeps_db product_db_ok (svc_ConfirmStock c sr)"
  unfolding product_svc_defs cached_defs by (intro keeps_rules)+

lemma keeps_product_reads:
  "keeps_db J (svc_GetProduct c gr)"
  "keeps_db J (svc_GetProductsByIDs c ir)"
  "keeps_db J (svc_SearchProducts c se)"
  unfolding product_svc_defs by (intro keeps_rules)+

lemma keeps_product_consumers:
  "keeps_db product_db_ok (StockRelease_Handle c body)"
  "keeps_db product_db_ok (StockConfirm_Handle c body)"
  unfolding StockRelease_Handle_def StockConfirm_Handle_def release_event_def confirm_event_def
  by (intro keeps_rules)+

section \<open>The service as a state machine\<close>

datatype product_op =
    CreateProduct reqctx "CreateProductRequest option"
  | UpdateProduct reqctx "UpdateProductRequest option"
  | DeleteProduct reqctx "string option"
  | GetProduct "string option"
  | GetProductsByIDs "string list option"
  | SearchProducts "SearchProductsRequest option"
  | ReserveStock "StockRequest option"
  | ReleaseStock "StockRequest option"
  | ConfirmStock "StockRequest option"
  | StockReleaseMessage string
  | StockConfirmMessage string

fun product_step ::
  "product_svc \<Rightarrow> product_op \<Rightarrow> (product_db, message, 'z) cenv_scheme \<Rightarrow>
    (product_db, message, 'z) cenv_scheme" where
  "product_step c (CreateProduct ctx r) s = snd (grpc_CreateProduct c ctx r s)"
| "product_step c (UpdateProduct ctx r) s = snd (grpc_UpdateProduct c ctx r s)"
| "product_step c (DeleteProduct ctx r) s = snd (grpc_DeleteProduct c ctx r s)"
| "product_step c (GetProduct r) s = snd (grpc_GetProduct c r s)"
| "product_step c (GetProductsByIDs r) s = snd (grpc_GetProductsByIDs c r s)"
| "product_step c (SearchProducts r) s = snd (grpc_SearchProducts c r s)"
| "product_step c (ReserveStock r) s = snd (grpc_ReserveStock c r s)"
| "product_step c (ReleaseStock r) s = snd (grpc_ReleaseStock c r s)"
| "product_step c (ConfirmStock r) s = snd (grpc_ConfirmStock c r s)"
| "product_step c (StockReleaseMessage b) s = snd (StockRelease_Handle c b s)"
| "product_step c (StockConfirmMessage b) s = snd (StockConfirm_Handle c b s)"

inductive product_reach :: "product_svc \<Rightarrow> (product_db, message, 'z) cenv_scheme \<Rightarrow> bool"
  for c where
  start: "db s = \<lparr>products = [], processed_events = []\<rparr> \<Longrightarrow> product_reach c s"
| step: "product_reach c s \<Longrightarrow> product_reach c (product_step c op s)"
| outside: "product_reach c s \<Longrightarrow> db s' = db s \<Longrightarrow> product_reach c s'"

lemma keeps_product_grpc:
  "keeps_db product_db_ok (grpc_CreateProduct c ctx cr)"
  "keeps_db product_db_ok (grpc_UpdateProduct c ctx ur)"
  "keeps_db product_db_ok (grpc_DeleteProduct c ctx dr)"
  "keeps_db product_db_ok (grpc_GetProduct c gr)"
  "keeps_db product_db_ok (grpc_GetProductsByIDs c ir)"
  "keeps_db product_db_ok (grpc_SearchProducts c se)"
  "keeps_db product_db_ok (grpc_ReserveStock c sr)"
  "keeps_db product_db_ok (grpc_ReleaseStock c sr)"
  "keeps_db product_db_ok (grpc_ConfirmStock c sr)"
  unfolding product_grpc_defs
  by (rule keeps_grpc_answer, rule keeps_product_writes keeps_product_reads)+

lemma product_step_ok: "product_db_ok (db s) \<Longrightarrow> product_db_ok (db (product_step c op s))"
  by (cases op)
    (auto intro: keeps_product_grpc [unfolded keeps_def, rule_format]
      keeps_product_consumers [unfolded keeps_def, rule_format])

lemma product_reach_ok: "product_reach c s \<Longrightarrow> product_db_ok (db s)"
proof (induction rule: product_reach.induct)
  case (start s)
  then show ?case by (simp add: product_db_ok_def tbl_wf_def)
next
  case (step s op)
  then show ?case by (simp add: product_step_ok)
next
  case (outside s s')
  then show ?case by simp
qed

section \<open>Stock operations\<close>

lemma store_InvalidateProduct_db: "db (snd (store_InvalidateProduct u st i s)) = db s"
proof -
  have "keeps_db (\<lambda>d. d = db s) (store_InvalidateProduct u st i)" by (rule keeps_store)
  then show ?thesis unfolding keeps_def by blast
qed

lemma then_invalidate_cases:
  assumes "then_invalidate c i m s = (r, s')"
  shows "\<exists>s1. m s = (r, s1) \<and> db s' = db s1"
proof (cases "m s")
  case (Pair x s1)
  show ?thesis
  proof (cases x)
    case (Inl e)
    with assms Pair show ?thesis by (simp add: then_invalidate_def bindE_def bindS_def fail_def)
  next
    case (Inr a)
    with assms Pair have "bindS (store_InvalidateProduct (ul c) (store c) i) (\<lambda>_. ret a) s1 = (r, s')"
      by (simp add: then_invalidate_def bindE_def bindS_def)
    from bindS_ignore [OF this] have "r = Inr a" "s' = snd (store_InvalidateProduct (ul c) (store c) i s1)"
      by simp_all
    with Pair Inr show ?thesis by (simp add: store_InvalidateProduct_db)
  qed
qed

lemma reserve_cases:
  assumes "product_db_ok (db s)" and "repo_ReserveStock pid q s = (r, s')"
  shows "((\<exists>e. r = Inl e) \<and> db s' = db s \<and> (faults s (calls s) = None \<longrightarrow>
      \<not> (0 < sint q \<and> (\<exists>p. tbl_get p_ID (products (db s)) pid = Some p \<and> reserve_where pid q p)))) \<or>
    (0 < sint q \<and> (\<exists>p. tbl_get p_ID (products (db s)) pid = Some p \<and> reserve_where pid q p \<and>
      db s' = (db s)\<lparr>products := tbl_set p_ID (products (db s)) pid
        (p\<lparr>p_ReservedStock := p_ReservedStock p + q, p_UpdatedAt := clock s (ticks s)\<rparr>)\<rparr> \<and>
      (r = Inr () \<or> (\<exists>e. r = Inl e) \<and> faults s (calls s) \<noteq> None)))"
proof (cases "0 < sint q")
  case False
  with assms(2) show ?thesis by (auto simp: repo_ReserveStock_def fail_def)
next
  case True
  let ?g = "\<lambda>now p. p\<lparr>p_ReservedStock := p_ReservedStock p + q, p_UpdatedAt := now\<rparr>"
  have key: "keyed_update p_ID product_schema pid (reserve_where pid q) (reserve_set q now)" for now
    by unfold_locales
  have row: "reserve_set q now p = Inr (?g now p) \<and> product_row_err (?g now p) = None"
    if "product_row_err p = None" "reserve_where pid q p" for p now
    using reserve_set_ok [OF that True] by simp
  from True have "\<not> sint q \<le> 0" by simp
  note run = assms(2) [unfolded repo_ReserveStock_def if_not_P [OF this]]
  from exec_update_cases [OF key assms(1) row run] True show ?thesis by blast
qed

lemma release_cases:
  assumes "product_db_ok (db s)" and "repo_ReleaseStock pid q s = (r, s')"
  shows "((\<exists>e. r = Inl e) \<and> db s' = db s \<and> (faults s (calls s) = None \<longrightarrow>
      \<not> (0 < sint q \<and> (\<exists>p. tbl_get p_ID (products (db s)) pid = Some p \<and> release_where pid q p)))) \<or>
    (0 < sint q \<and> (\<exists>p. tbl_get p_ID (products (db s)) pid = Some p \<and> release_where pid q p \<and>
      db s' = (db s)\<lparr>products := tbl_set p_ID (products (db s)) pid
        (p\<lparr>p_ReservedStock := p_ReservedStock p - q, p_UpdatedAt := clock s (ticks s)\<rparr>)\<rparr> \<and>
      (r = Inr () \<or> (\<exists>e. r = Inl e) \<and> faults s (calls s) \<noteq> None)))"
proof (cases "0 < sint q")
  case False
  with assms(2) show ?thesis by (auto simp: repo_ReleaseStock_def fail_def)
next
  case True
  let ?g = "\<lambda>now p. p\<lparr>p_ReservedStock := p_ReservedStock p - q, p_UpdatedAt := now\<rparr>"
  have key: "keyed_update p_ID product_schema pid (release_where pid q) (release_set q now)" for now
    by unfold_locales
  have row: "release_set q now p = Inr (?g now p) \<and> product_row_err (?g now p) = None"
    if "product_row_err p = None" "release_where pid q p" for p now
    using release_set_ok [OF that True] by simp
  from True have "\<not> sint q \<le> 0" by simp
  note run = assms(2) [unfolded repo_ReleaseStock_def if_not_P [OF this]]
  from exec_update_cases [OF key assms(1) row run] True show ?thesis by blast
qed

lemma confirm_cases:
  assumes "product_db_ok (db s)" and "repo_ConfirmStock pid q s = (r, s')"
  shows "((\<exists>e. r = Inl e) \<and> db s' = db s \<and> (faults s (calls s) = None \<longrightarrow>
      \<not> (0 < sint q \<and> (\<exists>p. tbl_get p_ID (products (db s)) pid = Some p \<and> release_where pid q p)))) \<or>
    (0 < sint q \<and> (\<exists>p. tbl_get p_ID (products (db s)) pid = Some p \<and> release_where pid q p \<and>
      db s' = (db s)\<lparr>products := tbl_set p_ID (products (db s)) pid
        (p\<lparr>p_TotalStock := p_TotalStock p - q, p_ReservedStock := p_ReservedStock p - q, p_UpdatedAt := clock s (ticks s)\<rparr>)\<rparr> \<and>
      (r = Inr () \<or> (\<exists>e. r = Inl e) \<and> faults s (calls s) \<noteq> None)))"
proof (cases "0 < sint q")
  case False
  with assms(2) show ?thesis by (auto simp: repo_ConfirmStock_def fail_def)
next
  case True
  let ?g = "\<lambda>now p. p\<lparr>p_TotalStock := p_TotalStock p - q, p_ReservedStock := p_ReservedStock p - q, p_UpdatedAt := now\<rparr>"
  have key: "keyed_update p_ID product_schema pid (release_where pid q) (confirm_set q now)" for now
    by unfold_locales
  have row: "confirm_set q now p = Inr (?g now p) \<and> product_row_err (?g now p) = None"
    if "product_row_err p = None" "release_where pid q p" for p now
    using confirm_set_ok [OF that True] by simp
  from True have "\<not> sint q \<le> 0" by simp
  note run = assms(2) [unfolded repo_ConfirmStock_def if_not_P [OF this]]
  from exec_update_cases [OF key assms(1) row run] True show ?thesis by blast
qed

text \<open>
  The guards of the stock statements do the work of the constraints: a stock request that is
  answered with an error while nothing fails was refused by its guard, as invalid input.
\<close>

lemma guard_refuses:
  assumes key: "\<And>now. keyed_update p_ID product_schema pid P (f now)"
    and ok: "product_db_ok (db s)"
    and row: "\<And>p now. product_row_err p = None \<Longrightarrow> P p \<Longrightarrow> f now p = Inr (g now p) \<and> product_row_err (g now p) = None"
    and run: "(if sint (q :: i32) \<le> 0 then fail (New KindInvalidInput m0) else bindE time_Now (\<lambda>now. bindE (wrapE k m
        (query (on_products (sql_update product_schema P (f now)))))
        (\<lambda>n. if n = 0 then fail (New KindInvalidInput m1) else ret ()))) s = (Inl e, s')"
    and quiet: "faults s (calls s) = None"
  shows "GetKind (Some e) = KindInvalidInput \<and> db s' = db s"
proof (cases "sint q \<le> 0")
  case True
  with run show ?thesis by (auto simp: fail_def)
next
  case False
  from exec_update_cases [OF key ok row run [unfolded if_not_P [OF False]]] quiet show ?thesis by auto
qed

lemma stock_refusals:
  assumes "product_db_ok (db s)" and "faults s (calls s) = None"
  shows "repo_ReserveStock pid q s = (Inl e, s') \<Longrightarrow> GetKind (Some e) = KindInvalidInput \<and> db s' = db s"
    and "repo_ReleaseStock pid q s = (Inl e, s') \<Longrightarrow> GetKind (Some e) = KindInvalidInput \<and> db s' = db s"
    and "repo_ConfirmStock pid q s = (Inl e, s') \<Longrightarrow> GetKind (Some e) = KindInvalidInput \<and> db s' = db s"
proof -
  have bad: "\<not> 0 < sint q \<Longrightarrow> sint q \<le> 0" by simp
  note refuses = guard_refuses [where q = q, OF _ assms(1) _ _ assms(2)]
  show "GetKind (Some e) = KindInvalidInput \<and> db s' = db s" if run: "repo_ReserveStock pid q s = (Inl e, s')"
  proof (cases "0 < sint q")
    case True
    show ?thesis
      by (rule refuses [OF rsv.keyed_update_axioms _ run [unfolded repo_ReserveStock_def]])
        (use reserve_set_ok [OF _ _ True] in blast)
  qed (use run in \<open>auto simp: repo_ReserveStock_def fail_def dest!: bad\<close>)
  show "GetKind (Some e) = KindInvalidInput \<and> db s' = db s" if run: "repo_ReleaseStock pid q s = (Inl e, s')"
  proof (cases "0 < sint q")
    case True
    show ?thesis
      by (rule refuses [OF rel.keyed_update_axioms _ run [unfolded repo_ReleaseStock_def]])
        (use release_set_ok [OF _ _ True] in blast)
  qed (use run in \<open>auto simp: repo_ReleaseStock_def fail_def dest!: bad\<close>)
  show "GetKind (Some e) = KindInvalidInput \<and> db s' = db s" if run: "repo_ConfirmStock pid q s = (Inl e, s')"
  proof (cases "0 < sint q")
    case True
    show ?thesis
      by (rule refuses [OF cnf.keyed_update_axioms _ run [unfolded repo_ConfirmStock_def]])
        (use confirm_set_ok [OF _ _ True] in blast)
  qed (use run in \<open>auto simp: repo_ConfirmStock_def fail_def dest!: bad\<close>)
qed

lemma then_invalidate_error:
  assumes "then_invalidate c i m s = (Inl e, s')"
  shows "m s = (Inl e, s')"
  using assms by (auto simp: then_invalidate_def bindE_def bindS_def fail_def ret_def split: sum.splits prod.splits)

text \<open>
  C1: whatever requests and messages the product service handles, in whatever order and whatever
  part of it fails, in every product on file the price and the reserved stock are not negative, no more is reserved than there is in stock, the sellable stock that the model computes is the
  difference (it does not wrap), and no two products share an id. The statements keep to this by
  themselves: a request to reserve, release or confirm stock that is answered with an error while
  nothing fails is invalid input and changes nothing; none ever runs into a constraint of the table.
\<close>

theorem product_stock_invariant:
  assumes "product_reach c s"
  shows "(\<forall>p \<in> set (products (db s)). 0 \<le> sint (p_Price p) \<and> 0 \<le> sint (p_ReservedStock p) \<and>
      sint (p_ReservedStock p) \<le> sint (p_TotalStock p) \<and>
      sint (AvailableStock p) = sint (p_TotalStock p) - sint (p_ReservedStock p) \<and>
      (\<forall>p' \<in> set (products (db s)). p_ID p' = p_ID p \<longrightarrow> p' = p)) \<and>
    (faults s (calls s) = None \<longrightarrow>
      (\<forall>e s'. svc_ReserveStock c req s = (Inl e, s') \<or> svc_ReleaseStock c req s = (Inl e, s') \<or>
          svc_ConfirmStock c req s = (Inl e, s') \<longrightarrow>
        GetKind (Some e) = KindInvalidInput \<and> db s' = db s))"
proof -
  have ok: "product_db_ok (db s)" using product_reach_ok [OF assms] .
  have available: "sint (AvailableStock p) = sint (p_TotalStock p) - sint (p_ReservedStock p)"
    if "p \<in> set (products (db s))" for p
    unfolding AvailableStock_def using product_db_ok_row [OF ok that]
    by (intro fits32_diff fits32_diff_nonneg) auto
  have key: "\<forall>p' \<in> set (products (db s)). p_ID p' = p_ID p \<longrightarrow> p' = p" if "p \<in> set (products (db s))" for p
    using ok that by (auto simp: product_db_ok_def tbl_wf_def distinct_map inj_on_def)
  have refused: "GetKind (Some e) = KindInvalidInput \<and> db s' = db s"
    if quiet: "faults s (calls s) = None" and run: "svc_ReserveStock c req s = (Inl e, s') \<or>
      svc_ReleaseStock c req s = (Inl e, s') \<or> svc_ConfirmStock c req s = (Inl e, s')" for e s'
    using run
    by (auto simp: svc_ReserveStock_def svc_ReleaseStock_def svc_ConfirmStock_def cached_ReserveStock_def
        cached_ReleaseStock_def cached_ConfirmStock_def parseProductID_def bindE_def bindS_def fail_def ret_def
        split: option.splits dest!: then_invalidate_error dest: stock_refusals [OF ok quiet])
  show ?thesis using product_db_ok_row [OF ok] available key refused by blast
qed

text \<open>
  C24: a reservation that is granted found the product active with enough sellable stock, and adds
  exactly the quantity to the reserved stock of that product and of no other; one that is refused
  while nothing fails leaves the database alone, and is refused for want of such a product only.
\<close>

theorem reserve_stock_correct:
  assumes "product_reach c s" and "uuid_Parse (ul c) (rq_ProductId req) = Some pid"
    and "svc_ReserveStock c (Some req) s = (r, s')"
  defines "q \<equiv> rq_Quantity req"
  defines "reservable \<equiv> (\<lambda>p. tbl_get p_ID (products (db s)) pid = Some p \<and> p_IsActive p \<and>
    0 < sint q \<and> sint q \<le> sint (p_TotalStock p) - sint (p_ReservedStock p))"
  shows "(r = Inr () \<longrightarrow> (\<exists>p p'. reservable p \<and>
      tbl_get p_ID (products (db s')) pid = Some p' \<and>
      sint (p_ReservedStock p') = sint (p_ReservedStock p) + sint q \<and>
      p_TotalStock p' = p_TotalStock p \<and>
      (\<forall>i. i \<noteq> pid \<longrightarrow> tbl_get p_ID (products (db s')) i = tbl_get p_ID (products (db s)) i)))
    \<and> (faults s (calls s) = None \<longrightarrow> (r = Inr ()) = (\<exists>p. reservable p) \<and>
      (r \<noteq> Inr () \<longrightarrow> db s' = db s))"
proof -
  have ok: "product_db_ok (db s)" using product_reach_ok [OF assms(1)] .
  from assms(2,3) have "then_invalidate c pid (repo_ReserveStock pid q) s = (r, s')"
    by (simp add: svc_ReserveStock_def cached_ReserveStock_def parseProductID_def bindE_def bindS_def
        ret_def q_def)
  from then_invalidate_cases [OF this] obtain s1 where
    run: "repo_ReserveStock pid q s = (r, s1)" and s1: "db s' = db s1" by blast
  have reservable: "reservable p \<longleftrightarrow> tbl_get p_ID (products (db s)) pid = Some p \<and>
      reserve_where pid q p \<and> 0 < sint q" for p
    by (auto simp: reservable_def reserve_where_def dest: tbl_get_SomeD)
  from reserve_cases [OF ok run] consider
      (refused) e where "r = Inl e" "db s1 = db s"
        "faults s (calls s) = None \<longrightarrow> \<not> (\<exists>p. reservable p)"
    | (granted) p where "reservable p"
        "products (db s1) = tbl_set p_ID (products (db s)) pid
          (p\<lparr>p_ReservedStock := p_ReservedStock p + q, p_UpdatedAt := clock s (ticks s)\<rparr>)"
        "r = Inr () \<or> (\<exists>e. r = Inl e) \<and> faults s (calls s) \<noteq> None"
    unfolding reservable by force
  then show ?thesis
  proof cases
    case refused
    with s1 show ?thesis by auto
  next
    case granted
    have "p_ID p = pid" and "product_row_err p = None"
      using granted(1) ok tbl_wf_row [of product_schema "products (db s)" p_ID pid p]
      by (auto simp: reservable product_db_ok_def dest: tbl_get_SomeD)
    moreover have "sint (p_ReservedStock p + q) = sint (p_ReservedStock p) + sint q"
      using granted(1) reserve_set_ok(3) [OF \<open>product_row_err p = None\<close>] reservable by blast
    ultimately show ?thesis
      using granted s1 by (auto simp: tbl_get_set reservable_def)
  qed
qed

section \<open>A concrete run\<close>

text \<open>
  A service over a cache that stores nothing readable, and the state after an administrator has
  created a product with ten pieces in stock.
\<close>

definition no_cache :: "'a cache" where
  "no_cache = \<lparr>client = True, Enc = (\<lambda>_. Inr ''x''), Dec = (\<lambda>_. Inl (StdError ''bad'' None))\<rparr>"

definition demo_release :: StockReleaseRequested where
  "demo_release = \<lparr>sr_EventID = 77, sr_OrderID = 0, sr_ProductID = 1, sr_Quantity = 4,
     sr_Reason = '''', sr_RequestedAt = 0\<rparr>"

definition demo_confirm :: StockConfirmRequested where
  "demo_confirm = \<lparr>sc_EventID = 78, sc_OrderID = 5, sc_ProductID = 1, sc_Quantity = 4,
     sc_RequestedAt = 0\<rparr>"

definition demo_json :: event_json where
  "demo_json = \<lparr>Marshal = (\<lambda>_. Inr ''b''),
     UnmarshalStockRelease = (\<lambda>b. if b = ''r'' then Inr demo_release else Inl (StdError ''bad'' None)),
     UnmarshalStockConfirm = (\<lambda>b. if b = ''c'' then Inr demo_confirm else Inl (StdError ''bad'' None)),
     UnmarshalOrderCreated = (\<lambda>_. Inl (StdError ''bad'' None)),
     UnmarshalPaymentCompleted = (\<lambda>_. Inl (StdError ''bad'' None)),
     UnmarshalPaymentFailed = (\<lambda>_. Inl (StdError ''bad'' None))\<rparr>"

definition demo_svc :: product_svc where
  "demo_svc = \<lparr>ul = plain_uuid, trgm = \<lparr>Ilike = (\<lambda>_ _. True), Similarity = (\<lambda>_ _. 0)\<rparr>,
     store = NewProductCacheStore no_cache no_cache, productTTL = minute, searchTTL = minute,
     status = plain_status_lib, json = demo_json\<rparr>"

definition admin_ctx :: reqctx where
  "admin_ctx = \<lparr>ctx_claims = Some \<lparr>UserID = ''1'', Role = ''admin'', IssuedAt = 0, ExpiresAt = 60\<rparr>,
     ctx_metadata = None, ctx_peer = None\<rparr>"

definition demo_create :: CreateProductRequest where
  "demo_create = \<lparr>cp_Name = ''pen'', cp_Description = '''', cp_Category = ''a'', cp_Price = 3,
     cp_TotalStock = 10\<rparr>"

definition demo_start :: "(product_db, message) cenv" where
  "demo_start = idle_cenv \<lparr>products = [], processed_events = []\<rparr>"

definition demo_state :: "(product_db, message) cenv" where
  "demo_state = product_step demo_svc (CreateProduct admin_ctx (Some demo_create)) demo_start"

definition demo_product :: Product where
  "demo_product = \<lparr>p_ID = 1, p_Name = ''pen'', p_Description = '''', p_Category = ''a'', p_Price = 3,
     p_TotalStock = 10, p_ReservedStock = 0, p_IsActive = True, p_CreatedAt = 0, p_UpdatedAt = 0\<rparr>"

lemma demo_reach: "product_reach demo_svc demo_state"
  unfolding demo_state_def
  by (rule product_reach.step, rule product_reach.start) (simp add: demo_start_def idle_cenv_def)

lemma demo_healthy: "healthy demo_state"
proof -
  have "keeps healthy
      (grpc_CreateProduct demo_svc admin_ctx (Some demo_create) :: (unit, pb_Product) cached_comp)"
    unfolding product_grpc_defs product_svc_defs cached_defs repo_Create_def by (intro keeps_rules)
  moreover have "healthy demo_start" by (simp add: demo_start_def idle_cenv_def healthy_def)
  ultimately show ?thesis by (simp add: demo_state_def keeps_def)
qed

lemma demo_products: "products (db demo_state) = [demo_product]"
  by code_simp

theorem product_stock_invariant_witness:
  "sint (p_ReservedStock demo_product) \<le> sint (p_TotalStock demo_product) \<and>
    (\<exists>e. fst (svc_ReleaseStock demo_svc (Some \<lparr>rq_ProductId = ''1'', rq_Quantity = 1\<rparr>) demo_state) = Inl e \<and>
      GetKind (Some e) = KindInvalidInput)"
proof -
  let ?req = "Some \<lparr>rq_ProductId = ''1'', rq_Quantity = 1\<rparr>"
  let ?run = "svc_ReleaseStock demo_svc ?req demo_state"
  have "(case fst ?run of Inl e \<Rightarrow> True | Inr u \<Rightarrow> False)" by code_simp
  then obtain e where e: "fst ?run = Inl e" by (cases "fst ?run") simp_all
  then have run: "?run = (Inl e, snd ?run)" by (metis prod.collapse)
  from product_stock_invariant [OF demo_reach, of ?req] demo_healthy run e show ?thesis
    by (auto simp: demo_products healthyD)
qed

theorem reserve_stock_correct_witness:
  "fst (svc_ReserveStock demo_svc (Some \<lparr>rq_ProductId = ''1'', rq_Quantity = 11\<rparr>) demo_state) \<noteq> Inr ()"
proof -
  let ?run = "svc_ReserveStock demo_svc (Some \<lparr>rq_ProductId = ''1'', rq_Quantity = 11\<rparr>) demo_state"
  have "uuid_Parse (ul demo_svc) (rq_ProductId \<lparr>rq_ProductId = ''1'', rq_Quantity = 11\<rparr>) = Some 1"
    by code_simp
  from reserve_stock_correct [OF demo_reach this, of "fst ?run" "snd ?run"]
  have "fst ?run = Inr () \<longrightarrow> (\<exists>p. tbl_get p_ID (products (db demo_state)) 1 = Some p \<and>
      sint (11 :: i32) \<le> sint (p_TotalStock p) - sint (p_ReservedStock p))"
    by auto
  moreover have "sint (11 :: i32) = 11" "sint (10 :: i32) = 10" by code_simp+
  ultimately show ?thesis by (auto simp: demo_products demo_product_def)
qed

section \<open>The stock messages\<close>

lemma MarkProcessed_cases:
  assumes "MarkProcessed e ty i ord s = (r, s')"
  shows "products (db s') = products (db s) \<and>
    ((\<exists>x. r = Inl x) \<or>
     (r = Inr True \<and> db s' = db s \<and> e \<in> pe_event_id ` set (processed_events (db s))) \<or>
     (r = Inr False \<and> e \<notin> pe_event_id ` set (processed_events (db s)) \<and>
      e \<in> pe_event_id ` set (processed_events (db s'))))"
proof -
  let ?row = "\<lparr>pe_event_id = e, pe_event_type = ty, pe_product_id = i, pe_order_id = ord\<rparr>"
  let ?f = "on_processed (sql_inbox pe_event_id processed_row_err ?row)"
  obtain x s2 where q: "query ?f s = (x, s2)" by (cases "query ?f s")
  with assms have r: "r = (case x of Inl y \<Rightarrow> Inl (Wrap KindInternal (Some y) ''failed to record processed event'')
      | Inr n \<Rightarrow> Inr (n = 0))" and s': "s' = s2"
    by (auto simp: MarkProcessed_def bindE_def bindS_def wrapE_def fail_def ret_def split: sum.splits)
  obtain y t where f: "sql_inbox pe_event_id processed_row_err ?row (processed_events (db s)) = (y, t)"
    by (cases "sql_inbox pe_event_id processed_row_err ?row (processed_events (db s))")
  then have "?f (db s) = (y, (db s)\<lparr>processed_events := t\<rparr>)" by (simp add: on_processed_def)
  with query_cases [OF q] consider (none) z where "x = Inl z" "db s2 = db s"
    | (some) "db s2 = (db s)\<lparr>processed_events := t\<rparr>" "x = y \<or> (\<exists>z. x = Inl z)"
    by auto
  then show ?thesis
  proof cases
    case none
    with r s' show ?thesis by simp
  next
    case some
    show ?thesis
    proof (cases y)
      case (Inl z)
      with some r s' show ?thesis by auto
    next
      case (Inr n)
      from sql_inbox_keys [OF f [unfolded Inr]]
      have "pe_event_id ` set t = insert e (pe_event_id ` set (processed_events (db s)))"
        "n = 0 \<longleftrightarrow> e \<in> pe_event_id ` set (processed_events (db s))"
        "n = 0 \<longrightarrow> t = processed_events (db s)"
        by auto
      with some r s' Inr show ?thesis by (cases "n = 0") auto
    qed
  qed
qed

text \<open>
  The transaction both consumers run: \<open>apply\<close> is the stock statement.
\<close>

definition seen_event :: "uuid \<Rightarrow> (product_db, message, 'z) env_scheme \<Rightarrow> bool" where
  "seen_event e s \<longleftrightarrow> e \<in> pe_event_id ` set (processed_events (db s))"

definition product_table :: "(product_db, message, 'z) env_scheme \<Rightarrow> Product list" where
  "product_table s = products (db s)"

lemma keeps_seen:
  "keeps_db (\<lambda>d. processed_events d = E) (repo_ReleaseStock i q)"
  "keeps_db (\<lambda>d. processed_events d = E) (repo_ConfirmStock i q)"
proof -
  have upd: "keeps_db (\<lambda>d. processed_events d = E) (query (on_products f))" for f
    by (rule keeps_query) (auto simp: on_products_def split: prod.splits)
  show "keeps_db (\<lambda>d. processed_events d = E) (repo_ReleaseStock i q)"
    "keeps_db (\<lambda>d. processed_events d = E) (repo_ConfirmStock i q)"
    unfolding repo_ReleaseStock_def repo_ConfirmStock_def by (intro keeps_rules upd)+
qed

lemma stock_tx_cases:
  assumes frame: "\<And>E. keeps_db (\<lambda>d. processed_events d = E) apply"
    and run: "bindE (WithTx True (Some (bindE (MarkProcessed e ty i ord)
        (\<lambda>already. if already then ret () else apply))))
      (\<lambda>_. bindS (store_InvalidateProduct u st i) (\<lambda>_. ret ())) s = (r, s')"
  shows "((\<exists>x. r = Inl x) \<and> db s' = db s) \<or>
    (seen_event e s \<and> db s' = db s) \<or>
    (\<not> seen_event e s \<and> seen_event e s' \<and>
      (\<exists>s1 s2. products (db s1) = products (db s) \<and> apply s1 = (Inr (), s2) \<and> db s' = db s2 \<and>
        (product_db_ok (db s) \<longrightarrow> product_db_ok (db s1))))"
proof -
  let ?body = "bindE (MarkProcessed e ty i ord) (\<lambda>already. if already then ret () else apply)"
  obtain x s2 where tx: "WithTx True (Some ?body) s = (x, s2)" by (cases "WithTx True (Some ?body) s")
  have s': "db s' = db s2" and r: "x = Inr () \<or> (\<exists>y. r = Inl y)"
    using run tx store_InvalidateProduct_db [of u st i s2]
    by (auto simp: bindE_def bindS_def fail_def ret_def split: sum.splits prod.splits)
  from WithTx_cases [OF tx] consider
      (none) y where "x = Inl y" "db s2 = db s"
    | (body) s3 where "?body (s\<lparr>calls := calls s + 1\<rparr>) = (Inr (), s3)" "db s2 = db s3"
    by auto
  then show ?thesis
  proof cases
    case none
    with r s' show ?thesis by auto
  next
    case body
    from body(1) obtain already s4 where
      mark: "MarkProcessed e ty i ord (s\<lparr>calls := calls s + 1\<rparr>) = (Inr already, s4)"
      and rest: "(if already then ret () else apply) s4 = (Inr (), s3)"
      by (auto simp: bindE_Inr)
    show ?thesis
    proof (cases already)
      case True
      with MarkProcessed_cases [OF mark] rest body s' show ?thesis
        by (simp add: seen_event_def ret_def)
    next
      case False
      with rest have app: "apply s4 = (Inr (), s3)" by simp
      from MarkProcessed_cases [OF mark] False have
        "\<not> seen_event e s" "products (db s4) = products (db s)"
        "e \<in> pe_event_id ` set (processed_events (db s4))"
        by (auto simp: seen_event_def)
      moreover have "processed_events (db s3) = processed_events (db s4)"
        using keepsD [OF frame _ app] by blast
      moreover have "product_db_ok (db s4)" if "product_db_ok (db s)"
        using keepsD [OF keeps_MarkProcessed _ mark] that by simp
      ultimately show ?thesis using app body s' by (auto simp: seen_event_def)
    qed
  qed
qed

lemma stock_tx_acknowledged:
  assumes "bindE (WithTx True (Some (bindE (MarkProcessed e ty i ord)
        (\<lambda>already. if already then ret () else apply))))
      (\<lambda>_. bindS (store_InvalidateProduct u st i) (\<lambda>_. ret ())) s = (Inr (), s')"
    and "\<And>E. keeps_db (\<lambda>d. processed_events d = E) apply"
  shows "seen_event e s'"
  using stock_tx_cases [OF assms(2,1)] by (auto simp: seen_event_def)

text \<open>
  What may happen between two deliveries: any request or message that the service handles, and
  anything outside that leaves the database alone. None of it takes an event off the record.
\<close>

inductive product_between ::
  "product_svc \<Rightarrow> (product_db, message, 'z) cenv_scheme \<Rightarrow> (product_db, message, 'z) cenv_scheme \<Rightarrow> bool"
  for c where
  step: "product_between c s (product_step c op s)"
| outside: "db s' = db s \<Longrightarrow> product_between c s s'"

lemma keeps_on_products:
  "keeps_db (\<lambda>d. J (processed_events d)) (query (on_products f))"
  "keeps_db (\<lambda>d. J (processed_events d)) (query (\<lambda>d. case on_products f' d of
      (Inl err, d') \<Rightarrow> (Inl err, d') | (Inr n, d') \<Rightarrow> (if n = (0 :: nat) then Inl ErrNoRows else Inr (), d')))"
  by (rule keeps_query, auto simp: on_products_def split: prod.splits sum.splits)+

lemma keeps_on_record [keeps_rules]:
  "keeps_db (\<lambda>d. e \<in> pe_event_id ` set (processed_events d)) (repo_Create p)"
  "keeps_db (\<lambda>d. e \<in> pe_event_id ` set (processed_events d)) (repo_Update p)"
  "keeps_db (\<lambda>d. e \<in> pe_event_id ` set (processed_events d)) (repo_Delete i)"
  "keeps_db (\<lambda>d. e \<in> pe_event_id ` set (processed_events d)) (repo_ReserveStock i q)"
  "keeps_db (\<lambda>d. e \<in> pe_event_id ` set (processed_events d)) (repo_ReleaseStock i q)"
  "keeps_db (\<lambda>d. e \<in> pe_event_id ` set (processed_events d)) (repo_ConfirmStock i q)"
  "keeps_db (\<lambda>d. e \<in> pe_event_id ` set (processed_events d)) (MarkProcessed e' ty i ord)"
proof -
  let ?J = "\<lambda>d. e \<in> pe_event_id ` set (processed_events d)"
  have ins: "keeps_db ?J (query (on_processed (sql_inbox pe_event_id processed_row_err ev)))" for ev
    by (rule keeps_query)
      (auto simp: on_processed_def sql_inbox_def split: prod.splits option.splits if_splits)
  show "keeps_db ?J (repo_Create p)" "keeps_db ?J (repo_Update p)" "keeps_db ?J (repo_Delete i)"
    "keeps_db ?J (repo_ReserveStock i q)" "keeps_db ?J (repo_ReleaseStock i q)"
    "keeps_db ?J (repo_ConfirmStock i q)" "keeps_db ?J (MarkProcessed e' ty i ord)"
    unfolding repo_Create_def repo_Update_def repo_Delete_def repo_ReserveStock_def repo_ReleaseStock_def
      repo_ConfirmStock_def MarkProcessed_def
    by (intro keeps_rules ins keeps_on_products [where J = "\<lambda>t. e \<in> pe_event_id ` set t"])+
qed

lemma on_record_stays: "product_between c s s' \<Longrightarrow> seen_event e s \<Longrightarrow> seen_event e s'"
proof (induction rule: product_between.induct)
  case (step s op)
  let ?J = "\<lambda>d. e \<in> pe_event_id ` set (processed_events d)"
  have writes: "keeps_db ?J (svc_CreateProduct c ctx cr)" "keeps_db ?J (svc_UpdateProduct c ctx ur)"
    "keeps_db ?J (svc_DeleteProduct c ctx dr)" "keeps_db ?J (svc_ReserveStock c sr)"
    "keeps_db ?J (svc_ReleaseStock c sr)" "keeps_db ?J (svc_ConfirmStock c sr)" for ctx cr ur dr sr
    unfolding product_svc_defs cached_defs by (intro keeps_rules)+
  have handlers: "keeps_db ?J (grpc_CreateProduct c ctx cr)" "keeps_db ?J (grpc_UpdateProduct c ctx ur)"
    "keeps_db ?J (grpc_DeleteProduct c ctx dr)" "keeps_db ?J (grpc_ReserveStock c sr)"
    "keeps_db ?J (grpc_ReleaseStock c sr)" "keeps_db ?J (grpc_ConfirmStock c sr)"
    "keeps_db ?J (grpc_GetProduct c gr)" "keeps_db ?J (grpc_GetProductsByIDs c ir)"
    "keeps_db ?J (grpc_SearchProducts c se)" for ctx cr ur dr sr gr ir se
    unfolding product_grpc_defs by (rule keeps_grpc_answer, rule writes keeps_product_reads)+
  have consumers: "keeps_db ?J (StockRelease_Handle c body)" "keeps_db ?J (StockConfirm_Handle c body)" for body
    unfolding StockRelease_Handle_def StockConfirm_Handle_def release_event_def confirm_event_def
    by (intro keeps_rules)+
  note keep = keepsI_snd [where I = "\<lambda>s. ?J (db s)", OF _ step [unfolded seen_event_def]]
  show ?case unfolding seen_event_def
    by (cases op; simp only: product_step.simps; rule keep; rule handlers consumers)
qed (simp add: seen_event_def)

interpretation release_inbox:
  inbox_consumer "release_event c ev" "product_between c" "seen_event (sr_EventID ev)" product_table
  for c and ev
proof
  fix s s' :: "(product_db, message, 'a) cenv_scheme" and r
  note cases = stock_tx_cases [OF keeps_seen(1)]
  show "seen_event (sr_EventID ev) s' \<and> product_table s' = product_table s"
    if "seen_event (sr_EventID ev) s" "release_event c ev s = (r, s')"
    using cases [OF that(2) [unfolded release_event_def]] that(1) by (auto simp: seen_event_def product_table_def)
  show "seen_event (sr_EventID ev) s' \<or> product_table s' = product_table s"
    if "release_event c ev s = (r, s')"
    using cases [OF that [unfolded release_event_def]] by (auto simp: product_table_def)
  show "seen_event (sr_EventID ev) s'" if "release_event c ev s = (Inr (), s')"
    using stock_tx_acknowledged [OF that [unfolded release_event_def] keeps_seen(1)] .
  show "seen_event (sr_EventID ev) s'" if "product_between c s s'" "seen_event (sr_EventID ev) s"
    using on_record_stays [OF that] .
qed

interpretation confirm_inbox:
  inbox_consumer "confirm_event c ev" "product_between c" "seen_event (sc_EventID ev)" product_table
  for c and ev
proof
  fix s s' :: "(product_db, message, 'a) cenv_scheme" and r
  note cases = stock_tx_cases [OF keeps_seen(2)]
  show "seen_event (sc_EventID ev) s' \<and> product_table s' = product_table s"
    if "seen_event (sc_EventID ev) s" "confirm_event c ev s = (r, s')"
    using cases [OF that(2) [unfolded confirm_event_def]] that(1) by (auto simp: seen_event_def product_table_def)
  show "seen_event (sc_EventID ev) s' \<or> product_table s' = product_table s"
    if "confirm_event c ev s = (r, s')"
    using cases [OF that [unfolded confirm_event_def]] by (auto simp: product_table_def)
  show "seen_event (sc_EventID ev) s'" if "confirm_event c ev s = (Inr (), s')"
    using stock_tx_acknowledged [OF that [unfolded confirm_event_def] keeps_seen(2)] .
  show "seen_event (sc_EventID ev) s'" if "product_between c s s'" "seen_event (sc_EventID ev) s"
    using on_record_stays [OF that] .
qed

text \<open>
  C8: however often a stock message (a release or a confirmation) is delivered, with any other
  requests and messages of the service and any failures between its deliveries, at most one of its
  handlings changes the products: none does once the message is recorded, and a handling that is
  acknowledged has recorded it.
\<close>

theorem stock_message_once:
  "(UnmarshalStockRelease (json c) body = Inr released \<and>
      deliveries (StockRelease_Handle c body) (product_between c) product_table n s t \<longrightarrow>
    n \<le> 1 \<and> (seen_event (sr_EventID released) s \<longrightarrow> n = 0) \<and>
    (\<forall>s'. StockRelease_Handle c body s = (Inr (), s') \<longrightarrow> seen_event (sr_EventID released) s')) \<and>
   (UnmarshalStockConfirm (json c) body = Inr confirmed \<and>
      deliveries (StockConfirm_Handle c body) (product_between c) product_table n s t \<longrightarrow>
    n \<le> 1 \<and> (seen_event (sc_EventID confirmed) s \<longrightarrow> n = 0) \<and>
    (\<forall>s'. StockConfirm_Handle c body s = (Inr (), s') \<longrightarrow> seen_event (sc_EventID confirmed) s'))"
proof (intro conjI impI; elim conjE)
  assume json: "UnmarshalStockRelease (json c) body = Inr released"
    and run: "deliveries (StockRelease_Handle c body) (product_between c) product_table n s t"
  have handle: "StockRelease_Handle c body = release_event c released"
    by (simp add: StockRelease_Handle_def json fun_eq_iff)
  note once = release_inbox.at_most_once [OF run [unfolded handle]]
  show "n \<le> 1" using once by (simp split: if_splits)
  show "n = 0" if "seen_event (sr_EventID released) s" using once that by simp
  show "\<forall>s'. StockRelease_Handle c body s = (Inr (), s') \<longrightarrow> seen_event (sr_EventID released) s'"
    using release_inbox.acknowledged [of c released s] by (simp add: handle)
next
  assume json: "UnmarshalStockConfirm (json c) body = Inr confirmed"
    and run: "deliveries (StockConfirm_Handle c body) (product_between c) product_table n s t"
  have handle: "StockConfirm_Handle c body = confirm_event c confirmed"
    by (simp add: StockConfirm_Handle_def json fun_eq_iff)
  note once = confirm_inbox.at_most_once [OF run [unfolded handle]]
  show "n \<le> 1" using once by (simp split: if_splits)
  show "n = 0" if "seen_event (sc_EventID confirmed) s" using once that by simp
  show "\<forall>s'. StockConfirm_Handle c body s = (Inr (), s') \<longrightarrow> seen_event (sc_EventID confirmed) s'"
    using confirm_inbox.acknowledged [of c confirmed s] by (simp add: handle)
qed

text \<open>
  Handling a confirmation either leaves the products as they are or is its first handling and
  takes the quantity off the stock and the reserved stock of its product; the sellable stock is
  the same before and after.
\<close>

theorem stock_confirm_effect:
  fixes s s' :: "(product_db, message, 'z) cenv_scheme"
  assumes "product_reach c s" and "UnmarshalStockConfirm (json c) body = Inr ev"
    and "StockConfirm_Handle c body s = (r, s')"
  shows "product_table s' = product_table s \<or>
    (\<not> seen_event (sc_EventID ev) s \<and> seen_event (sc_EventID ev) s' \<and>
     (\<exists>p p'. tbl_get p_ID (product_table s) (sc_ProductID ev) = Some p \<and>
       tbl_get p_ID (product_table s') (sc_ProductID ev) = Some p' \<and>
       sint (p_TotalStock p') = sint (p_TotalStock p) - sint (sc_Quantity ev) \<and>
       sint (p_ReservedStock p') = sint (p_ReservedStock p) - sint (sc_Quantity ev) \<and>
       AvailableStock p' = AvailableStock p \<and>
       (\<forall>i. i \<noteq> sc_ProductID ev \<longrightarrow>
          tbl_get p_ID (product_table s') i = tbl_get p_ID (product_table s) i)))"
proof -
  let ?pid = "sc_ProductID ev" and ?q = "sc_Quantity ev"
  have ok: "product_db_ok (db s)" using product_reach_ok [OF assms(1)] .
  have run: "confirm_event c ev s = (r, s')"
    using assms(2,3) by (simp add: StockConfirm_Handle_def)
  from stock_tx_cases [OF keeps_seen(2) run [unfolded confirm_event_def]]
  consider (same) "db s' = db s"
    | (applied) s1 s2 :: "(product_db, message, 'z) cenv_scheme" where "\<not> seen_event (sc_EventID ev) s" "seen_event (sc_EventID ev) s'"
        "products (db s1) = products (db s)" "repo_ConfirmStock ?pid ?q s1 = (Inr (), s2)"
        "db s' = db s2" "product_db_ok (db s1)"
    using ok by metis
  then show ?thesis
  proof cases
    case same
    then show ?thesis by (simp add: product_table_def)
  next
    case applied
    from confirm_cases [OF applied(6,4)] obtain p where
      p: "0 < sint ?q" "tbl_get p_ID (products (db s1)) ?pid = Some p" "release_where ?pid ?q p"
        "db s2 = (db s1)\<lparr>products := tbl_set p_ID (products (db s1)) ?pid
          (p\<lparr>p_TotalStock := p_TotalStock p - ?q, p_ReservedStock := p_ReservedStock p - ?q,
             p_UpdatedAt := clock s1 (ticks s1)\<rparr>)\<rparr>"
      by auto
    have "p_ID p = ?pid" and row: "product_row_err p = None"
      using p(2) applied(6) tbl_wf_row [of product_schema "products (db s1)" p_ID ?pid p]
      by (auto simp: product_db_ok_def dest: tbl_get_SomeD)
    with p applied(1,2,3,5) release_set_ok(3) [OF row p(3,1)] confirm_set_ok(3) [OF row p(3,1)]
    show ?thesis
      by (auto simp: product_table_def tbl_get_set AvailableStock_def)
  qed
qed

lemma keeps_healthy_release [keeps_rules]: "keeps healthy (StockRelease_Handle c body)"
proof -
  have del: "keeps healthy (redis_Del ks)" for ks
    unfolding redis_Del_def by (rule keeps_healthy_extern) (simp add: keeps_def healthy_def)
  show ?thesis
    unfolding StockRelease_Handle_def release_event_def MarkProcessed_def repo_ReleaseStock_def
      store_InvalidateProduct_def Cache_Delete_def
    by (intro keeps_rules del)
qed

text \<open>
  A release of more than is reserved is never consumed: each delivery is answered with an
  error, changes nothing, and is put back on the queue, so the message comes again for ever.
\<close>

theorem excessive_release_is_poison:
  assumes "product_reach c s" and "UnmarshalStockRelease (json c) body = Inr ev"
    and "\<not> seen_event (sr_EventID ev) s" and "healthy s"
    and "\<forall>p. tbl_get p_ID (products (db s)) (sr_ProductID ev) = Some p \<longrightarrow>
      sint (p_ReservedStock p) < sint (sr_Quantity ev)"
  shows "\<exists>s'. consume_loop (StockRelease_Handle c) (replicate n (Delivery body)) s =
      (None, replicate n (Requeued body), s') \<and> db s' = db s"
proof -
  have refused: "\<exists>e s1. StockRelease_Handle c body t = (Inl e, s1) \<and> db s1 = db t \<and> healthy s1"
    if t: "db t = db s" "healthy t" for t
  proof -
    obtain r s1 where run: "StockRelease_Handle c body t = (r, s1)" by (cases "StockRelease_Handle c body t")
    then have "release_event c ev t = (r, s1)" by (simp add: StockRelease_Handle_def assms(2))
    note cases = stock_tx_cases [OF keeps_seen(1) this [unfolded release_event_def]]
    have "\<not> (\<exists>u v. products (db u) = products (db t) \<and> product_db_ok (db u) \<and>
        repo_ReleaseStock (sr_ProductID ev) (sr_Quantity ev) u = (Inr (), v))"
      using assms(5) t(1) by (fastforce dest: release_cases simp: release_where_def)
    with cases product_reach_ok [OF assms(1)] t(1) assms(3)
    have "(\<exists>e. r = Inl e) \<and> db s1 = db t"
      by (auto simp: seen_event_def)
    with run keepsD [OF keeps_healthy_release t(2) run] show ?thesis by blast
  qed
  have "\<exists>s'. consume_loop (StockRelease_Handle c) (replicate n (Delivery body)) t =
      (None, replicate n (Requeued body), s') \<and> db s' = db s"
    if "db t = db s" "healthy t" for t
    using that
  proof (induction n arbitrary: t)
    case 0
    then show ?case by simp
  next
    case (Suc n)
    from refused [OF Suc.prems] obtain e s1 where
      h: "StockRelease_Handle c body t = (Inl e, s1)" "db s1 = db t" "healthy s1" by blast
    have "extern (ret ()) s1 = (Inr (), s1\<lparr>calls := calls s1 + 1\<rparr>)"
      using h(3) by (simp add: extern_healthy ret_def)
    with Suc.IH [of "s1\<lparr>calls := calls s1 + 1\<rparr>"] h Suc.prems show ?case by auto
  qed
  with assms(4) show ?thesis by blast
qed

text \<open>The demonstration state after a reservation of four pieces, and after its confirmation.\<close>

definition demo_reserved :: "(product_db, message) cenv" where
  "demo_reserved = product_step demo_svc
     (ReserveStock (Some \<lparr>rq_ProductId = ''1'', rq_Quantity = 4\<rparr>)) demo_state"

definition demo_confirmed :: "(product_db, message) cenv" where
  "demo_confirmed = product_step demo_svc (StockConfirmMessage ''c'') demo_reserved"

lemma demo_reserved_reach: "product_reach demo_svc demo_reserved"
  unfolding demo_reserved_def by (rule product_reach.step, rule demo_reach)

lemma demo_reserved_table:
  "product_table demo_reserved = [demo_product\<lparr>p_ReservedStock := 4, p_UpdatedAt := 1\<rparr>]"
  by code_simp

lemma demo_confirmed_table:
  "product_table demo_confirmed =
     [demo_product\<lparr>p_TotalStock := 6, p_ReservedStock := 0, p_UpdatedAt := 2\<rparr>]"
  by code_simp

lemma demo_confirm_body: "UnmarshalStockConfirm (json demo_svc) ''c'' = Inr demo_confirm"
  by code_simp

definition demo_released :: "(product_db, message) cenv" where
  "demo_released = product_step demo_svc (StockReleaseMessage ''r'') demo_reserved"

lemma demo_released_table:
  "product_table demo_released = [demo_product\<lparr>p_ReservedStock := 0, p_UpdatedAt := 2\<rparr>]"
  by code_simp

theorem stock_message_once_witness:
  "deliveries (StockConfirm_Handle demo_svc ''c'') (product_between demo_svc) product_table 1
     demo_reserved demo_confirmed \<and> \<not> seen_event 78 demo_reserved \<and>
   deliveries (StockRelease_Handle demo_svc ''r'') (product_between demo_svc) product_table 1
     demo_reserved demo_released \<and> \<not> seen_event 77 demo_reserved"
proof -
  note once = stock_message_once [where c = demo_svc and s = demo_reserved and n = 1]
  have "StockConfirm_Handle demo_svc ''c'' demo_reserved =
      (fst (StockConfirm_Handle demo_svc ''c'' demo_reserved), demo_confirmed)"
    by (simp add: demo_confirmed_def)
  from deliveries.handled [where handle = "StockConfirm_Handle demo_svc ''c''" and other = "product_between demo_svc"
      and view = product_table, OF this deliveries.none]
  have confirm: "deliveries (StockConfirm_Handle demo_svc ''c'') (product_between demo_svc) product_table 1
      demo_reserved demo_confirmed"
    by (simp add: demo_reserved_table demo_confirmed_table demo_product_def)
  have "StockRelease_Handle demo_svc ''r'' demo_reserved =
      (fst (StockRelease_Handle demo_svc ''r'' demo_reserved), demo_released)"
    by (simp add: demo_released_def)
  from deliveries.handled [where handle = "StockRelease_Handle demo_svc ''r''" and other = "product_between demo_svc"
      and view = product_table, OF this deliveries.none]
  have release: "deliveries (StockRelease_Handle demo_svc ''r'') (product_between demo_svc) product_table 1
      demo_reserved demo_released"
    by (simp add: demo_reserved_table demo_released_table demo_product_def)
  have body: "UnmarshalStockRelease (json demo_svc) ''r'' = Inr demo_release" by code_simp
  have "\<not> seen_event (sc_EventID demo_confirm) demo_reserved"
    using once [where body = "''c''" and t = demo_confirmed, THEN conjunct2] confirm demo_confirm_body zero_neq_one by metis
  moreover have "\<not> seen_event (sr_EventID demo_release) demo_reserved"
    using once [where body = "''r''" and t = demo_released, THEN conjunct1] release body zero_neq_one by metis
  ultimately show ?thesis
    using confirm release by (simp add: demo_confirm_def demo_release_def)
qed

theorem stock_confirm_effect_witness:
  "\<not> seen_event (sc_EventID demo_confirm) demo_reserved \<and> seen_event (sc_EventID demo_confirm) demo_confirmed"
proof -
  have "StockConfirm_Handle demo_svc ''c'' demo_reserved =
      (fst (StockConfirm_Handle demo_svc ''c'' demo_reserved), demo_confirmed)"
    by (simp add: demo_confirmed_def)
  moreover have "product_table demo_confirmed \<noteq> product_table demo_reserved"
    by (simp add: demo_reserved_table demo_confirmed_table demo_product_def)
  ultimately show ?thesis
    using stock_confirm_effect [OF demo_reserved_reach demo_confirm_body] by blast
qed

theorem excessive_release_is_poison_witness:
  "\<exists>s'. consume_loop (StockRelease_Handle demo_svc) (replicate 3 (Delivery ''r'')) demo_state =
     (None, replicate 3 (Requeued ''r''), s') \<and> db s' = db demo_state"
proof -
  have body: "UnmarshalStockRelease (json demo_svc) ''r'' = Inr demo_release" by code_simp
  have "\<not> seen_event (sr_EventID demo_release) demo_state" by code_simp
  moreover note demo_healthy
  moreover have "sint (0 :: i32) < sint (4 :: i32)" by code_simp
  then have "\<forall>p. tbl_get p_ID (products (db demo_state)) (sr_ProductID demo_release) = Some p \<longrightarrow>
      sint (p_ReservedStock p) < sint (sr_Quantity demo_release)"
    by (simp add: demo_products demo_release_def demo_product_def)
  ultimately show ?thesis
    using excessive_release_is_poison [OF demo_reach body, of 3] by blast
qed

section \<open>Who may change the catalogue\<close>

text \<open>
  C25: without an administrator's claims in the request's context, creating, changing and deleting
  products is refused before anything is read or written.
\<close>

theorem catalogue_admin_only:
  assumes "\<And>cl. ClaimsFromContext ctx = Some cl \<Longrightarrow> Role cl \<noteq> ''admin''"
  shows "(\<exists>e. svc_CreateProduct c ctx cr s = (Inl e, s) \<and>
      GetKind (Some e) \<in> {KindUnauthenticated, KindPermissionDenied, KindInvalidInput}) \<and>
    (\<exists>e. svc_UpdateProduct c ctx ur s = (Inl e, s) \<and>
      GetKind (Some e) \<in> {KindUnauthenticated, KindPermissionDenied, KindInvalidInput}) \<and>
    (\<exists>e. svc_DeleteProduct c ctx dr s = (Inl e, s) \<and>
      GetKind (Some e) \<in> {KindUnauthenticated, KindPermissionDenied, KindInvalidInput})"
  using assms
  by (auto simp: svc_CreateProduct_def svc_UpdateProduct_def svc_DeleteProduct_def requireAdmin_def
      roleAdmin_def bindE_def bindS_def fail_def split: option.splits)

theorem catalogue_admin_only_witness:
  "\<exists>e. svc_DeleteProduct demo_svc (admin_ctx\<lparr>ctx_claims := None\<rparr>) (Some ''1'') demo_state = (Inl e, demo_state)"
  using catalogue_admin_only [of "admin_ctx\<lparr>ctx_claims := None\<rparr>" demo_svc None demo_state None "Some ''1''"]
  by (auto simp: ClaimsFromContext_def)

section \<open>The cache\<close>

text \<open>A read through the cache when it holds the product, and when it does not.\<close>

lemma cached_GetByID_hit:
  assumes "store_GetProduct (ul c) (store c) i s = (Inr (Some p), s1)"
  shows "cached_GetByID c i s = (Inr p, s1)"
  using assms by (simp add: cached_GetByID_def bindS_def ret_def)

lemma cached_GetByID_miss:
  assumes "healthy s" and "client (st_products (store c))" and "i \<noteq> uuid_Nil"
    and "productKey (ul c) (store c) i \<noteq> ''''" and "redis s (productKey (ul c) (store c) i) = None"
    and "tbl_get p_ID (products (db s)) i = Some p"
  shows "fst (cached_GetByID c i s) = Inr p"
proof -
  have get: "store_GetProduct (ul c) (store c) i s =
      (Inr None, s\<lparr>calls := calls s + 1, ticks := ticks s + 1\<rparr>)"
    using assms by (simp add: store_GetProduct_def Cache_Get_def redis_Get_def extern_healthy bindS_def ret_def)
  have "repo_GetByID i (s\<lparr>calls := calls s + 1, ticks := ticks s + 1\<rparr>) =
      (Inr p, s\<lparr>calls := calls s + 2, ticks := ticks s + 1\<rparr>)"
    using assms by (simp add: repo_GetByID_def query_def extern_healthy on_db_def bindS_def ret_def)
  with get show ?thesis
    by (auto simp: cached_GetByID_def bindS_def bindE_def ret_def split: prod.splits)
qed

lemma NewStore_productKey: "store c = NewProductCacheStore ps ss \<Longrightarrow> productKey u (store c) i \<noteq> ''''"
  by (simp add: productKey_def NewProductCacheStore_def NewKeyBuilder_def Build_def join_def)

text \<open>What a successful update did, when nothing failed.\<close>

lemma repo_Update_healthy:
  assumes "healthy s" and "product_db_ok (db s)" and "repo_Update (Some p) s = (Inr p', s')"
  shows "\<exists>r. tbl_get p_ID (products (db s)) (p_ID p) = Some r \<and>
    s' = s\<lparr>ticks := ticks s + 1, calls := calls s + 1, db := (db s)\<lparr>products :=
      tbl_set p_ID (products (db s)) (p_ID p) (r\<lparr>p_Name := p_Name p, p_Description := p_Description p,
        p_Category := p_Category p, p_Price := p_Price p, p_IsActive := p_IsActive p,
        p_UpdatedAt := clock s (ticks s)\<rparr>)\<rparr>\<rparr>"
proof -
  have wf: "tbl_wf product_schema (products (db s))" using assms(2) by (simp add: product_db_ok_def)
  show ?thesis
    using assms(1,3)
    by (auto simp: repo_Update_def bindE_def bindS_def time_Now_def query_def extern_healthy on_db_def
        on_products_def upd.update_key [OF wf] update_where_def update_set_def fail_def ret_def
        split: option.splits if_splits)
qed

text \<open>
  When nothing fails, the product that \<open>UpdateProduct\<close> answers with is the one now on file,
  with the fields of the request, the stock it had before, and no older copy from the cache.
\<close>

theorem update_answers_fresh_product:
  assumes "product_reach c s" and "healthy s" and "store c = NewProductCacheStore ps ss"
    and "client ps" and "uuid_Parse (ul c) (up_Id req) = Some pid" and "pid \<noteq> uuid_Nil"
    and "svc_UpdateProduct c ctx (Some req) s = (Inr resp, s')"
  shows "\<exists>r old. tbl_get p_ID (products (db s)) pid = Some old \<and>
    tbl_get p_ID (products (db s')) pid = Some r \<and> resp = toProtoProduct (ul c) r \<and>
    p_Name r = up_Name req \<and> p_Description r = up_Description req \<and> p_Category r = up_Category req \<and>
    p_Price r = up_Price req \<and> p_IsActive r = up_IsActive req \<and>
    p_TotalStock r = p_TotalStock old \<and> p_ReservedStock r = p_ReservedStock old"
proof -
  let ?p = "zero_product\<lparr>p_ID := pid, p_Name := up_Name req, p_Description := up_Description req,
      p_Category := up_Category req, p_Price := up_Price req, p_IsActive := up_IsActive req\<rparr>"
  let ?key = "productKey (ul c) (store c) pid"
  from assms(5,7) obtain q s2 s3 where
    cupd: "cached_Update c ?p s = (Inr q, s2)" and
    get: "cached_GetByID c pid s2 = (Inr s3, s')" and resp: "resp = toProtoProduct (ul c) s3"
    by (auto simp: svc_UpdateProduct_def requireAdmin_def parseProductID_def bindE_Inr ret_eq fail_eq
        split: option.splits if_splits)
  from cupd obtain s1 where upd: "repo_Update (Some ?p) s = (Inr q, s1)"
    and inv: "s2 = snd (store_InvalidateProduct (ul c) (store c) pid s1)"
    by (auto simp: cached_Update_def then_invalidate_def bindE_Inr bindS_ignore_iff)
  let ?new = "\<lambda>old. old\<lparr>p_Name := up_Name req, p_Description := up_Description req,
      p_Category := up_Category req, p_Price := up_Price req, p_IsActive := up_IsActive req,
      p_UpdatedAt := clock s (ticks s)\<rparr>"
  from repo_Update_healthy [OF assms(2) product_reach_ok [OF assms(1)] upd] obtain old where
    old: "tbl_get p_ID (products (db s)) pid = Some old" and
    s1: "healthy s1" "products (db s1) = tbl_set p_ID (products (db s)) pid (?new old)"
    using assms(2) by auto
  have "p_ID old = pid" using tbl_get_SomeD [OF old] by simp
  then have new: "tbl_get p_ID (products (db s1)) pid = Some (?new old)"
    by (simp add: s1(2) tbl_get_set old)
  have s2: "s2 = s1\<lparr>calls := calls s1 + 1, redis := redis s1 |` (- {?key})\<rparr>"
    using inv s1(1) assms(3,4)
    by (auto simp: store_InvalidateProduct_def Cache_Delete_def redis_Del_def wrapE_def bindS_def
        extern_healthy ret_def NewProductCacheStore_def)
  have "client (st_products (store c))" using assms(3,4) by (simp add: NewProductCacheStore_def)
  moreover have "healthy s2" using s1(1) s2 by (simp add: healthy_def)
  ultimately have "Inr s3 = (Inr (?new old) :: goerr + Product)"
    using cached_GetByID_miss [of s2 c pid "?new old"] assms(6) NewStore_productKey [OF assms(3)] new s2 get
    by (simp add: restrict_map_def)
  moreover have "db s' = db s2"
    using keepsD [OF keeps_cached_GetByID [of "\<lambda>d. d = db s2"] _ get] by simp
  ultimately show ?thesis using old new s2 resp by auto
qed

lemma Cache_Get_healthy:
  assumes "healthy s" and "client c" and "key \<noteq> ''''"
    and "lookup c (redis s) (clock s (ticks s)) key = Some v"
  shows "Cache_Get c key s = (Inr (Some v), s\<lparr>calls := calls s + 1, ticks := ticks s + 1\<rparr>)"
  using assms
  by (auto simp: Cache_Get_def redis_Get_def lookup_def extern_healthy bindS_def ret_def
      split: option.splits if_splits sum.splits)

text \<open>
  The key under which a search is cached does not separate its category from its text: while
  the result of the search for \<open>q\<close> in category \<open>a:b\<close> is cached, the search for \<open>b:q\<close> in category
  \<open>a\<close> answers that result, whatever the database holds.
\<close>

theorem search_cache_confuses_searches:
  assumes "healthy s" and "store c = NewProductCacheStore ps ss" and "client ss"
    and "lookup ss (redis s) (clock s (ticks s)) (searchKey (store c) q (a @ '':'' @ b) l off) = Some found"
  shows "fst (cached_Search c (b @ '':'' @ q) a l off s) = Inr found"
proof -
  have key: "searchKey (store c) (b @ '':'' @ q) a l off = searchKey (store c) q (a @ '':'' @ b) l off"
    by (simp add: searchKey_def Build_def join_def)
  have ss: "st_searches (store c) = ss" by (simp add: assms(2) NewProductCacheStore_def)
  have "searchKey (store c) q (a @ '':'' @ b) l off \<noteq> ''''"
    by (simp add: searchKey_def assms(2) NewProductCacheStore_def NewKeyBuilder_def Build_def join_def)
  from Cache_Get_healthy [OF assms(1,3) this assms(4)]
  show ?thesis
    by (simp add: cached_Search_def store_GetSearch_def key [simplified] ss bindS_def ret_def)
qed

text \<open>
  A product that was deleted is not among the active products of the database, but once its
  page has been read through the cache the batch lookup of the order service returns it.
\<close>

theorem batch_lookup_returns_deleted:
  assumes "healthy s" and "store c = NewProductCacheStore ps ss" and "client ps"
    and "\<And>i. clock s i = now" and "0 < productTTL c"
    and "Enc ps p = Inr data" and "Dec ps data = Inr p" and "pid \<noteq> uuid_Nil"
    and "product_db_ok (db s)" and "tbl_get p_ID (products (db s)) pid = Some p" and "\<not> p_IsActive p"
    and "redis s (productKey (ul c) (store c) pid) = None"
    and "cached_GetByID c pid s = (r, s1)"
  shows "fst (cached_GetByIDs c [pid] s1) = Inr [p] \<and> fst (repo_GetByIDs [pid] s1) = Inr []"
proof -
  let ?key = "productKey (ul c) (store c) pid"
  have st: "st_products (store c) = ps" and key: "?key \<noteq> ''''"
    using NewStore_productKey [OF assms(2)] by (simp_all add: assms(2) NewProductCacheStore_def)
  have pid: "p_ID p = pid" using tbl_get_SomeD [OF assms(10)] by simp
  have s1: "s1 = s\<lparr>calls := calls s + 3, ticks := ticks s + 2,
      redis := (redis s)(?key \<mapsto> (data, now + productTTL c))\<rparr>"
    using assms(1,3-8,10,12,13) key
    by (simp add: cached_GetByID_def store_GetProduct_def store_SetProduct_def st pid Cache_Get_def
        Cache_Set_def redis_Get_def redis_Set_def repo_GetByID_def query_def on_db_def wrapE_def
        extern_healthy healthy_def bindS_def bindE_def ret_def Let_def numeral_3_eq_3
        numeral_2_eq_2 split: prod.splits)
  then have h1: "healthy s1" using assms(1) by (simp add: healthy_def)
  have "lookup ps (redis s1) (clock s1 (ticks s1)) ?key = Some p"
    using assms(4,5,7) by (simp add: s1 lookup_def)
  from Cache_Get_healthy [OF h1 assms(3) key this]
  have "fst (cached_GetByIDs c [pid] s1) = Inr [p]"
    by (simp add: cached_GetByIDs_def store_GetProduct_def st bindE_def bindS_def ret_def)
  moreover have "[q \<leftarrow> products (db s1). p_ID q \<in> set [pid] \<and> p_IsActive q] = []"
  proof -
    have "q = p" if "q \<in> set (products (db s))" "p_ID q = pid" for q
      using that tbl_get_SomeD [OF assms(10)] assms(9)
      by (auto simp: product_db_ok_def tbl_wf_def distinct_map inj_on_def)
    with assms(11) show ?thesis by (auto simp: s1 filter_empty_conv)
  qed
  then have "fst (repo_GetByIDs [pid] s1) = Inr []"
    using h1 by (simp add: repo_GetByIDs_def query_def extern_healthy on_db_def wrapE_def bindE_def
        bindS_def ret_def)
  ultimately show ?thesis ..
qed

definition demo_update :: UpdateProductRequest where
  "demo_update = \<lparr>up_Id = ''1'', up_Name = ''ink'', up_Description = '''', up_Category = ''a'',
     up_Price = 5, up_IsActive = True\<rparr>"

theorem update_answers_fresh_product_witness:
  "\<exists>r. tbl_get p_ID (products (db (snd (svc_UpdateProduct demo_svc admin_ctx (Some demo_update) demo_state)))) 1
     = Some r \<and> p_Name r = ''ink'' \<and> p_TotalStock r = 10"
proof -
  let ?run = "svc_UpdateProduct demo_svc admin_ctx (Some demo_update) demo_state"
  have "fst ?run = Inr \<lparr>pb_Id = ''1'', pb_Name = ''ink'', pb_Description = '''', pb_Category = ''a'',
      pb_Price = 5, pb_TotalStock = 10, pb_ReservedStock = 0, pb_IsActive = True, pb_CreatedAt = 0,
      pb_UpdatedAt = 1\<rparr>" (is "_ = Inr ?resp")
    by code_simp
  then have run: "?run = (Inr ?resp, snd ?run)" by (metis prod.collapse)
  have "uuid_Parse (ul demo_svc) (up_Id demo_update) = Some 1" by code_simp
  from update_answers_fresh_product [OF demo_reach demo_healthy _ _ this _ run, of no_cache no_cache]
  show ?thesis
    by (auto simp: demo_products demo_product_def demo_update_def demo_svc_def no_cache_def)
qed

text \<open>Caches that hold one search, and one product.\<close>

definition one_search :: "Product list cache" where
  "one_search = \<lparr>client = True, Enc = (\<lambda>_. Inr ''s''), Dec = (\<lambda>_. Inr [demo_product])\<rparr>"

definition one_product :: "Product cache" where
  "one_product = \<lparr>client = True, Enc = (\<lambda>_. Inr ''p''),
     Dec = (\<lambda>_. Inr (demo_product\<lparr>p_IsActive := False\<rparr>))\<rparr>"

definition cache_svc :: product_svc where
  "cache_svc = demo_svc\<lparr>store := NewProductCacheStore one_product one_search\<rparr>"

definition cached_state :: "(product_db, message) cenv" where
  "cached_state = (idle_cenv \<lparr>products = [demo_product\<lparr>p_IsActive := False\<rparr>], processed_events = []\<rparr>)
     \<lparr>clock := (\<lambda>_. 0), redis := [''product-service:search:a:b:q:20:0'' \<mapsto> (''s'', 9)]\<rparr>"

theorem search_cache_confuses_searches_witness:
  "fst (cached_Search cache_svc ''b:q'' ''a'' 20 0 cached_state) = Inr [demo_product]"
proof -
  have "lookup one_search (redis cached_state) (clock cached_state (ticks cached_state))
      (searchKey (store cache_svc) ''q'' (''a'' @ '':'' @ ''b'') 20 0) = Some [demo_product]"
    by code_simp
  moreover have "healthy cached_state" by (simp add: cached_state_def idle_cenv_def healthy_def)
  ultimately show ?thesis
    using search_cache_confuses_searches
      [of cached_state cache_svc one_product one_search "''q''" "''a''" "''b''" 20 0 "[demo_product]"]
    by (simp add: cache_svc_def one_search_def)
qed

theorem batch_lookup_returns_deleted_witness:
  "fst (cached_GetByIDs cache_svc [1] (snd (cached_GetByID cache_svc 1 cached_state)))
     = Inr [demo_product\<lparr>p_IsActive := False\<rparr>]"
proof -
  let ?p = "demo_product\<lparr>p_IsActive := False\<rparr>"
  let ?run = "cached_GetByID cache_svc 1 cached_state"
  have "product_db_ok (db cached_state)" by code_simp
  moreover have "redis cached_state (productKey (ul cache_svc) (store cache_svc) 1) = None" by code_simp
  moreover have "healthy cached_state" by (simp add: cached_state_def idle_cenv_def healthy_def)
  moreover have "0 < productTTL cache_svc" by code_simp
  moreover have "tbl_get p_ID (products (db cached_state)) 1 = Some ?p" by code_simp
  ultimately show ?thesis
    using batch_lookup_returns_deleted [of cached_state cache_svc one_product one_search 0 ?p "''p''" 1
        "fst ?run" "snd ?run"]
    by (simp add: cache_svc_def one_product_def cached_state_def idle_cenv_def demo_product_def)
qed

end
