(* ===== verification/Order.thy ===== *)
theory Order
  imports Events
begin

text \<open>
  \<open>services/order-service/internal/model/order.go\<close> and \<open>internal/repository\<close> (\<open>order.go\<close>,
  \<open>event.go\<close>), over the tables of \<open>migrations/\<close>. A row of \<open>orders\<close> is an \<open>Order\<close> without items. An
  item's \<open>subtotal\<close> is the generated column \<open>unit_price * quantity\<close>.

  Two things are left to the environment by \<open>orders_cfg\<close>: the order in which \<open>INSERT ... RETURNING\<close>
  gives its rows back, and whether pgx reports a statement's error when it is sent or while its
  rows are read.

  The lemmas give the effect of each statement and the table invariant \<open>order_db_ok\<close>.
\<close>

section \<open>The model\<close>

definition OrderStatusPending :: string where "OrderStatusPending = ''pending''"
definition OrderStatusConfirmed :: string where "OrderStatusConfirmed = ''confirmed''"
definition OrderStatusCancelled :: string where "OrderStatusCancelled = ''cancelled''"
definition OrderStatusFailed :: string where "OrderStatusFailed = ''failed''"

lemmas order_status_defs =
  OrderStatusPending_def OrderStatusConfirmed_def OrderStatusCancelled_def OrderStatusFailed_def

record OrderItem =
  i_ID :: uuid
  i_OrderID :: uuid
  i_ProductID :: uuid
  i_ProductName :: string
  i_UnitPrice :: i64
  i_Quantity :: i32
  i_Subtotal :: i64
  i_CreatedAt :: time

record Order =
  o_ID :: uuid
  o_UserID :: uuid
  o_Status :: string
  o_TotalAmount :: i64
  o_Items :: "OrderItem list"
  o_CreatedAt :: time
  o_UpdatedAt :: time

definition CalculateSubtotal :: "OrderItem \<Rightarrow> i64" where
  "CalculateSubtotal item = i_UnitPrice item * word_of_int (sint (i_Quantity item))"

text \<open>
  The loop of \<open>CalculateTotal\<close>: it also fills in the subtotals that are still zero.
\<close>

definition fill_subtotal :: "OrderItem \<Rightarrow> OrderItem" where
  "fill_subtotal item =
     (if i_Subtotal item = 0 \<and> 0 < sint (i_Quantity item)
      then item\<lparr>i_Subtotal := CalculateSubtotal item\<rparr> else item)"

fun total_loop :: "OrderItem list \<Rightarrow> i64 \<Rightarrow> i64" where
  "total_loop [] acc = acc"
| "total_loop (item # items) acc = total_loop items (acc + i_Subtotal (fill_subtotal item))"

definition CalculateTotal :: "Order \<Rightarrow> i64 \<times> Order" where
  "CalculateTotal ord = (total_loop (o_Items ord) 0, ord\<lparr>o_Items := map fill_subtotal (o_Items ord)\<rparr>)"

fun validate_items :: "OrderItem list \<Rightarrow> goerr option" where
  "validate_items [] = None"
| "validate_items (item # items) =
     (if sint (i_Quantity item) \<le> 0 then Some (New KindInvalidInput ''item quantity must be positive'')
      else if sint (i_UnitPrice item) < 0
        then Some (New KindInvalidInput ''item unit price cannot be negative'')
      else validate_items items)"

definition Order_Validate :: "Order \<Rightarrow> goerr option" where
  "Order_Validate ord =
     (if length (o_Items ord) = 0
      then Some (New KindInvalidInput ''order must contain at least one item'')
      else case validate_items (o_Items ord) of
          Some err \<Rightarrow> Some err
        | None \<Rightarrow>
            if o_TotalAmount ord \<noteq> fst (CalculateTotal ord)
            then Some (New KindInvalidInput ''total amount does not match sum of items'')
            else None)"

definition CanTransitionTo :: "Order \<Rightarrow> string \<Rightarrow> bool" where
  "CanTransitionTo ord next =
     (if o_Status ord \<noteq> OrderStatusPending then False
      else next = OrderStatusConfirmed \<or> next = OrderStatusCancelled)"

section \<open>The tables\<close>

record order_event =
  oe_event_id :: uuid
  oe_event_type :: string
  oe_order_id :: "uuid option"
  oe_payment_id :: "uuid option"

record order_db =
  orders :: "Order list"
  order_items :: "OrderItem list"
  order_events :: "order_event list"

definition order_row_err :: "Order \<Rightarrow> goerr option" where
  "order_row_err r =
     first_err [check (o_Status r \<in> {''pending'', ''confirmed'', ''cancelled'', ''failed''}),
       check (0 \<le> sint (o_TotalAmount r))]"

definition orders_schema :: "Order schema" where
  "orders_schema = \<lparr>row_err = order_row_err, uniq = (\<lambda>t. distinct (map o_ID t))\<rparr>"

definition item_row_err :: "OrderItem \<Rightarrow> goerr option" where
  "item_row_err r =
     first_err [pg_text (Some 255) (i_ProductName r), check (0 \<le> sint (i_UnitPrice r)),
       check (0 < sint (i_Quantity r))]"

definition items_schema :: "OrderItem schema" where
  "items_schema = \<lparr>row_err = item_row_err,
     uniq = (\<lambda>t. distinct (map i_ID t) \<and> distinct (map (\<lambda>r. (i_OrderID r, i_ProductID r)) t))\<rparr>"

lemma orders_schema_simps [simp]:
  "row_err orders_schema = order_row_err"
  "uniq orders_schema t = distinct (map o_ID t)"
  by (simp_all add: orders_schema_def)

lemma items_schema_simps [simp]:
  "row_err items_schema = item_row_err"
  "uniq items_schema t =
     (distinct (map i_ID t) \<and> distinct (map (\<lambda>r. (i_OrderID r, i_ProductID r)) t))"
  by (simp_all add: items_schema_def)

text \<open>
  The subtotal of every stored item is the exact product, which fits its column.
\<close>

definition order_db_ok :: "order_db \<Rightarrow> bool" where
  "order_db_ok d \<longleftrightarrow>
     tbl_wf orders_schema (orders d) \<and> tbl_wf items_schema (order_items d) \<and>
     (\<forall>r \<in> set (order_items d). sint (i_Subtotal r) = sint (i_UnitPrice r) * sint (i_Quantity r)) \<and>
     distinct (map oe_event_id (order_events d))"

definition on_orders ::
  "(Order list \<Rightarrow> (goerr + 'a) \<times> Order list) \<Rightarrow> order_db \<Rightarrow> (goerr + 'a) \<times> order_db" where
  "on_orders f d = (case f (orders d) of (r, t) \<Rightarrow> (r, d\<lparr>orders := t\<rparr>))"

definition on_items ::
  "(OrderItem list \<Rightarrow> (goerr + 'a) \<times> OrderItem list) \<Rightarrow> order_db \<Rightarrow> (goerr + 'a) \<times> order_db" where
  "on_items f d = (case f (order_items d) of (r, t) \<Rightarrow> (r, d\<lparr>order_items := t\<rparr>))"

definition on_order_events ::
  "(order_event list \<Rightarrow> (goerr + 'a) \<times> order_event list) \<Rightarrow> order_db \<Rightarrow> (goerr + 'a) \<times> order_db" where
  "on_order_events f d = (case f (order_events d) of (r, t) \<Rightarrow> (r, d\<lparr>order_events := t\<rparr>))"

type_synonym ('z, 'a) order_comp = "((order_db, message, 'z) env_scheme, 'a) comp"

section \<open>The order repository\<close>

record orders_cfg =
  returning :: "(uuid \<times> uuid \<times> i64 \<times> time) list \<Rightarrow> (uuid \<times> uuid \<times> i64 \<times> time) list"
  early_error :: bool

text \<open>
  The rows of \<open>INSERT INTO order_items\<close>: ids drawn for each, the generated subtotal, the time.
\<close>

fun item_rows :: "uuid \<Rightarrow> uuid list \<Rightarrow> time \<Rightarrow> OrderItem list \<Rightarrow> goerr + OrderItem list" where
  "item_rows oid ids now [] = Inr []"
| "item_rows oid (i # ids) now (item # items) =
     (case pg_int8 (sint (i_UnitPrice item) * sint (i_Quantity item)) of
        Inl e \<Rightarrow> Inl e
      | Inr sub \<Rightarrow>
         (let row = item\<lparr>i_ID := i, i_OrderID := oid, i_Subtotal := sub, i_CreatedAt := now\<rparr> in
          case item_row_err row of
            Some e \<Rightarrow> Inl e
          | None \<Rightarrow> map_sum id (\<lambda>rows. row # rows) (item_rows oid ids now items)))"
| "item_rows oid [] now (item # items) = Inl numeric_out_of_range"

definition insert_items ::
  "uuid \<Rightarrow> uuid list \<Rightarrow> time \<Rightarrow> OrderItem list \<Rightarrow> OrderItem list \<Rightarrow>
    (goerr + (uuid \<times> uuid \<times> i64 \<times> time) list) \<times> OrderItem list" where
  "insert_items oid ids now items t =
     (case item_rows oid ids now items of
        Inl e \<Rightarrow> (Inl e, t)
      | Inr rows \<Rightarrow>
          if uniq items_schema (t @ rows)
          then (Inr (map (\<lambda>r. (i_ID r, i_ProductID r, i_Subtotal r, i_CreatedAt r)) rows), t @ rows)
          else (Inl unique_violation, t))"

fun draw_uuids :: "nat \<Rightarrow> (('d, 'm, 'z) env_scheme, uuid list) comp" where
  "draw_uuids 0 = ret []"
| "draw_uuids (Suc n) = bindE uuid_New (\<lambda>u. bindE (draw_uuids n) (\<lambda>us. ret (u # us)))"

text \<open>\<open>itemIndexByProduct\<close>: the last index of each product.\<close>

definition itemIndexByProduct :: "OrderItem list \<Rightarrow> uuid \<Rightarrow> nat option" where
  "itemIndexByProduct items =
     foldl (\<lambda>m i. m(i_ProductID (items ! i) \<mapsto> i)) Map.empty [0..<length items]"

fun scan_items ::
  "(uuid \<Rightarrow> nat option) \<Rightarrow> (uuid \<times> uuid \<times> i64 \<times> time) list \<Rightarrow> OrderItem list \<Rightarrow> nat \<Rightarrow>
    goerr + OrderItem list \<times> nat" where
  "scan_items index [] items scanned = Inr (items, scanned)"
| "scan_items index ((itemID, productID, subtotal, createdAt) # rows) items scanned =
     (case index productID of
        None \<Rightarrow> Inl (New KindInternal ''returned product_id not found in original order items'')
      | Some idx \<Rightarrow>
          scan_items index rows
            (items[idx := (items ! idx)\<lparr>i_ID := itemID, i_Subtotal := subtotal, i_CreatedAt := createdAt\<rparr>])
            (scanned + 1))"

definition uniqueViolationCode :: string where
  "uniqueViolationCode = ''23505''"

text \<open>Which of the two error paths of the item statement a database error takes.\<close>

definition items_error :: "orders_cfg \<Rightarrow> goerr \<Rightarrow> goerr" where
  "items_error cfg err =
     (if early_error cfg then
        (if err = PgError uniqueViolationCode
         then New KindInvalidInput ''duplicate product in order items''
         else Wrap KindInternal (Some err) ''failed to insert order items'')
      else Wrap KindInternal (Some err) ''error iterating inserted order items'')"

text \<open>The loop over the returned rows, and its last check.\<close>

definition scan_returned ::
  "orders_cfg \<Rightarrow> Order \<Rightarrow> OrderItem list \<Rightarrow> (uuid \<times> uuid \<times> i64 \<times> time) list \<Rightarrow> ('s, Order) comp" where
  "scan_returned cfg row items rows =
     (case scan_items (itemIndexByProduct items) (returning cfg rows) items 0 of
        Inl err \<Rightarrow> fail err
      | Inr (items', scanned) \<Rightarrow>
          if scanned \<noteq> length items
          then fail (New KindInternal ''mismatch between inserted rows and order items count'')
          else ret (row\<lparr>o_Items := items'\<rparr>))"

lemma keeps_scan_returned [keeps_rules]: "keeps I (scan_returned cfg row items rows)"
  unfolding scan_returned_def by (intro keeps_rules)

text \<open>The transaction of \<open>Create\<close>.\<close>

definition create_order_tx :: "orders_cfg \<Rightarrow> Order \<Rightarrow> ('z, Order) order_comp" where
  "create_order_tx cfg ord =
     bindE time_Now (\<lambda>now.
     bindE uuid_New (\<lambda>oid.
     let row = \<lparr>o_ID = oid, o_UserID = o_UserID ord, o_Status = ''pending'',
                o_TotalAmount = o_TotalAmount ord, o_Items = [], o_CreatedAt = now, o_UpdatedAt = now\<rparr>;
         n = length (o_Items ord);
         items = map (\<lambda>item. item\<lparr>i_OrderID := oid\<rparr>) (o_Items ord) in
     bindE (wrapE KindInternal ''failed to insert order''
         (query (on_orders (sql_insert orders_schema row)))) (\<lambda>_.
     if 0 < n then
       bindE (draw_uuids n) (\<lambda>ids.
       bindS (query (on_items (insert_items oid ids now items))) (\<lambda>res. case res of
           Inl err \<Rightarrow> fail (items_error cfg err)
         | Inr rows \<Rightarrow> scan_returned cfg row items rows))
     else ret (row\<lparr>o_Items := items\<rparr>))))"

definition repo_order_Create :: "orders_cfg \<Rightarrow> Order option \<Rightarrow> ('z, Order) order_comp" where
  "repo_order_Create cfg ord =
     (case ord of
        None \<Rightarrow> fail (New KindInvalidInput ''order cannot be nil'')
      | Some ord \<Rightarrow>
         (case Order_Validate ord of
            Some err \<Rightarrow> fail err
          | None \<Rightarrow> WithTx True (Some (create_order_tx cfg (snd (CalculateTotal ord))))))"

definition repo_getItems :: "uuid \<Rightarrow> ('z, OrderItem list) order_comp" where
  "repo_getItems orderID =
     bindE (wrapE KindInternal ''failed to load order items''
         (query (\<lambda>d. (Inr (sort_key i_CreatedAt [r \<leftarrow> order_items d. i_OrderID r = orderID]), d))))
       (\<lambda>items. bindE (wrapE KindInternal ''error iterating order item rows'' (extern (ret ())))
         (\<lambda>_. ret items))"

definition repo_order_GetByID :: "uuid \<Rightarrow> ('z, Order) order_comp" where
  "repo_order_GetByID oid =
     bindS (query (\<lambda>d. (case tbl_get o_ID (orders d) oid of
         None \<Rightarrow> Inl ErrNoRows | Some ord \<Rightarrow> Inr ord, d)))
       (\<lambda>r. case r of
          Inl err \<Rightarrow> if errors_Is err ErrNoRows then fail (New KindNotFound ''order not found'')
                     else fail (Wrap KindInternal (Some err) ''failed to get order by id'')
        | Inr ord \<Rightarrow>
            bindE (repo_getItems oid) (\<lambda>items. ret (ord\<lparr>o_Items := items\<rparr>)))"

definition list_rows :: "uuid \<Rightarrow> int \<Rightarrow> int \<Rightarrow> Order list \<Rightarrow> Order list" where
  "list_rows userID limit offset t =
     take (nat limit) (drop (nat offset) (sort_key (\<lambda>r. - o_CreatedAt r) [r \<leftarrow> t. o_UserID r = userID]))"

definition repo_ListByUser :: "uuid \<Rightarrow> int \<Rightarrow> int \<Rightarrow> ('z, Order list) order_comp" where
  "repo_ListByUser userID limit offset =
     (let limit = (if limit \<le> 0 then 20 else limit);
          offset = (if offset < 0 then 0 else offset) in
      bindE (wrapE KindInternal ''failed to list orders by user''
          (query (\<lambda>d. (Inr (list_rows userID limit offset (orders d)), d))))
        (\<lambda>rows. bindE (wrapE KindInternal ''error iterating order rows'' (extern (ret ())))
          (\<lambda>_. ret rows)))"

definition status_where :: "uuid \<Rightarrow> Order \<Rightarrow> bool" where
  "status_where oid r \<longleftrightarrow> o_ID r = oid \<and> o_Status r = OrderStatusPending"

definition status_set :: "string \<Rightarrow> time \<Rightarrow> Order \<Rightarrow> goerr + Order" where
  "status_set next now r = Inr (r\<lparr>o_Status := next, o_UpdatedAt := now\<rparr>)"

definition repo_UpdateStatus :: "uuid \<Rightarrow> string \<Rightarrow> ('z, unit) order_comp" where
  "repo_UpdateStatus oid next =
     bindE time_Now (\<lambda>now.
       bindE (wrapE KindInternal ''failed to update order status''
           (query (on_orders (sql_update orders_schema (status_where oid) (status_set next now)))))
         (\<lambda>n. if n = 0 then fail (New KindAlreadyExists ''order is not in a pending state'')
              else ret ()))"

section \<open>The event repository\<close>

definition order_event_err :: "order_event \<Rightarrow> goerr option" where
  "order_event_err e = pg_text (Some 100) (oe_event_type e)"

definition order_MarkProcessed ::
  "uuid \<Rightarrow> string \<Rightarrow> uuid option \<Rightarrow> uuid option \<Rightarrow> ('z, bool) order_comp" where
  "order_MarkProcessed eventID eventType orderID paymentID =
     bindE (wrapE KindInternal ''failed to record processed event''
         (query (on_order_events (sql_inbox oe_event_id order_event_err
            \<lparr>oe_event_id = eventID, oe_event_type = eventType, oe_order_id = orderID,
             oe_payment_id = paymentID\<rparr>))))
       (\<lambda>n. ret (n = 0))"

interpretation ost: keyed_update o_ID orders_schema oid "status_where oid" "status_set next now"
  for oid "next" now
  by unfold_locales (auto simp: status_where_def status_set_def)

section \<open>The table invariant\<close>

lemma item_rows_ok:
  assumes "item_rows oid ids now items = Inr rows"
  shows "map i_ProductID rows = map i_ProductID items \<and> map i_Quantity rows = map i_Quantity items \<and>
    map i_UnitPrice rows = map i_UnitPrice items \<and>
    (\<forall>r \<in> set rows. item_row_err r = None \<and> i_OrderID r = oid \<and> i_CreatedAt r = now \<and>
       sint (i_Subtotal r) = sint (i_UnitPrice r) * sint (i_Quantity r))"
  using assms
proof (induction items arbitrary: ids rows)
  case Nil
  then show ?case by simp
next
  case (Cons item items)
  then obtain i us where ids: "ids = i # us" by (cases ids) auto
  let ?row = "\<lambda>sub. item\<lparr>i_ID := i, i_OrderID := oid, i_Subtotal := sub, i_CreatedAt := now\<rparr>"
  from Cons.prems ids obtain sub rest where
    "pg_int8 (sint (i_UnitPrice item) * sint (i_Quantity item)) = Inr sub"
    "item_row_err (?row sub) = None" "item_rows oid us now items = Inr rest" "rows = ?row sub # rest"
    by (auto simp: Let_def map_sum_Inr_iff split: sum.splits option.splits)
  with Cons.IH [of us rest] show ?case
    by (auto dest: pg_int8_Inr)
qed

lemma insert_items_ok:
  assumes "order_db_ok d"
  shows "order_db_ok (snd (on_items (insert_items oid ids now items) d))"
proof (cases "item_rows oid ids now items")
  case (Inl e)
  with assms show ?thesis by (simp add: on_items_def insert_items_def)
next
  case (Inr rows)
  with assms item_rows_ok [OF Inr] show ?thesis
    by (auto simp: on_items_def insert_items_def order_db_ok_def tbl_wf_def)
qed

lemma on_orders_ok:
  assumes "order_db_ok d"
  shows "order_db_ok (snd (on_orders (sql_update orders_schema P f) d))"
    and "order_db_ok (snd (on_orders (sql_insert orders_schema r) d))"
  using assms sql_update_wf [of orders_schema "orders d" P f] sql_insert_wf [of orders_schema "orders d" r]
  by (auto simp: on_orders_def order_db_ok_def split: prod.splits)

lemma keeps_orders_update [keeps_rules]:
  "keeps_db order_db_ok (query (on_orders (sql_update orders_schema P f)))"
  by (rule keeps_query) (rule on_orders_ok)

lemma keeps_orders_insert [keeps_rules]:
  "keeps_db order_db_ok (query (on_orders (sql_insert orders_schema r)))"
  by (rule keeps_query) (rule on_orders_ok)

lemma keeps_items_insert [keeps_rules]:
  "keeps_db order_db_ok (query (on_items (insert_items oid ids now items)))"
  by (rule keeps_query) (rule insert_items_ok)

lemma keeps_draw_uuids [keeps_rules]:
  "keeps_db J (draw_uuids n)" "keeps healthy (draw_uuids n)"
proof (induction n)
  case 0
  { case 1 show ?case by (simp add: keeps_rules) next case 2 show ?case by (simp add: keeps_rules) }
next
  case (Suc n)
  { case 1 show ?case using Suc unfolding draw_uuids.simps by (intro keeps_rules)
  next case 2 show ?case using Suc unfolding draw_uuids.simps by (intro keeps_rules) }
qed

lemma keeps_query_read [keeps_rules]: "keeps_db J (query (\<lambda>d. (f d, d)))"
  by (rule keeps_query) simp

lemma keeps_repo_order_Create [keeps_rules]: "keeps_db order_db_ok (repo_order_Create cfg ord)"
  unfolding repo_order_Create_def create_order_tx_def Let_def by (intro keeps_rules)

lemma keeps_repo_order_reads [keeps_rules]:
  "keeps_db J (repo_getItems oid)" "keeps_db J (repo_order_GetByID oid)"
  "keeps_db J (repo_ListByUser u l off)"
  unfolding repo_getItems_def repo_order_GetByID_def repo_ListByUser_def by (intro keeps_rules)+

lemma keeps_repo_UpdateStatus [keeps_rules]: "keeps_db order_db_ok (repo_UpdateStatus oid nxt)"
  unfolding repo_UpdateStatus_def by (intro keeps_rules)

end
