(* ===== verification/OrderService.thy ===== *)
theory OrderService
  imports Order ProductService
begin

text \<open>
  The order service above its repository: the client of the product service
  (\<open>internal/client/product.go\<close>), the publisher and the payment consumer of \<open>internal/messaging\<close>,
  \<open>internal/service\<close> (\<open>order.go\<close>, \<open>helper.go\<close>, \<open>mapper.go\<close>) and \<open>internal/handler/order.go\<close>.

  The remote product service is \<open>product_stub\<close>, three functions on a state \<open>remote\<close> of its own; a
  call to it is external and may be lost before or after it took effect, like every other. The
  goroutines' context and its deadlines are these failures. \<open>order_svc\<close> is what the service is built
  with.
\<close>

section \<open>The product client\<close>

record 'r product_stub =
  stub_GetProduct :: "string \<Rightarrow> 'r \<Rightarrow> (goerr + pb_Product) \<times> 'r"
  stub_GetProductsByIDs :: "string list \<Rightarrow> 'r \<Rightarrow> (goerr + pb_Product list) \<times> 'r"
  stub_ReserveStock :: "StockRequest \<Rightarrow> 'r \<Rightarrow> (goerr + unit) \<times> 'r"

record 'r order_svc =
  os_ul :: uuid_lib
  os_status :: status_lib
  os_json :: event_json
  os_publisher :: "Publisher option"
  os_cfg :: orders_cfg
  os_stub :: "'r product_stub"

type_synonym ('r, 'z, 'a) os_comp = "((order_db, message, 'r, 'z) renv_scheme, 'a) comp"

definition client_call ::
  "'r order_svc \<Rightarrow> ('r \<Rightarrow> (goerr + 'a) \<times> 'r) \<Rightarrow> ('r, 'z, 'a) os_comp" where
  "client_call c m =
     bindS (extern (on_remote m)) (\<lambda>r. case r of
        Inl err \<Rightarrow> (case ToAppError (os_status c) (Some err) of Some e \<Rightarrow> fail e | None \<Rightarrow> fail err)
      | Inr x \<Rightarrow> ret x)"

definition client_GetProduct :: "'r order_svc \<Rightarrow> string \<Rightarrow> ('r, 'z, pb_Product) os_comp" where
  "client_GetProduct c productID = client_call c (stub_GetProduct (os_stub c) productID)"

definition client_GetProductsByIDs ::
  "'r order_svc \<Rightarrow> string list \<Rightarrow> ('r, 'z, pb_Product list) os_comp" where
  "client_GetProductsByIDs c productIDs =
     (if length productIDs = 0 then ret []
      else client_call c (stub_GetProductsByIDs (os_stub c) productIDs))"

definition client_ReserveStock :: "'r order_svc \<Rightarrow> string \<Rightarrow> i32 \<Rightarrow> ('r, 'z, unit) os_comp" where
  "client_ReserveStock c productID quantity =
     client_call c (stub_ReserveStock (os_stub c) \<lparr>rq_ProductId = productID, rq_Quantity = quantity\<rparr>)"

section \<open>The publisher\<close>

definition PublishOrderCreated :: "'r order_svc \<Rightarrow> Order option \<Rightarrow> ('r, 'z, unit) os_comp" where
  "PublishOrderCreated c ord =
     (case ord of
        None \<Rightarrow> fail (New KindInvalidInput ''order cannot be nil'')
      | Some ord \<Rightarrow>
          let items = map (\<lambda>item. \<lparr>oci_ProductID = i_ProductID item, oci_Quantity = i_Quantity item,
                oci_UnitPrice = i_UnitPrice item\<rparr>) (o_Items ord) in
          bindE uuid_New (\<lambda>eid.
            Publish (os_json c) (os_publisher c) RoutingKeyOrderCreated (EvOrderCreated
              \<lparr>oc_EventID = eid, oc_OrderID = o_ID ord, oc_UserID = o_UserID ord,
               oc_TotalAmount = o_TotalAmount ord, oc_Items = items, oc_CreatedAt = o_CreatedAt ord\<rparr>)))"

definition PublishStockReleaseRequested ::
  "'r order_svc \<Rightarrow> uuid \<Rightarrow> i32 \<Rightarrow> string \<Rightarrow> ('r, 'z, unit) os_comp" where
  "PublishStockReleaseRequested c productID quantity reason =
     bindE uuid_New (\<lambda>eid. bindE time_Now (\<lambda>now.
       Publish (os_json c) (os_publisher c) RoutingKeyStockReleaseRequested (EvStockRelease
         \<lparr>sr_EventID = eid, sr_OrderID = uuid_Nil, sr_ProductID = productID, sr_Quantity = quantity,
          sr_Reason = reason, sr_RequestedAt = now\<rparr>)))"

definition PublishStockConfirmRequested ::
  "'r order_svc \<Rightarrow> uuid \<Rightarrow> uuid \<Rightarrow> i32 \<Rightarrow> ('r, 'z, unit) os_comp" where
  "PublishStockConfirmRequested c orderID productID quantity =
     bindE uuid_New (\<lambda>eid. bindE time_Now (\<lambda>now.
       Publish (os_json c) (os_publisher c) RoutingKeyStockConfirmRequested (EvStockConfirm
         \<lparr>sc_EventID = eid, sc_OrderID = orderID, sc_ProductID = productID, sc_Quantity = quantity,
          sc_RequestedAt = now\<rparr>)))"

section \<open>The service\<close>

record CreateOrderItemRequest =
  ci_ProductId :: string
  ci_Quantity :: i32

record pb_OrderItem =
  pbi_ProductId :: string
  pbi_ProductName :: string
  pbi_UnitPrice :: i64
  pbi_Quantity :: i32
  pbi_Subtotal :: i64

record pb_Order =
  pbo_Id :: string
  pbo_UserId :: string
  pbo_Status :: string
  pbo_TotalAmount :: i64
  pbo_Items :: "pb_OrderItem list"
  pbo_CreatedAt :: time
  pbo_UpdatedAt :: time

definition toProtoOrderItems :: "uuid_lib \<Rightarrow> OrderItem list \<Rightarrow> pb_OrderItem list" where
  "toProtoOrderItems u items =
     map (\<lambda>item. \<lparr>pbi_ProductId = uuid_String u (i_ProductID item), pbi_ProductName = i_ProductName item,
       pbi_UnitPrice = i_UnitPrice item, pbi_Quantity = i_Quantity item,
       pbi_Subtotal = i_Subtotal item\<rparr>) items"

definition toProtoOrder :: "uuid_lib \<Rightarrow> Order \<Rightarrow> pb_Order" where
  "toProtoOrder u ord =
     \<lparr>pbo_Id = uuid_String u (o_ID ord), pbo_UserId = uuid_String u (o_UserID ord),
      pbo_Status = o_Status ord, pbo_TotalAmount = o_TotalAmount ord,
      pbo_Items = toProtoOrderItems u (o_Items ord),
      pbo_CreatedAt = o_CreatedAt ord, pbo_UpdatedAt = o_UpdatedAt ord\<rparr>"

definition toProtoOrderList :: "uuid_lib \<Rightarrow> Order list \<Rightarrow> pb_Order list" where
  "toProtoOrderList u os = map (toProtoOrder u) os"

definition requireAuthenticated :: "reqctx \<Rightarrow> ('s, AccessClaims) comp" where
  "requireAuthenticated ctx =
     (case ClaimsFromContext ctx of
        None \<Rightarrow> fail (New KindUnauthenticated ''authentication required'')
      | Some claims \<Rightarrow> ret claims)"

definition parseOrderID :: "uuid_lib \<Rightarrow> string \<Rightarrow> ('s, uuid) comp" where
  "parseOrderID u s =
     (case uuid_Parse u s of
        None \<Rightarrow> fail (New KindInvalidInput ''invalid order id'')
      | Some parsed \<Rightarrow> ret parsed)"

text \<open>The first loop of \<open>buildOrderItems\<close>: check the request's items and collect their ids.\<close>

fun check_request_items ::
  "uuid_lib \<Rightarrow> CreateOrderItemRequest option list \<Rightarrow> string list \<Rightarrow> goerr + string list" where
  "check_request_items u [] productIDs = Inr productIDs"
| "check_request_items u (None # reqs) productIDs = Inl (New KindInvalidInput ''order item is nil'')"
| "check_request_items u (Some reqItem # reqs) productIDs =
     (if sint (ci_Quantity reqItem) \<le> 0
      then Inl (New KindInvalidInput ''item quantity must be greater than zero'')
      else case uuid_Parse u (ci_ProductId reqItem) of
          None \<Rightarrow> Inl (New KindInvalidInput (''invalid product id: '' @ ci_ProductId reqItem))
        | Some _ \<Rightarrow> check_request_items u reqs (productIDs @ [ci_ProductId reqItem]))"

definition productMap :: "pb_Product list \<Rightarrow> string \<Rightarrow> (string \<times> i64 \<times> bool) option" where
  "productMap ps = foldl (\<lambda>m p. m(pb_Id p \<mapsto> (pb_Name p, pb_Price p, pb_IsActive p))) Map.empty ps"

text \<open>The last loop: \<open>MustParse\<close> of an id that was checked; the zero fields are \<open>new_item\<close>'s.\<close>

definition new_item :: OrderItem where
  "new_item = \<lparr>i_ID = uuid_Nil, i_OrderID = uuid_Nil, i_ProductID = uuid_Nil, i_ProductName = '''',
     i_UnitPrice = 0, i_Quantity = 0, i_Subtotal = 0, i_CreatedAt = 0\<rparr>"

fun make_items ::
  "uuid_lib \<Rightarrow> (string \<Rightarrow> (string \<times> i64 \<times> bool) option) \<Rightarrow> CreateOrderItemRequest option list \<Rightarrow>
    OrderItem list \<Rightarrow> goerr + OrderItem list" where
  "make_items u m [] items = Inr items"
| "make_items u m (None # reqs) items = Inl (New KindInvalidInput ''order item is nil'')"
| "make_items u m (Some reqItem # reqs) items =
     (case m (ci_ProductId reqItem) of
        None \<Rightarrow> Inl (New KindNotFound (''product not found: '' @ ci_ProductId reqItem))
      | Some (name, price, active) \<Rightarrow>
          if \<not> active then Inl (New KindInvalidInput (''product is not active: '' @ name))
          else make_items u m reqs (items @ [new_item\<lparr>
            i_ProductID := (case uuid_Parse u (ci_ProductId reqItem) of Some i \<Rightarrow> i | None \<Rightarrow> uuid_Nil),
            i_ProductName := name, i_UnitPrice := price, i_Quantity := ci_Quantity reqItem,
            i_Subtotal := word_of_int (sint (ci_Quantity reqItem)) * price\<rparr>]))"

definition buildOrderItems ::
  "'r order_svc \<Rightarrow> CreateOrderItemRequest option list \<Rightarrow> ('r, 'z, OrderItem list) os_comp" where
  "buildOrderItems c reqItems =
     (if length reqItems = 0
      then fail (New KindInvalidInput ''order must contain at least one item'')
      else bindE (of_sum (check_request_items (os_ul c) reqItems [])) (\<lambda>productIDs.
           bindE (client_GetProductsByIDs c productIDs) (\<lambda>products.
             of_sum (make_items (os_ul c) (productMap products) reqItems []))))"

fun compensate_loop :: "'r order_svc \<Rightarrow> OrderItem list \<Rightarrow> string \<Rightarrow> ('r, 'z, unit) os_comp" where
  "compensate_loop c [] reason = ret ()"
| "compensate_loop c (item # items) reason =
     bindS (PublishStockReleaseRequested c (i_ProductID item) (i_Quantity item) reason)
       (\<lambda>_. compensate_loop c items reason)"

definition compensateReservations ::
  "'r order_svc \<Rightarrow> OrderItem list \<Rightarrow> string \<Rightarrow> ('r, 'z, unit) os_comp" where
  "compensateReservations c items reason =
     (if length items = 0 then ret () else compensate_loop c items reason)"

fun reserve_loop ::
  "'r order_svc \<Rightarrow> OrderItem list \<Rightarrow> OrderItem list \<Rightarrow> ('r, 'z, OrderItem list) os_comp" where
  "reserve_loop c [] reservedItems = ret reservedItems"
| "reserve_loop c (item # items) reservedItems =
     bindS (client_ReserveStock c (uuid_String (os_ul c) (i_ProductID item)) (i_Quantity item))
       (\<lambda>r. case r of
          Inl err \<Rightarrow> bindS (compensateReservations c reservedItems ''reservation_failed'') (\<lambda>_. fail err)
        | Inr _ \<Rightarrow> reserve_loop c items (reservedItems @ [item]))"

definition reserveItems :: "'r order_svc \<Rightarrow> OrderItem list \<Rightarrow> ('r, 'z, OrderItem list) os_comp" where
  "reserveItems c items = reserve_loop c items []"

definition CreateOrder ::
  "'r order_svc \<Rightarrow> reqctx \<Rightarrow> CreateOrderItemRequest option list option \<Rightarrow> ('r, 'z, pb_Order) os_comp" where
  "CreateOrder c ctx req =
     (case req of
        None \<Rightarrow> fail (New KindInvalidInput ''order must contain at least one item'')
      | Some reqItems \<Rightarrow>
          if length reqItems = 0
          then fail (New KindInvalidInput ''order must contain at least one item'')
          else
          bindE (requireAuthenticated ctx) (\<lambda>claims.
          case uuid_Parse (os_ul c) (UserID claims) of
            None \<Rightarrow> fail (New KindInternal ''invalid user id in token claims'')
          | Some userID \<Rightarrow>
          bindE (buildOrderItems c reqItems) (\<lambda>items.
          bindE (reserveItems c items) (\<lambda>reservedItems.
          let ord0 = \<lparr>o_ID = uuid_Nil, o_UserID = userID, o_Status = '''', o_TotalAmount = 0,
                      o_Items = items, o_CreatedAt = 0, o_UpdatedAt = 0\<rparr>;
              ord = (case CalculateTotal ord0 of (amount, o1) \<Rightarrow> o1\<lparr>o_TotalAmount := amount\<rparr>) in
          bindS (repo_order_Create (os_cfg c) (Some ord)) (\<lambda>created. case created of
              Inl err \<Rightarrow>
                bindS (compensateReservations c reservedItems ''order_persist_failed'') (\<lambda>_. fail err)
            | Inr ord' \<Rightarrow>
                bindS (PublishOrderCreated c (Some ord')) (\<lambda>published. case published of
                    Inl err \<Rightarrow>
                      bindS (compensateReservations c reservedItems ''publish_failed'') (\<lambda>_.
                      bindS (repo_UpdateStatus (o_ID ord') OrderStatusFailed) (\<lambda>_.
                        fail (New KindInternal ''failed to start order processing'')))
                  | Inr _ \<Rightarrow> ret (toProtoOrder (os_ul c) ord')))))))"

definition GetOrder :: "'r order_svc \<Rightarrow> reqctx \<Rightarrow> string option \<Rightarrow> ('r, 'z, pb_Order) os_comp" where
  "GetOrder c ctx req =
     (case req of
        None \<Rightarrow> fail (New KindInvalidInput ''get order request is nil'')
      | Some req_Id \<Rightarrow>
          bindE (requireAuthenticated ctx) (\<lambda>claims.
          bindE (parseOrderID (os_ul c) req_Id) (\<lambda>oid.
          bindE (repo_order_GetByID oid) (\<lambda>ord.
            if uuid_String (os_ul c) (o_UserID ord) \<noteq> UserID claims \<and> Role claims \<noteq> roleAdmin
            then fail (New KindPermissionDenied ''you cannot view this order'')
            else ret (toProtoOrder (os_ul c) ord)))))"

definition ListMyOrders ::
  "'r order_svc \<Rightarrow> reqctx \<Rightarrow> (i32 \<times> i32) option \<Rightarrow> ('r, 'z, pb_Order list) os_comp" where
  "ListMyOrders c ctx req =
     bindE (requireAuthenticated ctx) (\<lambda>claims.
       case uuid_Parse (os_ul c) (UserID claims) of
         None \<Rightarrow> fail (New KindInternal ''invalid user id in token claims'')
       | Some userID \<Rightarrow>
          let limit = (case req of Some (l, _) \<Rightarrow> if 0 < sint l then sint l else 20 | None \<Rightarrow> 20);
              offset = (case req of Some (_, off) \<Rightarrow> sint off | None \<Rightarrow> 0) in
          bindE (repo_ListByUser userID limit offset) (\<lambda>os. ret (toProtoOrderList (os_ul c) os)))"

section \<open>The payment consumer\<close>

text \<open>\<open>UpdateStatus\<close> with the error of an order that is no longer pending passed over.\<close>

definition advance_status :: "uuid \<Rightarrow> string \<Rightarrow> string \<Rightarrow> ('r, 'z, unit) os_comp" where
  "advance_status oid next msg =
     bindS (repo_UpdateStatus oid next) (\<lambda>r. case r of
        Inl err \<Rightarrow> if GetKind (Some err) = KindAlreadyExists then ret ()
                   else fail (Wrap KindInternal (Some err) msg)
      | Inr _ \<Rightarrow> ret ())"

fun confirm_items :: "'r order_svc \<Rightarrow> uuid \<Rightarrow> OrderItem list \<Rightarrow> ('r, 'z, unit) os_comp" where
  "confirm_items c oid [] = ret ()"
| "confirm_items c oid (item # items) =
     bindE (wrapE KindInternal ''failed to publish stock confirm requested event''
         (PublishStockConfirmRequested c oid (i_ProductID item) (i_Quantity item)))
       (\<lambda>_. confirm_items c oid items)"

definition handlePaymentSucceeded :: "'r order_svc \<Rightarrow> PaymentCompleted \<Rightarrow> ('r, 'z, unit) os_comp" where
  "handlePaymentSucceeded c event =
     bindE (advance_status (pc_OrderID event) OrderStatusConfirmed
         ''failed to update order status to confirmed'') (\<lambda>_.
     bindE (wrapE KindInternal ''failed to fetch order details for stock confirmation''
         (repo_order_GetByID (pc_OrderID event))) (\<lambda>ord.
       confirm_items c (o_ID ord) (o_Items ord)))"

fun release_items :: "'r order_svc \<Rightarrow> OrderItem list \<Rightarrow> ('r, 'z, unit) os_comp" where
  "release_items c [] = ret ()"
| "release_items c (item # items) =
     bindE (wrapE KindInternal ''failed to publish stock release requested event''
         (PublishStockReleaseRequested c (i_ProductID item) (i_Quantity item) ''payment_failed''))
       (\<lambda>_. release_items c items)"

definition handlePaymentFailed :: "'r order_svc \<Rightarrow> PaymentFailed \<Rightarrow> ('r, 'z, unit) os_comp" where
  "handlePaymentFailed c event =
     bindE (advance_status (pf_OrderID event) OrderStatusCancelled
         ''failed to update order status to cancelled'') (\<lambda>_.
     bindE (wrapE KindInternal ''failed to fetch order details for stock release''
         (repo_order_GetByID (pf_OrderID event))) (\<lambda>ord.
       release_items c (o_Items ord)))"

text \<open>The handlers \<open>StartListening\<close> gives to the two queues.\<close>

definition on_payment_completed :: "'r order_svc \<Rightarrow> string \<Rightarrow> ('r, 'z, unit) os_comp" where
  "on_payment_completed c body =
     (case UnmarshalPaymentCompleted (os_json c) body of
        Inl err \<Rightarrow> fail (Wrap KindInvalidInput (Some err) ''failed to unmarshal PaymentCompleted event'')
      | Inr event \<Rightarrow> handlePaymentSucceeded c event)"

definition on_payment_failed :: "'r order_svc \<Rightarrow> string \<Rightarrow> ('r, 'z, unit) os_comp" where
  "on_payment_failed c body =
     (case UnmarshalPaymentFailed (os_json c) body of
        Inl err \<Rightarrow> fail (Wrap KindInvalidInput (Some err) ''failed to unmarshal PaymentFailed event'')
      | Inr event \<Rightarrow> handlePaymentFailed c event)"

section \<open>The gRPC handlers\<close>

definition order_domain :: string where
  "order_domain = ''order-service''"

definition grpc_CreateOrder where
  "grpc_CreateOrder c ctx req = grpc_answer (os_status c) order_domain (CreateOrder c ctx req)"

definition grpc_GetOrder where
  "grpc_GetOrder c ctx req = grpc_answer (os_status c) order_domain (GetOrder c ctx req)"

definition grpc_ListMyOrders where
  "grpc_ListMyOrders c ctx req = grpc_answer (os_status c) order_domain (ListMyOrders c ctx req)"

end
