(* ===== verification/OrderProps.thy ===== *)
theory OrderProps
  imports OrderService "HOL-Library.Sublist"
begin

text \<open>
  What the order service guarantees: the table invariant and the life of an order, what a request
  to create an order leaves behind when it is refused, who can see an order, and what the payment
  consumer publishes. The product service is seen through the locale \<open>product_port\<close>, which is
  interpreted on the product service's own handlers in theory \<open>Saga\<close>.
\<close>

section \<open>The table invariant\<close>

lemma keeps_client [keeps_rules]:
  "keeps_db J (client_call c m)"
  "keeps_db J (client_GetProductsByIDs c ids)"
  "keeps_db J (client_ReserveStock c p q)"
  unfolding client_GetProductsByIDs_def client_ReserveStock_def client_call_def
  by (intro keeps_rules)+

lemma keeps_publishers [keeps_rules]:
  "keeps_db J (PublishOrderCreated c oo)"
  "keeps_db J (PublishStockReleaseRequested c p q reason)"
  "keeps_db J (PublishStockConfirmRequested c oid p q)"
  unfolding PublishOrderCreated_def PublishStockReleaseRequested_def PublishStockConfirmRequested_def
    Let_def
  by (intro keeps_rules)+

lemma keeps_compensate_loop [keeps_rules]: "keeps_db J (compensate_loop c items reason)"
proof (induction items)
  case Nil
  then show ?case by (simp add: keeps_rules)
next
  case (Cons item items)
  then show ?case unfolding compensate_loop.simps by (intro keeps_rules)
qed

lemma keeps_compensate [keeps_rules]: "keeps_db J (compensateReservations c items reason)"
  unfolding compensateReservations_def by (intro keeps_rules)

lemma keeps_reserve_loop [keeps_rules]: "keeps_db J (reserve_loop c items res)"
proof (induction items arbitrary: res)
  case Nil
  then show ?case by (simp add: keeps_rules)
next
  case (Cons item items)
  then show ?case unfolding reserve_loop.simps by (intro keeps_rules)
qed

lemma keeps_buildOrderItems [keeps_rules]: "keeps_db J (buildOrderItems c reqs)"
  unfolding buildOrderItems_def by (intro keeps_rules)

lemma keeps_requireAuthenticated [keeps_rules]: "keeps I (requireAuthenticated ctx)"
  unfolding requireAuthenticated_def by (intro keeps_rules)

lemma keeps_parseOrderID [keeps_rules]: "keeps I (parseOrderID u i)"
  unfolding parseOrderID_def by (intro keeps_rules)

lemma keeps_CreateOrder: "keeps_db order_db_ok (CreateOrder c ctx req)"
  unfolding CreateOrder_def reserveItems_def Let_def by (intro keeps_rules)

lemma keeps_order_reads: "keeps_db J (GetOrder c ctx gr)" "keeps_db J (ListMyOrders c ctx lr)"
  unfolding GetOrder_def ListMyOrders_def Let_def by (intro keeps_rules)+

lemma keeps_confirm_items [keeps_rules]: "keeps_db J (confirm_items c oid items)"
proof (induction items)
  case Nil
  then show ?case by (simp add: keeps_rules)
next
  case (Cons item items)
  then show ?case unfolding confirm_items.simps by (intro keeps_rules)
qed

lemma keeps_release_items [keeps_rules]: "keeps_db J (release_items c items)"
proof (induction items)
  case Nil
  then show ?case by (simp add: keeps_rules)
next
  case (Cons item items)
  then show ?case unfolding release_items.simps by (intro keeps_rules)
qed

lemma keeps_order_consumers:
  "keeps_db order_db_ok (on_payment_completed c body)"
  "keeps_db order_db_ok (on_payment_failed c body)"
  unfolding on_payment_completed_def on_payment_failed_def handlePaymentSucceeded_def
    handlePaymentFailed_def advance_status_def
  by (intro keeps_rules)+

section \<open>Publishing and reserving\<close>

text \<open>The stock releases among the messages on the bus, as product ids and quantities.\<close>

fun released :: "uuid_lib \<Rightarrow> message list \<Rightarrow> (string \<times> i32) list" where
  "released u [] = []"
| "released u ((k, EvStockRelease e) # ms) = (uuid_String u (sr_ProductID e), sr_Quantity e) # released u ms"
| "released u (m # ms) = released u ms"

lemma released_append [simp]: "released u (ms @ ns) = released u ms @ released u ns"
  by (induction u ms rule: released.induct) auto

definition item_key :: "uuid_lib \<Rightarrow> OrderItem \<Rightarrow> string \<times> i32" where
  "item_key u item = (uuid_String u (i_ProductID item), i_Quantity item)"

text \<open>The publisher has a channel and every payload can be marshalled.\<close>

definition publisher_ready :: "'r order_svc \<Rightarrow> bool" where
  "publisher_ready c \<longleftrightarrow> (\<exists>p. os_publisher c = Some p \<and> channel_ok p) \<and>
     (\<forall>ev. \<exists>b. Marshal (os_json c) ev = Inr b)"

lemma Publish_ok:
  assumes "healthy s" and "p = Some p'" and "channel_ok p'" and "rk \<noteq> ''''" and "Marshal js ev = Inr b"
  shows "Publish js p rk ev s = (Inr (), s\<lparr>calls := calls s + 2, bus := bus s @ [(rk, ev)]\<rparr>)"
  using assms
  by (simp add: Publish_def send_def extern_healthy bindE_def bindS_def wrapE_def ret_def)

text \<open>
  \<open>on_bus L s s'\<close>: the step published messages whose releases are \<open>L\<close>, and did nothing else that the
  order service can see.
\<close>

definition on_bus ::
  "uuid_lib \<Rightarrow> (string \<times> i32) list \<Rightarrow> ('d, message, 'r, 'z) renv_scheme \<Rightarrow>
    ('d, message, 'r, 'z) renv_scheme \<Rightarrow> bool" where
  "on_bus u L s s' \<longleftrightarrow> released u (bus s') = released u (bus s) @ L \<and>
     db s' = db s \<and> remote s' = remote s \<and> faults s' = faults s"

lemma on_bus_trans: "on_bus u L s s1 \<Longrightarrow> on_bus u M s1 s2 \<Longrightarrow> on_bus u (L @ M) s s2"
  by (simp add: on_bus_def)

lemma on_bus_healthy: "on_bus u L s s' \<Longrightarrow> healthy s' = healthy s"
  by (simp add: on_bus_def healthy_def)

lemma PublishStockRelease_cases:
  assumes "PublishStockReleaseRequested c p q reason s = (r, s')"
  shows "\<exists>L. on_bus (os_ul c) L s s' \<and> subseq L [(uuid_String (os_ul c) p, q)] \<and>
    (healthy s \<and> publisher_ready c \<longrightarrow> L = [(uuid_String (os_ul c) p, q)])"
proof -
  let ?s1 = "s\<lparr>gens := gens s + 1, ticks := ticks s + 1\<rparr>"
  let ?ev = "EvStockRelease \<lparr>sr_EventID = gen s (gens s), sr_OrderID = uuid_Nil, sr_ProductID = p,
      sr_Quantity = q, sr_Reason = reason, sr_RequestedAt = clock s (ticks s)\<rparr>"
  have run: "Publish (os_json c) (os_publisher c) RoutingKeyStockReleaseRequested ?ev ?s1 = (r, s')"
    using assms by (simp add: PublishStockReleaseRequested_def bindE_def bindS_def uuid_New_def time_Now_def)
  have ready: "s' = ?s1\<lparr>calls := calls s + 2, bus := bus s @ [(RoutingKeyStockReleaseRequested, ?ev)]\<rparr>"
    if "healthy s" "publisher_ready c"
  proof -
    from that(2) obtain p' b where "os_publisher c = Some p'" "channel_ok p'" "Marshal (os_json c) ?ev = Inr b"
      unfolding publisher_ready_def by blast
    from Publish_ok [OF _ this(1,2) _ this(3), of ?s1] that(1) run show ?thesis
      by (simp add: RoutingKeyStockReleaseRequested_def)
  qed
  show ?thesis
  proof (cases "healthy s \<and> publisher_ready c")
    case True
    with ready show ?thesis
      by (auto simp: on_bus_def)
  next
    case False
    from Publish_cases [OF run] have "only_bus [] ?s1 s' \<or> only_bus [(RoutingKeyStockReleaseRequested, ?ev)] ?s1 s'"
      by blast
    then have "on_bus (os_ul c) [] s s' \<or> on_bus (os_ul c) [(uuid_String (os_ul c) p, q)] s s'"
      by (auto simp: only_bus_def on_bus_def)
    with False show ?thesis by auto
  qed
qed

lemma compensate_loop_cases:
  assumes "compensate_loop c items reason s = (r, s')"
  shows "\<exists>L. on_bus (os_ul c) L s s' \<and> subseq L (map (item_key (os_ul c)) items) \<and>
    (healthy s \<and> publisher_ready c \<longrightarrow> L = map (item_key (os_ul c)) items)"
  using assms
proof (induction items arbitrary: s)
  case Nil
  then show ?case by (auto simp: ret_def on_bus_def)
next
  case (Cons item items)
  obtain x s1 where pub: "PublishStockReleaseRequested c (i_ProductID item) (i_Quantity item) reason s = (x, s1)"
    by (cases "PublishStockReleaseRequested c (i_ProductID item) (i_Quantity item) reason s")
  with Cons.prems have rest: "compensate_loop c items reason s1 = (r, s')" by (simp add: bindS_def)
  from PublishStockRelease_cases [OF pub] obtain L where
    L: "on_bus (os_ul c) L s s1" "subseq L [item_key (os_ul c) item]"
      "healthy s \<and> publisher_ready c \<longrightarrow> L = [item_key (os_ul c) item]"
    by (auto simp: item_key_def)
  from Cons.IH [OF rest] obtain M where
    M: "on_bus (os_ul c) M s1 s'" "subseq M (map (item_key (os_ul c)) items)"
      "healthy s1 \<and> publisher_ready c \<longrightarrow> M = map (item_key (os_ul c)) items"
    by blast
  have "subseq (L @ M) ([item_key (os_ul c) item] @ map (item_key (os_ul c)) items)"
    using L(2) M(2) by (rule list_emb_append_mono)
  with on_bus_trans [OF L(1) M(1)] on_bus_healthy [OF L(1)] L(3) M(3) show ?case by auto
qed

lemma compensateReservations_cases:
  assumes "compensateReservations c items reason s = (r, s')"
  shows "\<exists>L. on_bus (os_ul c) L s s' \<and> subseq L (map (item_key (os_ul c)) items) \<and>
    (healthy s \<and> publisher_ready c \<longrightarrow> L = map (item_key (os_ul c)) items)"
proof (cases items)
  case Nil
  with assms show ?thesis by (auto simp: compensateReservations_def ret_def on_bus_def)
next
  case (Cons item rest)
  with assms have "compensate_loop c items reason s = (r, s')"
    by (simp add: compensateReservations_def del: compensate_loop.simps)
  then show ?thesis by (rule compensate_loop_cases)
qed

text \<open>Database work does not touch the bus, the product service or the schedule of failures.\<close>

definition quiet ::
  "message list \<Rightarrow> 'r \<Rightarrow> (nat \<Rightarrow> fault option) \<Rightarrow> ('d, message, 'r, 'z) renv_scheme \<Rightarrow> bool" where
  "quiet B W F s \<longleftrightarrow> bus s = B \<and> remote s = W \<and> faults s = F"

lemma quiet_update [simp]:
  "quiet B W F (s\<lparr>calls := n\<rparr>) = quiet B W F s" "quiet B W F (s\<lparr>db := d\<rparr>) = quiet B W F s"
  "quiet B W F (s\<lparr>ticks := n\<rparr>) = quiet B W F s" "quiet B W F (s\<lparr>gens := n\<rparr>) = quiet B W F s"
  by (simp_all add: quiet_def)

lemma keeps_quiet [keeps_rules]:
  "keeps (quiet B W F) time_Now" "keeps (quiet B W F) uuid_New"
  "keeps (quiet B W F) (query f)" "keeps (quiet B W F) (extern (ret a))"
  by (simp_all add: keeps_def time_Now_def uuid_New_def query_def extern_def on_db_def ret_def Let_def
      split: option.splits fault.splits prod.splits sum.splits)

lemma keeps_quiet_WithTx [keeps_rules]:
  "keeps (quiet B W F) body \<Longrightarrow> keeps (quiet B W F) (WithTx pool (Some body))"
  by (erule keeps_WithTx_gen) auto

lemma keeps_quiet_draw [keeps_rules]: "keeps (quiet B W F) (draw_uuids n)"
proof (induction n)
  case 0
  then show ?case by (simp add: keeps_rules)
next
  case (Suc n)
  then show ?case unfolding draw_uuids.simps by (intro keeps_rules)
qed

lemma keeps_quiet_repo [keeps_rules]:
  "keeps (quiet B W F) (repo_order_Create cfg oo)"
  "keeps (quiet B W F) (repo_getItems oid)"
  "keeps (quiet B W F) (repo_order_GetByID oid)"
  "keeps (quiet B W F) (repo_UpdateStatus oid nxt)"
  unfolding repo_order_Create_def create_order_tx_def repo_order_GetByID_def repo_getItems_def repo_UpdateStatus_def Let_def
  by (intro keeps_rules)+

lemma create_order_tx_healthy: "keeps healthy (create_order_tx cfg ord)"
  unfolding create_order_tx_def Let_def by (intro keeps_rules)

lemma quietD: "keeps (quiet (bus s) (remote s) (faults s)) m \<Longrightarrow> m s = (r, s') \<Longrightarrow>
    bus s' = bus s \<and> remote s' = remote s \<and> faults s' = faults s"
  using keepsD [of "quiet (bus s) (remote s) (faults s)" m s r s'] by (simp add: quiet_def)

text \<open>Storing an order changes neither the products nor the quantities of its items.\<close>

lemma item_key_fill [simp]: "item_key u (fill_subtotal item) = item_key u item"
  by (simp add: fill_subtotal_def item_key_def)

lemma scan_items_keys:
  "scan_items index rows items n = Inr (items', k) \<Longrightarrow>
    map (item_key u) items' = map (item_key u) items \<and> length items' = length items"
proof (induction index rows items n rule: scan_items.induct)
  case (1 index items scanned)
  then show ?case by simp
next
  case (2 index itemID productID subtotal createdAt rows items scanned)
  from 2(2) obtain idx where idx: "index productID = Some idx"
    by (auto split: option.splits)
  have "map (item_key u) (items[idx := (items ! idx)\<lparr>i_ID := itemID, i_Subtotal := subtotal,
      i_CreatedAt := createdAt\<rparr>]) = map (item_key u) items"
    by (cases "idx < length items") (simp_all add: map_update item_key_def list_update_same_conv list_update_beyond)
  with 2(1) [OF idx] 2(2) idx show ?case by simp
qed

lemma item_key_order_id [simp]: "item_key u (item\<lparr>i_OrderID := oid\<rparr>) = item_key u item"
  by (simp add: item_key_def)

lemma scan_returned_Inr:
  assumes "scan_returned cfg row items rows s = (Inr ord', s')"
  shows "\<exists>items'. scan_items (itemIndexByProduct items) (returning cfg rows) items 0 = Inr (items', length items) \<and>
    ord' = row\<lparr>o_Items := items'\<rparr> \<and> s' = s"
  using assms
  by (cases "scan_items (itemIndexByProduct items) (returning cfg rows) items 0")
    (auto simp: scan_returned_def ret_eq fail_eq split: prod.splits if_splits)

lemma create_order_tx_Inr:
  assumes "create_order_tx cfg ord s = (Inr ord', s')"
  shows "map (item_key u) (o_Items ord') = map (item_key u) (o_Items ord) \<and>
    o_TotalAmount ord' = o_TotalAmount ord \<and> o_UserID ord' = o_UserID ord \<and> o_Status ord' = ''pending''"
proof -
  let ?n = "length (o_Items ord)"
  let ?items = "\<lambda>oid. map (\<lambda>item. item\<lparr>i_OrderID := oid\<rparr>) (o_Items ord)"
  let ?row = "\<lambda>oid now. \<lparr>o_ID = oid, o_UserID = o_UserID ord, o_Status = ''pending'',
      o_TotalAmount = o_TotalAmount ord, o_Items = [], o_CreatedAt = now, o_UpdatedAt = now\<rparr>"
  from assms obtain now oid s3 where rest: "(if 0 < ?n then
       bindE (draw_uuids ?n) (\<lambda>ids.
       bindS (query (on_items (insert_items oid ids now (?items oid)))) (\<lambda>res. case res of
           Inl err \<Rightarrow> fail (items_error cfg err)
         | Inr rows \<Rightarrow> scan_returned cfg (?row oid now) (?items oid) rows))
     else ret ((?row oid now)\<lparr>o_Items := ?items oid\<rparr>)) s3 = (Inr ord', s')"
    by (auto simp only: create_order_tx_def Let_def bindE_Inr)
  have key: "map (item_key u) (?items oid) = map (item_key u) (o_Items ord)" by (simp add: comp_def)
  show ?thesis
  proof (cases "0 < ?n")
    case True
    with rest obtain ids s4 x s5 where "(case x of Inl err \<Rightarrow> fail (items_error cfg err)
         | Inr rows \<Rightarrow> scan_returned cfg (?row oid now) (?items oid) rows) s5 = (Inr ord', s')"
      by (auto simp only: bindE_Inr bindS_iff if_True)
    then obtain rows where "scan_returned cfg (?row oid now) (?items oid) rows s5 = (Inr ord', s')"
      by (cases x) (auto simp: fail_eq)
    from scan_returned_Inr [OF this] obtain items' where
      "scan_items (itemIndexByProduct (?items oid)) (returning cfg rows) (?items oid) 0 =
        Inr (items', length (?items oid))" "ord' = (?row oid now)\<lparr>o_Items := items'\<rparr>"
      by blast
    with scan_items_keys [OF this(1), of u] key show ?thesis by simp
  next
    case False
    with rest key show ?thesis by (simp add: ret_eq)
  qed
qed

lemma repo_order_Create_Inr:
  assumes "repo_order_Create cfg (Some ord) s = (Inr ord', s')"
  shows "map (item_key u) (o_Items ord') = map (item_key u) (o_Items ord) \<and>
    o_TotalAmount ord' = o_TotalAmount ord \<and> o_UserID ord' = o_UserID ord \<and> o_Status ord' = ''pending''"
proof -
  from assms have "WithTx True (Some (create_order_tx cfg (snd (CalculateTotal ord)))) s = (Inr ord', s')"
    by (auto simp: repo_order_Create_def fail_eq split: option.splits)
  from WithTx_cases [OF this] obtain s2 where
    "create_order_tx cfg (snd (CalculateTotal ord)) (s\<lparr>calls := calls s + 1\<rparr>) = (Inr ord', s2)"
    by auto
  from create_order_tx_Inr [OF this, of u] show ?thesis
    by (simp add: CalculateTotal_def comp_def)
qed

text \<open>
  The interface to the product service: \<open>granted\<close> is the list of the reservations it has answered
  without an error.
\<close>

locale product_port =
  fixes stub :: "'r product_stub" and granted :: "'r \<Rightarrow> (string \<times> i32) list"
  assumes reserve_granted: "stub_ReserveStock stub req w = (Inr (), w') \<Longrightarrow>
      granted w' = granted w @ [(rq_ProductId req, rq_Quantity req)]"
    and reserve_refused: "stub_ReserveStock stub req w = (Inl e, w') \<Longrightarrow> granted w' = granted w"
    and lookup_granted: "stub_GetProductsByIDs stub ids w = (x, w') \<Longrightarrow> granted w' = granted w"
begin

lemma client_reserve_cases:
  assumes "client_ReserveStock c p q s = (r, s')" and "os_stub c = stub"
  shows "bus s' = bus s \<and> db s' = db s \<and> faults s' = faults s \<and>
    (case r of Inr _ \<Rightarrow> granted (remote s') = granted (remote s) @ [(p, q)]
     | Inl _ \<Rightarrow> granted (remote s') = granted (remote s) \<or>
         (\<not> healthy s \<and> granted (remote s') = granted (remote s) @ [(p, q)]))"
proof -
  let ?req = "\<lparr>rq_ProductId = p, rq_Quantity = q\<rparr>"
  obtain x w where st: "stub_ReserveStock stub ?req (remote s) = (x, w)"
    by (cases "stub_ReserveStock stub ?req (remote s)")
  have "(case x of Inr _ \<Rightarrow> granted w = granted (remote s) @ [(p, q)] | Inl _ \<Rightarrow> granted w = granted (remote s))"
    using reserve_granted [of ?req "remote s" w] reserve_refused [of ?req "remote s" _ w] st
    by (cases x) auto
  with assms st show ?thesis
    by (auto simp: client_ReserveStock_def client_call_def on_remote_def extern_def Let_def bindS_def
        ret_def fail_def healthy_def split: option.splits fault.splits sum.splits prod.splits)
qed

lemma client_lookup_cases:
  assumes "client_GetProductsByIDs c ids s = (r, s')" and "os_stub c = stub"
  shows "bus s' = bus s \<and> db s' = db s \<and> faults s' = faults s \<and> granted (remote s') = granted (remote s)"
proof -
  obtain x w where st: "stub_GetProductsByIDs stub ids (remote s) = (x, w)"
    by (cases "stub_GetProductsByIDs stub ids (remote s)")
  with assms lookup_granted [OF st] show ?thesis
    by (auto simp: client_GetProductsByIDs_def client_call_def on_remote_def extern_def Let_def bindS_def
        ret_def fail_def split: if_splits option.splits fault.splits sum.splits prod.splits)
qed

text \<open>What the reservation loop leaves behind, in each of its two ends.\<close>

lemma reserve_loop_cases:
  assumes "reserve_loop c items reserved s = (r, s')" and "os_stub c = stub"
  defines "key \<equiv> map (item_key (os_ul c))"
  shows "db s' = db s \<and> faults s' = faults s \<and>
    (case r of
       Inr res \<Rightarrow> res = reserved @ items \<and> bus s' = bus s \<and>
         granted (remote s') = granted (remote s) @ key items
     | Inl _ \<Rightarrow> (\<exists>K L. granted (remote s') = granted (remote s) @ K \<and>
         released (os_ul c) (bus s') = released (os_ul c) (bus s) @ L \<and> subseq L (key reserved @ K) \<and>
         (healthy s \<and> publisher_ready c \<longrightarrow> L = key reserved @ K)))"
  using assms(1)
proof (induction items arbitrary: reserved s)
  case Nil
  then show ?case by (auto simp: ret_def key_def)
next
  case (Cons item items)
  let ?u = "os_ul c"
  obtain x s1 where cl: "client_ReserveStock c (uuid_String ?u (i_ProductID item)) (i_Quantity item) s = (x, s1)"
    by (cases "client_ReserveStock c (uuid_String ?u (i_ProductID item)) (i_Quantity item) s")
  note grant = client_reserve_cases [OF cl assms(2)]
  show ?case
  proof (cases x)
    case (Inl e)
    obtain y s2 where comp: "compensateReservations c reserved ''reservation_failed'' s1 = (y, s2)"
      by (cases "compensateReservations c reserved ''reservation_failed'' s1")
    with Cons.prems cl Inl have end': "r = Inl e" "s' = s2" by (auto simp: bindS_def fail_def)
    from compensateReservations_cases [OF comp] obtain L where
      L: "on_bus ?u L s1 s2" "subseq L (key reserved)" "healthy s1 \<and> publisher_ready c \<longrightarrow> L = key reserved"
      by (auto simp: key_def)
    from grant Inl obtain K where K: "granted (remote s1) = granted (remote s) @ K" "healthy s \<longrightarrow> K = []"
      by auto
    have "subseq L (key reserved @ K)" using L(2) by (rule subseq_rev_drop_many)
    then show ?thesis using grant L K end' Inl
      by (auto simp: on_bus_def healthy_def)
  next
    case (Inr a)
    with Cons.prems cl have "reserve_loop c items (reserved @ [item]) s1 = (r, s')" by (simp add: bindS_def)
    from Cons.IH [OF this] grant Inr show ?thesis
      by (auto simp: key_def item_key_def healthy_def split: sum.splits)
  qed
qed

end

section \<open>What a request to create an order leaves behind\<close>

text \<open>The product ids and quantities of an order the service answered with.\<close>

definition pb_item_keys :: "pb_Order \<Rightarrow> (string \<times> i32) list" where
  "pb_item_keys pb = map (\<lambda>i. (pbi_ProductId i, pbi_Quantity i)) (pbo_Items pb)"

lemma pb_item_keys_toProto: "pb_item_keys (toProtoOrder u ord) = map (item_key u) (o_Items ord)"
  by (simp add: pb_item_keys_def toProtoOrder_def toProtoOrderItems_def item_key_def comp_def)

lemma toProtoOrder_simps [simp]:
  "pbo_Id (toProtoOrder u ord) = uuid_String u (o_ID ord)"
  "pbo_TotalAmount (toProtoOrder u ord) = o_TotalAmount ord"
  by (simp_all add: toProtoOrder_def)

lemma PublishOrderCreated_cases:
  assumes "PublishOrderCreated c (Some ord) s = (r, s')"
  shows "(r = Inr () \<and> (\<exists>e. bus s' = bus s @ [(RoutingKeyOrderCreated, EvOrderCreated e)] \<and>
      oc_OrderID e = o_ID ord \<and> oc_UserID e = o_UserID ord \<and> oc_TotalAmount e = o_TotalAmount ord)
      \<or> (\<exists>x. r = Inl x) \<and> \<not> (healthy s \<and> publisher_ready c)) \<and>
    on_bus (os_ul c) [] s s'"
proof -
  let ?s1 = "s\<lparr>gens := gens s + 1\<rparr>"
  let ?e = "\<lparr>oc_EventID = gen s (gens s), oc_OrderID = o_ID ord, oc_UserID = o_UserID ord,
     oc_TotalAmount = o_TotalAmount ord, oc_Items = map (\<lambda>item. \<lparr>oci_ProductID = i_ProductID item,
       oci_Quantity = i_Quantity item, oci_UnitPrice = i_UnitPrice item\<rparr>) (o_Items ord),
     oc_CreatedAt = o_CreatedAt ord\<rparr>"
  have run: "Publish (os_json c) (os_publisher c) RoutingKeyOrderCreated (EvOrderCreated ?e) ?s1 = (r, s')"
    using assms by (simp add: PublishOrderCreated_def Let_def bindE_def bindS_def uuid_New_def)
  have "r = Inr ()" if "healthy s" "publisher_ready c"
  proof -
    from that(2) obtain p' b where "os_publisher c = Some p'" "channel_ok p'"
      "Marshal (os_json c) (EvOrderCreated ?e) = Inr b"
      unfolding publisher_ready_def by blast
    from Publish_ok [OF _ this(1,2) _ this(3), of ?s1] that(1) run show ?thesis
      by (simp add: RoutingKeyOrderCreated_def)
  qed
  with Publish_cases [OF run] show ?thesis
    by (auto simp: only_bus_def on_bus_def)
qed

context product_port
begin

lemma buildOrderItems_frame:
  assumes "buildOrderItems c reqs s = (r, s')" and "os_stub c = stub"
  shows "bus s' = bus s \<and> db s' = db s \<and> faults s' = faults s \<and> granted (remote s') = granted (remote s)"
proof (cases "length reqs = 0 \<or> (\<exists>e. check_request_items (os_ul c) reqs [] = Inl e)")
  case True
  with assms(1) have "s' = s"
    by (cases "reqs = []") (auto simp: buildOrderItems_def of_sum_def bindE_def bindS_def fail_def)
  then show ?thesis by simp
next
  case False
  then obtain ids where ids: "check_request_items (os_ul c) reqs [] = Inr ids"
    by (cases "check_request_items (os_ul c) reqs []") auto
  obtain x s1 where cl: "client_GetProductsByIDs c ids s = (x, s1)" by (cases "client_GetProductsByIDs c ids s")
  have "s' = s1"
    using assms(1) False ids cl
    by (auto simp: buildOrderItems_def of_sum_def bindE_def bindS_def fail_def ret_def split: sum.splits)
  with client_lookup_cases [OF cl assms(2)] show ?thesis by simp
qed

text \<open>
  A reservation never outlives a refused order unless a failure interferes: the releases \<open>L\<close> are among
  the reservations \<open>K\<close> the request made, and are all of them when nothing fails.
\<close>

definition settles ::
  "'r order_svc \<Rightarrow> (order_db, message, 'r, 'z) renv_scheme \<Rightarrow> goerr + pb_Order \<Rightarrow>
    (order_db, message, 'r, 'z) renv_scheme \<Rightarrow> bool" where
  "settles c s r s' \<longleftrightarrow>
    (case r of
       Inr pb \<Rightarrow> granted (remote s') = granted (remote s) @ pb_item_keys pb \<and>
         (\<exists>e. bus s' = bus s @ [(RoutingKeyOrderCreated, EvOrderCreated e)] \<and>
           uuid_String (os_ul c) (oc_OrderID e) = pbo_Id pb \<and> oc_TotalAmount e = pbo_TotalAmount pb)
     | Inl _ \<Rightarrow> (\<exists>K L. granted (remote s') = granted (remote s) @ K \<and>
         released (os_ul c) (bus s') = released (os_ul c) (bus s) @ L \<and> subseq L K \<and>
         (healthy s \<and> publisher_ready c \<longrightarrow> L = K \<and> db s' = db s)))"

lemma settles_error_quiet:
  "bus s' = bus s \<Longrightarrow> db s' = db s \<Longrightarrow> granted (remote s') = granted (remote s) \<Longrightarrow> settles c s (Inl e) s'"
  by (auto simp: settles_def)

lemma persist_cases:
  assumes "bindS (repo_order_Create cfg (Some ord)) (\<lambda>created. case created of
      Inl err \<Rightarrow> bindS (compensateReservations c reserved ''order_persist_failed'') (\<lambda>_. fail err)
    | Inr ord' \<Rightarrow> bindS (PublishOrderCreated c (Some ord')) (\<lambda>published. case published of
          Inl err \<Rightarrow> bindS (compensateReservations c reserved ''publish_failed'') (\<lambda>_.
            bindS (repo_UpdateStatus (o_ID ord') OrderStatusFailed) (\<lambda>_.
              fail (New KindInternal ''failed to start order processing'')))
        | Inr _ \<Rightarrow> ret (toProtoOrder (os_ul c) ord'))) st = (r, s')"
    and start: "bus st = bus s" "db st = db s" "faults st = faults s"
      "granted (remote st) = granted (remote s) @ map (item_key (os_ul c)) reserved"
    and items: "map (item_key (os_ul c)) (o_Items ord) = map (item_key (os_ul c)) reserved"
  shows "settles c s r s'"
proof -
  let ?u = "os_ul c" and ?keys = "map (item_key (os_ul c)) reserved"
  obtain x s2 where create: "repo_order_Create cfg (Some ord) st = (x, s2)"
    by (cases "repo_order_Create cfg (Some ord) st")
  have quiet: "bus s2 = bus s" "remote s2 = remote st" "faults s2 = faults s"
    using quietD [OF keeps_quiet_repo(1) create] start by simp_all
  show ?thesis
  proof (cases x)
    case (Inl err)
    obtain y s3 where comp: "compensateReservations c reserved ''order_persist_failed'' s2 = (y, s3)"
      by (cases "compensateReservations c reserved ''order_persist_failed'' s2")
    with assms(1) create Inl have end': "r = Inl err" "s' = s3"
      by (auto simp: bindS_def fail_def)
    have "db s2 = db s" if "healthy s"
    proof -
      have h1: "healthy st" using that start(3) by (simp add: healthy_def)
      show ?thesis
      proof (cases "Order_Validate ord")
        case None
        then have tx: "WithTx True (Some (create_order_tx cfg (snd (CalculateTotal ord)))) st = (Inl err, s2)"
          using create Inl by (simp add: repo_order_Create_def)
        from tx_healthy_error [OF tx h1 create_order_tx_healthy] start(2) show ?thesis by simp
      next
        case (Some e)
        with create start(2) show ?thesis by (simp add: repo_order_Create_def fail_def)
      qed
    qed
    with compensateReservations_cases [OF comp] quiet start end' show ?thesis
      by (auto simp: settles_def on_bus_def healthy_def)
  next
    case (Inr ord')
    note stored = repo_order_Create_Inr [OF create [unfolded Inr], of ?u]
    obtain y s3 where pub: "PublishOrderCreated c (Some ord') s2 = (y, s3)"
      by (cases "PublishOrderCreated c (Some ord') s2")
    note pubc = PublishOrderCreated_cases [OF pub]
    show ?thesis
    proof (cases y)
      case (Inl err)
      obtain z s4 where comp: "compensateReservations c reserved ''publish_failed'' s3 = (z, s4)"
        by (cases "compensateReservations c reserved ''publish_failed'' s3")
      obtain v s5 where mark: "repo_UpdateStatus (o_ID ord') OrderStatusFailed s4 = (v, s5)"
        by (cases "repo_UpdateStatus (o_ID ord') OrderStatusFailed s4")
      from assms(1) create Inr pub Inl comp mark
      have end': "r = Inl (New KindInternal ''failed to start order processing'')" "s' = s5"
        by (auto simp: bindS_def fail_def)
      have "\<not> (healthy s \<and> publisher_ready c)"
        using pubc Inl quiet(3) by (auto simp: healthy_def)
      with compensateReservations_cases [OF comp] quietD [OF keeps_quiet_repo(4) mark] pubc quiet start end'
      show ?thesis by (auto simp: settles_def on_bus_def)
    next
      case (Inr u)
      with assms(1) create \<open>x = Inr ord'\<close> pub have end': "r = Inr (toProtoOrder ?u ord')" "s' = s3"
        by (auto simp: bindS_def ret_def)
      from pubc Inr obtain e where
        e: "bus s3 = bus s2 @ [(RoutingKeyOrderCreated, EvOrderCreated e)]" "oc_OrderID e = o_ID ord'"
          "oc_TotalAmount e = o_TotalAmount ord'"
        by auto
      have "granted (remote s3) = granted (remote s) @ map (item_key ?u) (o_Items ord')"
        using pubc quiet(2) start(4) stored items by (auto simp: on_bus_def)
      with e quiet(1) end' show ?thesis
        by (auto simp: settles_def pb_item_keys_toProto)
    qed
  qed
qed

end

context product_port
begin

lemma CreateOrder_settles:
  assumes "CreateOrder c ctx req s = (r, s')" and "os_stub c = stub"
  shows "settles c s r s'"
proof -
  let ?early = "\<exists>e. r = Inl e \<and> s' = s"
  have early: ?thesis if ?early using that settles_error_quiet by blast
  show ?thesis
  proof (cases "\<exists>reqs cl uid. req = Some reqs \<and> reqs \<noteq> [] \<and> ClaimsFromContext ctx = Some cl \<and>
      uuid_Parse (os_ul c) (UserID cl) = Some uid")
    case False
    with assms(1) have ?early
      by (auto simp: CreateOrder_def requireAuthenticated_def bindE_def bindS_def fail_def ret_def
          split: option.splits if_splits)
    with early show ?thesis .
  next
    case True
    then obtain reqs cl uid where req: "req = Some reqs" "reqs \<noteq> []" "ClaimsFromContext ctx = Some cl"
      "uuid_Parse (os_ul c) (UserID cl) = Some uid" by blast
    obtain x s1 where build: "buildOrderItems c reqs s = (x, s1)" by (cases "buildOrderItems c reqs s")
    note frame1 = buildOrderItems_frame [OF build assms(2)]
    show ?thesis
    proof (cases x)
      case (Inl e)
      with assms(1) req build have "r = Inl e" "s' = s1"
        by (auto simp: CreateOrder_def requireAuthenticated_def bindE_def bindS_def fail_def ret_def)
      with frame1 show ?thesis by (auto intro: settles_error_quiet)
    next
      case (Inr items)
      obtain y s2 where res: "reserveItems c items s1 = (y, s2)" by (cases "reserveItems c items s1")
      note frame2 = reserve_loop_cases [OF res [unfolded reserveItems_def] assms(2)]
      show ?thesis
      proof (cases y)
        case (Inl e)
        with assms(1) req build Inr res \<open>x = Inr items\<close> have end': "r = Inl e" "s' = s2"
          by (auto simp: CreateOrder_def requireAuthenticated_def bindE_def bindS_def fail_def ret_def)
        from frame2 Inl obtain K L where "granted (remote s2) = granted (remote s1) @ K"
          "released (os_ul c) (bus s2) = released (os_ul c) (bus s1) @ L" "subseq L K"
          "healthy s1 \<and> publisher_ready c \<longrightarrow> L = K"
          by auto
        with frame1 frame2 end' show ?thesis by (auto simp: settles_def healthy_def)
      next
        case (Inr reserved)
        let ?ord0 = "\<lparr>o_ID = uuid_Nil, o_UserID = uid, o_Status = '''', o_TotalAmount = 0,
            o_Items = items, o_CreatedAt = 0, o_UpdatedAt = 0\<rparr>"
        let ?ord = "snd (CalculateTotal ?ord0)\<lparr>o_TotalAmount := fst (CalculateTotal ?ord0)\<rparr>"
        from Inr frame2 have reserved: "reserved = items" by simp
        have keys: "map (item_key (os_ul c)) (o_Items ?ord) = map (item_key (os_ul c)) reserved"
          by (simp add: CalculateTotal_def comp_def reserved)
        show ?thesis
          by (rule persist_cases [where s = s and st = s2 and ord = ?ord and reserved = items
                and cfg = "os_cfg c"])
            (use assms(1) req build \<open>x = Inr items\<close> res Inr frame1 frame2 keys reserved in
              \<open>simp_all add: CreateOrder_def requireAuthenticated_def bindE_def Let_def
                bindS_def [of "of_sum _"] bindS_def [of "ret _"] bindS_def [of "buildOrderItems _ _"]
                bindS_def [of "reserveItems _ _"] ret_def case_prod_unfold\<close>)
      qed
    qed
  qed
qed

end

end
