(* ===== verification/OrderLife.thy ===== *)
theory OrderLife
  imports OrderProps
begin

text \<open>
  The life of an order: the order service as a state machine (\<open>order_step\<close>, \<open>order_reach\<close>,
  \<open>order_path\<close>), what a stored order keeps for ever, what its amount is, who can read it, and what a
  payment message does to it.
\<close>

section \<open>The service as a state machine\<close>

datatype order_op =
    OpCreateOrder reqctx "CreateOrderItemRequest option list option"
  | OpGetOrder reqctx "string option"
  | OpListMyOrders reqctx "(i32 \<times> i32) option"
  | PaymentCompletedMessage string
  | PaymentFailedMessage string

fun order_step ::
  "'r order_svc \<Rightarrow> order_op \<Rightarrow> (order_db, message, 'r, 'z) renv_scheme \<Rightarrow>
    (order_db, message, 'r, 'z) renv_scheme" where
  "order_step c (OpCreateOrder ctx req) s = snd (grpc_CreateOrder c ctx req s)"
| "order_step c (OpGetOrder ctx req) s = snd (grpc_GetOrder c ctx req s)"
| "order_step c (OpListMyOrders ctx req) s = snd (grpc_ListMyOrders c ctx req s)"
| "order_step c (PaymentCompletedMessage b) s = snd (on_payment_completed c b s)"
| "order_step c (PaymentFailedMessage b) s = snd (on_payment_failed c b s)"

text \<open>A path of the service: its steps, and any change outside its own database.\<close>

inductive order_path ::
  "'r order_svc \<Rightarrow> (order_db, message, 'r, 'z) renv_scheme \<Rightarrow> (order_db, message, 'r, 'z) renv_scheme \<Rightarrow> bool"
  for c where
  here: "order_path c s s"
| step: "order_path c s s1 \<Longrightarrow> order_path c s (order_step c op s1)"
| outside: "order_path c s s1 \<Longrightarrow> db s2 = db s1 \<Longrightarrow> order_path c s s2"

definition empty_orders :: order_db where
  "empty_orders = \<lparr>orders = [], order_items = [], order_events = []\<rparr>"

definition order_reach :: "'r order_svc \<Rightarrow> (order_db, message, 'r, 'z) renv_scheme \<Rightarrow> bool" where
  "order_reach c s \<longleftrightarrow> (\<exists>s0. db s0 = empty_orders \<and> order_path c s0 s)"

text \<open>A property of the database that every operation keeps holds along every path.\<close>

lemma order_path_keeps:
  fixes s s' :: "(order_db, message, 'r, 'z) renv_scheme"
  assumes "order_path c s s'" and "J (db s)"
    and "\<And>ctx req. keeps_db J (CreateOrder c ctx req :: ('r, 'z, pb_Order) os_comp)"
    and "\<And>b. keeps_db J (on_payment_completed c b :: ('r, 'z, unit) os_comp)"
    and "\<And>b. keeps_db J (on_payment_failed c b :: ('r, 'z, unit) os_comp)"
  shows "J (db s')"
  using assms(1,2)
proof (induction rule: order_path.induct)
  case (here s)
  then show ?case .
next
  case (step s s1 op)
  then have J: "J (db s1)" by simp
  have create: "J (db (snd (grpc_CreateOrder c ctx req s1)))" for ctx req
    using keeps_grpc_answer [OF assms(3)] J unfolding grpc_CreateOrder_def keeps_def by blast
  have get: "J (db (snd (grpc_GetOrder c ctx oid s1)))" for ctx oid
    using keeps_grpc_answer [OF keeps_order_reads(1)] J unfolding grpc_GetOrder_def keeps_def by blast
  have list: "J (db (snd (grpc_ListMyOrders c ctx lim s1)))" for ctx lim
    using keeps_grpc_answer [OF keeps_order_reads(2)] J unfolding grpc_ListMyOrders_def keeps_def by blast
  from create get list J assms(4,5) show ?case
    by (cases op) (auto simp: keeps_def)
next
  case (outside s s1 s2)
  then show ?case by simp
qed

lemma order_reach_ok:
  assumes "order_reach c s"
  shows "order_db_ok (db s)"
proof -
  from assms obtain s0 where s0: "db s0 = empty_orders" "order_path c s0 s" by (auto simp: order_reach_def)
  have "order_db_ok (db s0)" by (simp add: s0(1) empty_orders_def order_db_ok_def tbl_wf_def)
  from order_path_keeps [OF s0(2) this keeps_CreateOrder keeps_order_consumers] show ?thesis .
qed

section \<open>What a stored order keeps\<close>

definition order_evolves :: "order_db \<Rightarrow> order_db \<Rightarrow> bool" where
  "order_evolves d0 d \<longleftrightarrow> order_db_ok d \<and> set (order_items d0) \<subseteq> set (order_items d) \<and>
     (\<forall>r \<in> set (orders d0). \<exists>r' \<in> set (orders d). o_ID r' = o_ID r \<and> o_UserID r' = o_UserID r \<and>
        o_TotalAmount r' = o_TotalAmount r \<and> o_CreatedAt r' = o_CreatedAt r \<and>
        (o_Status r' = o_Status r \<or> o_Status r = OrderStatusPending))"

lemma order_evolves_refl: "order_db_ok d \<Longrightarrow> order_evolves d d"
  by (auto simp: order_evolves_def)

lemma keeps_evolves [keeps_rules]:
  "keeps_db (order_evolves d0) (query (on_orders (sql_insert orders_schema row)))"
  "keeps_db (order_evolves d0) (query (on_orders (sql_update orders_schema (status_where oid) (status_set nxt now))))"
  "keeps_db (order_evolves d0) (query (on_items (insert_items oid ids now items)))"
proof -
  show "keeps_db (order_evolves d0) (query (on_orders (sql_insert orders_schema row)))"
  proof (rule keeps_query)
    fix d assume d: "order_evolves d0 d"
    have "set (orders d) \<subseteq> set (orders (snd (on_orders (sql_insert orders_schema row) d)))"
      "order_items (snd (on_orders (sql_insert orders_schema row) d)) = order_items d"
      using sql_insert_superset [of "orders d" orders_schema row]
      by (simp_all add: on_orders_def case_prod_unfold)
    with d on_orders_ok(2) [of d row]
    show "order_evolves d0 (snd (on_orders (sql_insert orders_schema row) d))"
      unfolding order_evolves_def by (metis subsetD)
  qed
  show "keeps_db (order_evolves d0) (query (on_orders (sql_update orders_schema (status_where oid) (status_set nxt now))))"
  proof (rule keeps_query)
    fix d assume d: "order_evolves d0 d"
    let ?d' = "snd (on_orders (sql_update orders_schema (status_where oid) (status_set nxt now)) d)"
    have "\<exists>r' \<in> set (orders ?d'). r' = r \<or> (o_Status r = OrderStatusPending \<and> o_ID r' = o_ID r \<and>
        o_UserID r' = o_UserID r \<and> o_TotalAmount r' = o_TotalAmount r \<and> o_CreatedAt r' = o_CreatedAt r)"
      if "r \<in> set (orders d)" for r
    proof -
      from sql_update_image [OF that, of orders_schema "status_where oid" "status_set nxt now"]
      obtain r' where "r' \<in> set (orders ?d')" "r' = r \<or> (status_where oid r \<and> status_set nxt now r = Inr r')"
        by (auto simp: on_orders_def case_prod_unfold)
      then show ?thesis by (intro bexI [of _ r']) (auto simp: status_where_def status_set_def)
    qed
    moreover have "order_items ?d' = order_items d" by (simp add: on_orders_def case_prod_unfold)
    ultimately show "order_evolves d0 ?d'"
      using d on_orders_ok(1) [of d "status_where oid" "status_set nxt now"]
      unfolding order_evolves_def by (metis (no_types, lifting))
  qed
  show "keeps_db (order_evolves d0) (query (on_items (insert_items oid ids now items)))"
  proof (rule keeps_query)
    fix d assume d: "order_evolves d0 d"
    have "set (order_items d) \<subseteq> set (order_items (snd (on_items (insert_items oid ids now items) d)))"
      "orders (snd (on_items (insert_items oid ids now items) d)) = orders d"
      by (auto simp: on_items_def insert_items_def split: sum.splits)
    with d insert_items_ok [of d oid ids now items]
    show "order_evolves d0 (snd (on_items (insert_items oid ids now items) d))"
      unfolding order_evolves_def by auto
  qed
qed

lemma keeps_evolves_ops:
  "keeps_db (order_evolves d0) (CreateOrder c ctx req)"
  "keeps_db (order_evolves d0) (on_payment_completed c body)"
  "keeps_db (order_evolves d0) (on_payment_failed c body)"
proof -
  have repo: "keeps_db (order_evolves d0) (repo_order_Create cfg oo)"
    "keeps_db (order_evolves d0) (repo_UpdateStatus oid nxt)" for cfg oo oid nxt
    unfolding repo_order_Create_def create_order_tx_def repo_UpdateStatus_def Let_def
    by (intro keeps_rules)+
  show "keeps_db (order_evolves d0) (CreateOrder c ctx req)"
    unfolding CreateOrder_def reserveItems_def Let_def by (intro keeps_rules repo)
  show "keeps_db (order_evolves d0) (on_payment_completed c body)"
    "keeps_db (order_evolves d0) (on_payment_failed c body)"
    unfolding on_payment_completed_def on_payment_failed_def handlePaymentSucceeded_def
      handlePaymentFailed_def advance_status_def
    by (intro keeps_rules repo)+
qed

text \<open>
  C14: an order on file stays on file with its owner, its amount and its items, whatever requests,
  payment messages and failures follow; once it is confirmed, cancelled or failed its status
  never changes again.
\<close>

theorem order_status_final:
  assumes "order_reach c s" and "order_path c s s'" and "tbl_get o_ID (orders (db s)) oid = Some r"
  shows "\<exists>r'. tbl_get o_ID (orders (db s')) oid = Some r' \<and> o_UserID r' = o_UserID r \<and>
    o_TotalAmount r' = o_TotalAmount r \<and> set (order_items (db s)) \<subseteq> set (order_items (db s')) \<and>
    o_Status r' \<in> {''pending'', ''confirmed'', ''cancelled'', ''failed''} \<and>
    (o_Status r \<noteq> ''pending'' \<longrightarrow> o_Status r' = o_Status r)"
proof -
  have ev: "order_evolves (db s) (db s')"
    using order_path_keeps [OF assms(2) order_evolves_refl [OF order_reach_ok [OF assms(1)]] keeps_evolves_ops] .
  from tbl_get_SomeD [OF assms(3)] ev obtain r' where
    r': "r' \<in> set (orders (db s'))" "o_ID r' = oid" "o_UserID r' = o_UserID r"
      "o_TotalAmount r' = o_TotalAmount r" "o_Status r' = o_Status r \<or> o_Status r = OrderStatusPending"
    by (auto simp: order_evolves_def)
  have ok: "tbl_wf orders_schema (orders (db s'))"
    using ev by (simp add: order_evolves_def order_db_ok_def)
  then have "tbl_get o_ID (orders (db s')) oid = Some r'"
    using tbl_get_in_set [of o_ID "orders (db s')" r'] r'(1,2) by (simp add: tbl_wf_def)
  moreover have "order_row_err r' = None" using ok r'(1) by (simp add: tbl_wf_def)
  then have "o_Status r' \<in> {''pending'', ''confirmed'', ''cancelled'', ''failed''}"
    by (simp add: order_row_err_def)
  ultimately show ?thesis
    using r' ev by (auto simp: OrderStatusPending_def order_evolves_def)
qed

section \<open>Who can read an order\<close>

text \<open>
  C17: an order is shown to its owner and to administrators only, and the list of one's orders holds
  orders of the caller only.
\<close>

theorem orders_are_private:
  assumes "uuid_ok (os_ul c)"
  shows "(GetOrder c ctx oid s = (Inr pb, s') \<longrightarrow>
      (\<exists>cl. ClaimsFromContext ctx = Some cl \<and> (UserID cl = pbo_UserId pb \<or> Role cl = ''admin''))) \<and>
    (ListMyOrders c ctx lim s = (Inr pbs, s') \<longrightarrow>
      (\<exists>cl uid. ClaimsFromContext ctx = Some cl \<and> uuid_Parse (os_ul c) (UserID cl) = Some uid \<and>
        (\<forall>pb \<in> set pbs. uuid_Parse (os_ul c) (pbo_UserId pb) = Some uid)))"
proof -
  have get: "\<exists>cl. ClaimsFromContext ctx = Some cl \<and> (UserID cl = pbo_UserId pb \<or> Role cl = ''admin'')"
    if "GetOrder c ctx oid s = (Inr pb, s')"
    using that
    by (auto simp: GetOrder_def requireAuthenticated_def bindE_Inr ret_eq fail_eq toProtoOrder_def
        roleAdmin_def split: option.splits if_splits)
  have list: "\<exists>cl uid. ClaimsFromContext ctx = Some cl \<and> uuid_Parse (os_ul c) (UserID cl) = Some uid \<and>
        (\<forall>pb \<in> set pbs. uuid_Parse (os_ul c) (pbo_UserId pb) = Some uid)"
    if run: "ListMyOrders c ctx lim s = (Inr pbs, s')"
  proof -
    from run obtain cl uid l off os s1 where cl: "ClaimsFromContext ctx = Some cl"
      and uid: "uuid_Parse (os_ul c) (UserID cl) = Some uid"
      and rows: "repo_ListByUser uid l off s = (Inr os, s1)"
      and pbs: "pbs = toProtoOrderList (os_ul c) os"
      by (auto simp: ListMyOrders_def Let_def requireAuthenticated_def bindE_Inr ret_eq fail_eq
          split: option.splits)
    have "o_UserID r = uid" if "r \<in> set os" for r
    proof -
      from rows obtain l' off' s2 where
        "query (\<lambda>d. (Inr (list_rows uid l' off' (orders d)), d)) s = (Inr os, s2)"
        by (auto simp: repo_ListByUser_def Let_def bindE_Inr wrapE_Inr ret_eq)
      from query_cases [OF this] have "os = list_rows uid l' off' (orders (db s))" by auto
      with that have "r \<in> set [r \<leftarrow> orders (db s). o_UserID r = uid]"
        using set_take_subset set_drop_subset unfolding list_rows_def
        by (metis (no_types, lifting) set_sort subsetD)
      then show ?thesis by simp
    qed
    with assms pbs cl uid show ?thesis
      by (auto simp: toProtoOrderList_def toProtoOrder_def uuid_ok_def)
  qed
  from get list show ?thesis by blast
qed

section \<open>Payment messages\<close>

text \<open>The messages published for the items of an order: each with a new event id.\<close>

fun confirm_msgs ::
  "uuid \<Rightarrow> (nat \<Rightarrow> uuid) \<Rightarrow> nat \<Rightarrow> (nat \<Rightarrow> time) \<Rightarrow> nat \<Rightarrow> OrderItem list \<Rightarrow> message list" where
  "confirm_msgs oid g n cl t [] = []"
| "confirm_msgs oid g n cl t (item # items) =
     (RoutingKeyStockConfirmRequested, EvStockConfirm \<lparr>sc_EventID = g n, sc_OrderID = oid,
        sc_ProductID = i_ProductID item, sc_Quantity = i_Quantity item, sc_RequestedAt = cl t\<rparr>)
     # confirm_msgs oid g (n + 1) cl (t + 1) items"

fun release_msgs ::
  "string \<Rightarrow> (nat \<Rightarrow> uuid) \<Rightarrow> nat \<Rightarrow> (nat \<Rightarrow> time) \<Rightarrow> nat \<Rightarrow> OrderItem list \<Rightarrow> message list" where
  "release_msgs reason g n cl t [] = []"
| "release_msgs reason g n cl t (item # items) =
     (RoutingKeyStockReleaseRequested, EvStockRelease \<lparr>sr_EventID = g n, sr_OrderID = uuid_Nil,
        sr_ProductID = i_ProductID item, sr_Quantity = i_Quantity item, sr_Reason = reason,
        sr_RequestedAt = cl t\<rparr>)
     # release_msgs reason g (n + 1) cl (t + 1) items"

lemma publisher_readyE:
  assumes "publisher_ready c"
  obtains p b where "os_publisher c = Some p" "channel_ok p" "Marshal (os_json c) ev = Inr b"
  using assms unfolding publisher_ready_def by blast

lemma PublishStockConfirm_healthy:
  assumes "healthy s" and "publisher_ready c"
  shows "PublishStockConfirmRequested c oid p q s = (Inr (), s\<lparr>gens := gens s + 1, ticks := ticks s + 1,
    calls := calls s + 2, bus := bus s @ [(RoutingKeyStockConfirmRequested, EvStockConfirm
      \<lparr>sc_EventID = gen s (gens s), sc_OrderID = oid, sc_ProductID = p, sc_Quantity = q,
       sc_RequestedAt = clock s (ticks s)\<rparr>)]\<rparr>)"
proof -
  obtain p' b where "os_publisher c = Some p'" "channel_ok p'" "Marshal (os_json c) (EvStockConfirm
      \<lparr>sc_EventID = gen s (gens s), sc_OrderID = oid, sc_ProductID = p, sc_Quantity = q,
       sc_RequestedAt = clock s (ticks s)\<rparr>) = Inr b"
    using publisher_readyE [OF assms(2)] by blast
  from Publish_ok [OF _ this(1,2) _ this(3), of "s\<lparr>gens := gens s + 1, ticks := ticks s + 1\<rparr>"] assms(1)
  show ?thesis
    by (simp add: PublishStockConfirmRequested_def bindE_def bindS_def uuid_New_def time_Now_def
        RoutingKeyStockConfirmRequested_def)
qed

lemma PublishStockRelease_healthy:
  assumes "healthy s" and "publisher_ready c"
  shows "PublishStockReleaseRequested c p q reason s = (Inr (), s\<lparr>gens := gens s + 1, ticks := ticks s + 1,
    calls := calls s + 2, bus := bus s @ [(RoutingKeyStockReleaseRequested, EvStockRelease
      \<lparr>sr_EventID = gen s (gens s), sr_OrderID = uuid_Nil, sr_ProductID = p, sr_Quantity = q,
       sr_Reason = reason, sr_RequestedAt = clock s (ticks s)\<rparr>)]\<rparr>)"
proof -
  obtain p' b where "os_publisher c = Some p'" "channel_ok p'" "Marshal (os_json c) (EvStockRelease
      \<lparr>sr_EventID = gen s (gens s), sr_OrderID = uuid_Nil, sr_ProductID = p, sr_Quantity = q,
       sr_Reason = reason, sr_RequestedAt = clock s (ticks s)\<rparr>) = Inr b"
    using publisher_readyE [OF assms(2)] by blast
  from Publish_ok [OF _ this(1,2) _ this(3), of "s\<lparr>gens := gens s + 1, ticks := ticks s + 1\<rparr>"] assms(1)
  show ?thesis
    by (simp add: PublishStockReleaseRequested_def bindE_def bindS_def uuid_New_def time_Now_def
        RoutingKeyStockReleaseRequested_def)
qed

text \<open>A run of publications that all succeed.\<close>

definition published ::
  "nat \<Rightarrow> message list \<Rightarrow> ('d, message, 'r, 'z) renv_scheme \<Rightarrow> ('d, message, 'r, 'z) renv_scheme" where
  "published n ms s = s\<lparr>gens := gens s + n, ticks := ticks s + n, calls := calls s + 2 * n,
     bus := bus s @ ms\<rparr>"

lemma published_simps [simp]:
  "healthy (published n ms s) = healthy s" "gens (published n ms s) = gens s + n"
  "ticks (published n ms s) = ticks s + n" "gen (published n ms s) = gen s"
  "clock (published n ms s) = clock s" "bus (published n ms s) = bus s @ ms"
  "db (published n ms s) = db s" "remote (published n ms s) = remote s"
  by (simp_all add: published_def)

lemma published_trans: "published m ns (published n ms s) = published (n + m) (ms @ ns) s"
  by (simp add: published_def algebra_simps)

lemma confirm_items_healthy:
  assumes "healthy s" and "publisher_ready c"
  shows "confirm_items c oid items s =
    (Inr (), published (length items) (confirm_msgs oid (gen s) (gens s) (clock s) (ticks s) items) s)"
  using assms(1)
proof (induction items arbitrary: s)
  case Nil
  then show ?case by (simp add: ret_def published_def)
next
  case (Cons item items)
  let ?m = "(RoutingKeyStockConfirmRequested, EvStockConfirm \<lparr>sc_EventID = gen s (gens s), sc_OrderID = oid,
      sc_ProductID = i_ProductID item, sc_Quantity = i_Quantity item, sc_RequestedAt = clock s (ticks s)\<rparr>)"
  have "PublishStockConfirmRequested c oid (i_ProductID item) (i_Quantity item) s = (Inr (), published 1 [?m] s)"
    using PublishStockConfirm_healthy [OF Cons.prems assms(2)] by (simp add: published_def)
  with Cons.IH [of "published 1 [?m] s"] Cons.prems show ?case
    by (simp add: bindE_def bindS_def wrapE_def ret_def published_trans)
qed

lemma release_items_healthy:
  assumes "healthy s" and "publisher_ready c"
  shows "release_items c items s =
    (Inr (), published (length items) (release_msgs ''payment_failed'' (gen s) (gens s) (clock s) (ticks s) items) s)"
  using assms(1)
proof (induction items arbitrary: s)
  case Nil
  then show ?case by (simp add: ret_def published_def)
next
  case (Cons item items)
  let ?m = "(RoutingKeyStockReleaseRequested, EvStockRelease \<lparr>sr_EventID = gen s (gens s), sr_OrderID = uuid_Nil,
      sr_ProductID = i_ProductID item, sr_Quantity = i_Quantity item, sr_Reason = ''payment_failed'',
      sr_RequestedAt = clock s (ticks s)\<rparr>)"
  have "PublishStockReleaseRequested c (i_ProductID item) (i_Quantity item) ''payment_failed'' s =
      (Inr (), published 1 [?m] s)"
    using PublishStockRelease_healthy [OF Cons.prems assms(2)] by (simp add: published_def)
  with Cons.IH [of "published 1 [?m] s"] Cons.prems show ?case
    by (simp add: bindE_def bindS_def wrapE_def ret_def published_trans)
qed

text \<open>The items of an order as \<open>GetByID\<close> loads them.\<close>

definition items_of :: "order_db \<Rightarrow> uuid \<Rightarrow> OrderItem list" where
  "items_of d oid = sort_key i_CreatedAt [r \<leftarrow> order_items d. i_OrderID r = oid]"

lemma advance_settled:
  assumes "healthy s" and "order_db_ok (db s)" and "tbl_get o_ID (orders (db s)) oid = Some r"
    and "o_Status r \<noteq> ''pending''"
  shows "advance_status oid nxt msg s = (Inr (), s\<lparr>ticks := ticks s + 1, calls := calls s + 1\<rparr>)"
proof -
  have wf: "tbl_wf orders_schema (orders (db s))" using assms(2) by (simp add: order_db_ok_def)
  show ?thesis
    using assms(1,3,4)
    by (simp add: advance_status_def repo_UpdateStatus_def bindE_def bindS_def wrapE_def time_Now_def
        query_def extern_healthy on_db_def on_orders_def ost.update_key [OF wf] status_where_def
        OrderStatusPending_def fail_def ret_def)
qed

lemma GetByID_healthy:
  assumes "healthy s" and "tbl_get o_ID (orders (db s)) oid = Some r"
  shows "repo_order_GetByID oid s = (Inr (r\<lparr>o_Items := items_of (db s) oid\<rparr>), s\<lparr>calls := calls s + 3\<rparr>)"
  using assms
  by (simp add: repo_order_GetByID_def repo_getItems_def bindE_def bindS_def wrapE_def query_def
      extern_healthy on_db_def ret_def items_of_def numeral_3_eq_3)

text \<open>
  A payment message for an order that is no longer pending is acknowledged and changes nothing
  in the order service, yet it publishes a stock message for every item again, each with a new
  event id: a repeated \<open>payment.completed\<close> confirms the stock again, and a \<open>payment.failed\<close> releases
  it even when the order was confirmed.
\<close>

theorem settled_order_publishes_again:
  assumes "order_reach c s" and "healthy s" and "publisher_ready c"
    and "tbl_get o_ID (orders (db s)) oid = Some r" and "o_Status r \<noteq> ''pending''"
  defines "ms \<equiv> (\<lambda>msgs. msgs (gen s) (gens s) (clock s) (ticks s + 1) (items_of (db s) oid))"
  shows "(pc_OrderID pc = oid \<longrightarrow> (\<exists>s'. handlePaymentSucceeded c pc s = (Inr (), s') \<and> db s' = db s \<and>
      bus s' = bus s @ ms (confirm_msgs oid))) \<and>
    (pf_OrderID pf = oid \<longrightarrow> (\<exists>s'. handlePaymentFailed c pf s = (Inr (), s') \<and> db s' = db s \<and>
      bus s' = bus s @ ms (release_msgs ''payment_failed'')))"
proof -
  let ?s2 = "s\<lparr>ticks := ticks s + 1, calls := calls s + 4\<rparr>"
  note adv = advance_settled [OF assms(2) order_reach_ok [OF assms(1)] assms(4,5)]
  have get: "repo_order_GetByID oid (s\<lparr>ticks := ticks s + 1, calls := calls s + 1\<rparr>) =
      (Inr (r\<lparr>o_Items := items_of (db s) oid\<rparr>), ?s2)"
    using GetByID_healthy [of "s\<lparr>ticks := ticks s + 1, calls := calls s + 1\<rparr>" oid r] assms(2,4) by simp
  have id: "o_ID r = oid" using tbl_get_SomeD [OF assms(4)] by simp
  have h: "healthy ?s2" using assms(2) by simp
  show ?thesis
    using adv get id confirm_items_healthy [OF h assms(3)] release_items_healthy [OF h assms(3)]
    by (simp add: handlePaymentSucceeded_def handlePaymentFailed_def bindE_def bindS_def wrapE_def
        ret_def ms_def)
qed

end
