(* ===== verification/Saga.thy ===== *)
theory Saga
  imports OrderLife ProductProps
begin

text \<open>
  The order service and the product service together. \<open>remote_product\<close> is the product service as the
  order service sees it through gRPC: the product service's own handlers, run on a state of their own,
  with the list of the reservations it granted kept beside it. The interface \<open>product_port\<close> is
  interpreted on it, so that what the order service was shown to do above it holds of the two
  services. Then the whole way of an order that is refused: what was reserved for it is released again,
  and the releases, once delivered, give every product the stock it had.
\<close>

section \<open>The product service behind its gRPC interface\<close>

type_synonym product_world = "(product_db, message) cenv \<times> (string \<times> i32) list"

definition remote_product :: "product_svc \<Rightarrow> product_world product_stub" where
  "remote_product c =
     \<lparr>stub_GetProduct = (\<lambda>i (s, log). case grpc_GetProduct c (Some i) s of (r, s') \<Rightarrow> (r, (s', log))),
      stub_GetProductsByIDs = (\<lambda>ids (s, log). case grpc_GetProductsByIDs c (Some ids) s of
         (r, s') \<Rightarrow> (r, (s', log))),
      stub_ReserveStock = (\<lambda>req (s, log). case grpc_ReserveStock c (Some req) s of
         (Inl e, s') \<Rightarrow> (Inl e, (s', log))
       | (Inr _, s') \<Rightarrow> (Inr (), (s', log @ [(rq_ProductId req, rq_Quantity req)])))\<rparr>"

interpretation remote: product_port "remote_product c" snd for c
  by unfold_locales (auto simp: remote_product_def split: prod.splits sum.splits)

text \<open>
  C4: an order the service accepts has exactly its items reserved in the product service, and its
  \<open>order.created\<close> message is published with its id and its amount. When the request is refused, the
  releases it published are among the reservations it was granted; if nothing failed in the order
  service they are all of them, and no order is stored.
\<close>

theorem create_order_settles_reservations:
  assumes "os_stub c = remote_product pc" and "CreateOrder c ctx req s = (r, s')"
  shows "case r of
       Inr pb \<Rightarrow> snd (remote s') = snd (remote s) @ pb_item_keys pb \<and>
         (\<exists>e. bus s' = bus s @ [(RoutingKeyOrderCreated, EvOrderCreated e)] \<and>
           uuid_String (os_ul c) (oc_OrderID e) = pbo_Id pb \<and> oc_TotalAmount e = pbo_TotalAmount pb)
     | Inl _ \<Rightarrow> (\<exists>K L. snd (remote s') = snd (remote s) @ K \<and>
         released (os_ul c) (bus s') = released (os_ul c) (bus s) @ L \<and> subseq L K \<and>
         (healthy s \<and> publisher_ready c \<longrightarrow> L = K \<and> db s' = db s))"
  using remote.CreateOrder_settles [OF assms(2,1)] by (simp add: remote.settles_def)

section \<open>What the reservations hold\<close>

text \<open>The stock of a product: what is in stock and what of it is reserved.\<close>

definition stock_of :: "product_db \<Rightarrow> uuid \<Rightarrow> (int \<times> int) option" where
  "stock_of d pid = map_option (\<lambda>p. (sint (p_TotalStock p), sint (p_ReservedStock p)))
     (tbl_get p_ID (products d) pid)"

fun held :: "uuid_lib \<Rightarrow> (string \<times> i32) list \<Rightarrow> uuid \<Rightarrow> int" where
  "held u [] pid = 0"
| "held u ((k, q) # log) pid = (if uuid_Parse u k = Some pid then sint q else 0) + held u log pid"

lemma held_append [simp]: "held u (K @ L) pid = held u K pid + held u L pid"
  by (induction u K pid rule: held.induct) auto

text \<open>
  \<open>grown u b log\<close>: the product service is healthy and its products are those of \<open>b\<close> with the
  reservations \<open>log\<close> added.
\<close>

definition granted_on :: "uuid_lib \<Rightarrow> (uuid \<Rightarrow> (int \<times> int) option) \<Rightarrow> (string \<times> i32) list \<Rightarrow> bool" where
  "granted_on u b K \<longleftrightarrow> (\<forall>(k, q) \<in> set K. 0 < sint q \<and> (\<exists>pid. uuid_Parse u k = Some pid \<and> b pid \<noteq> None))"

definition grown :: "uuid_lib \<Rightarrow> (uuid \<Rightarrow> (int \<times> int) option) \<Rightarrow> (string \<times> i32) list \<Rightarrow>
    (product_db, message) cenv \<Rightarrow> bool" where
  "grown u b K t \<longleftrightarrow> healthy t \<and> product_db_ok (db t) \<and> granted_on u b K \<and>
     (\<forall>pid. stock_of (db t) pid = map_option (\<lambda>(n, r). (n, r + held u K pid)) (b pid))"

lemma keeps_healthy_product [keeps_rules]:
  "keeps healthy (store_InvalidateProduct u st i)"
  "keeps healthy (repo_ReserveStock i q)"
  "keeps healthy (repo_ReleaseStock i q)"
proof -
  have del: "keeps healthy (redis_Del ks)" for ks
    unfolding redis_Del_def by (rule keeps_healthy_extern) (simp add: keeps_def healthy_def)
  show "keeps healthy (store_InvalidateProduct u st i)"
    unfolding store_InvalidateProduct_def Cache_Delete_def by (intro keeps_rules del)
  show "keeps healthy (repo_ReserveStock i q)" "keeps healthy (repo_ReleaseStock i q)"
    unfolding repo_ReserveStock_def repo_ReleaseStock_def by (intro keeps_rules)+
qed

lemma stock_of_tbl_set:
  assumes "tbl_get p_ID (products d) i = Some p" and "p_ID p' = i"
  shows "stock_of (d\<lparr>products := tbl_set p_ID (products d) i p'\<rparr>) j =
    (if j = i then Some (sint (p_TotalStock p'), sint (p_ReservedStock p')) else stock_of d j)"
  using assms by (simp add: stock_of_def tbl_get_set)

lemma stored_row:
  assumes "product_db_ok d" and "tbl_get p_ID (products d) pid = Some p"
  shows "p_ID p = pid \<and> product_row_err p = None"
  using assms tbl_wf_row [of product_schema "products d" p_ID pid p]
  by (auto simp: product_db_ok_def dest: tbl_get_SomeD)

text \<open>A reservation in the product service.\<close>

lemma grown_reserve:
  assumes "grown (ul c) b K t" and "grpc_ReserveStock c (Some req) t = (r, t')"
  shows "grown (ul c) b (case r of Inl _ \<Rightarrow> K | Inr _ \<Rightarrow> K @ [(rq_ProductId req, rq_Quantity req)]) t'"
proof -
  let ?q = "rq_Quantity req"
  have t: "healthy t" "product_db_ok (db t)" "granted_on (ul c) b K"
    "\<And>pid. stock_of (db t) pid = map_option (\<lambda>(n, r). (n, r + held (ul c) K pid)) (b pid)"
    using assms(1) by (auto simp: grown_def)
  obtain x t1 where svc: "svc_ReserveStock c (Some req) t = (x, t1)" by (cases "svc_ReserveStock c (Some req) t")
  have t': "t' = t1" and x: "x = r \<or> (\<exists>e e'. x = Inl e \<and> r = Inl e')"
    using assms(2) svc
    by (auto simp: grpc_ReserveStock_def grpc_answer_def bindS_def fail_def ret_def split: sum.splits option.splits)
  have "healthy t1"
    using keepsD [of healthy "svc_ReserveStock c (Some req)" t x t1] t(1) svc
    unfolding svc_ReserveStock_def cached_ReserveStock_def parseProductID_def then_invalidate_def
    by (auto intro!: keeps_rules)
  show ?thesis
  proof (cases "uuid_Parse (ul c) (rq_ProductId req)")
    case None
    with svc have "t1 = t" "\<exists>e. x = Inl e"
      by (auto simp: svc_ReserveStock_def parseProductID_def bindE_def bindS_def fail_def)
    with assms(1) t' x show ?thesis by auto
  next
    case (Some pid)
    with svc have "then_invalidate c pid (repo_ReserveStock pid ?q) t = (x, t1)"
      by (simp add: svc_ReserveStock_def cached_ReserveStock_def parseProductID_def bindE_def bindS_def ret_def)
    from then_invalidate_cases [OF this] obtain t2 where
      run: "repo_ReserveStock pid ?q t = (x, t2)" and t2: "db t1 = db t2" by blast
    from reserve_cases [OF t(2) run] healthyD [OF t(1)] consider
        (refused) e where "x = Inl e" "db t2 = db t"
      | (granted) p where "x = Inr ()" "0 < sint ?q" "tbl_get p_ID (products (db t)) pid = Some p"
          "reserve_where pid ?q p"
          "db t2 = (db t)\<lparr>products := tbl_set p_ID (products (db t)) pid
            (p\<lparr>p_ReservedStock := p_ReservedStock p + ?q, p_UpdatedAt := clock t (ticks t)\<rparr>)\<rparr>"
      by auto
    then show ?thesis
    proof cases
      case refused
      with t t' x t2 \<open>healthy t1\<close> show ?thesis by (auto simp: grown_def)
    next
      case granted
      note row = stored_row [OF t(2) granted(3)]
      have ok: "product_db_ok (db t1)"
        using keepsD [of "\<lambda>s. product_db_ok (db s)" "svc_ReserveStock c (Some req)" t x t1] svc t(2)
          keeps_product_writes(4) by blast
      have base: "b pid \<noteq> None" using t(4) [of pid] granted(3) by (cases "b pid") (auto simp: stock_of_def)
      have sum: "sint (p_ReservedStock p + ?q) = sint (p_ReservedStock p) + sint ?q"
        using row granted(2,4) reserve_set_ok(3) [of p pid ?q] by blast
      have "stock_of (db t1) j = map_option (\<lambda>(n, r). (n, r + held (ul c)
          (K @ [(rq_ProductId req, ?q)]) j)) (b j)" for j
        using t(4) [of j] t(4) [of pid] granted(3,5) row base sum t2 Some
        by (cases "j = pid") (auto simp: stock_of_tbl_set [OF granted(3)] stock_of_def [of "db t" pid])
      moreover have "granted_on (ul c) b (K @ [(rq_ProductId req, ?q)])"
        using t(3) granted(2) Some base by (simp add: granted_on_def)
      ultimately show ?thesis
        using t' x granted(1) ok \<open>healthy t1\<close> by (auto simp: grown_def)
    qed
  qed
qed


text \<open>Reading products changes nothing that matters here.\<close>

lemma keeps_healthy_extern_state [keeps_rules]:
  "keeps healthy (redis_Get key)" "keeps healthy (redis_Set key data ttl)"
  unfolding redis_Get_def redis_Set_def
  by (rule keeps_healthy_extern, simp add: keeps_def healthy_def split: option.splits)+


lemma keeps_healthy_lookup: "keeps healthy (grpc_GetProductsByIDs c req)"
proof -
  have store: "keeps healthy (store_GetProduct u st i)" "keeps healthy (store_SetProduct u st p ttl)" for u st i p ttl
    unfolding store_GetProduct_def store_SetProduct_def Cache_Get_def Cache_Set_def
    by (intro keeps_rules)+
  have lookups: "keeps healthy (cached_lookups c ids res miss)" for ids res miss
  proof (induction ids arbitrary: res miss)
    case Nil
    then show ?case by (simp add: keeps_rules)
  next
    case (Cons i ids)
    then show ?case unfolding cached_lookups.simps by (intro keeps_rules store)
  qed
  have each: "keeps healthy (cache_each c ps res)" for ps res
  proof (induction ps arbitrary: res)
    case Nil
    then show ?case by (simp add: keeps_rules)
  next
    case (Cons p ps)
    then show ?case unfolding cache_each.simps by (intro keeps_rules store)
  qed
  have "keeps healthy (repo_GetByIDs ids)" for ids
    unfolding repo_GetByIDs_def by (intro keeps_rules)
  then show ?thesis
    unfolding grpc_GetProductsByIDs_def svc_GetProductsByIDs_def cached_GetByIDs_def
    by (intro keeps_rules lookups each)
qed

lemma grown_lookup:
  assumes "grown u b K t" and "grpc_GetProductsByIDs c req t = (r, t')"
  shows "grown u b K t'"
proof -
  have "healthy t'" using keepsD [OF keeps_healthy_lookup _ assms(2)] assms(1) by (simp add: grown_def)
  moreover have "db t' = db t"
    using keepsD [OF keeps_grpc_answer [OF keeps_product_reads(2) [of "\<lambda>d. d = db t"]] _
        assms(2) [unfolded grpc_GetProductsByIDs_def]] by simp
  ultimately show ?thesis using assms(1) by (simp add: grown_def)
qed

section \<open>A request to create an order reaches the product service by its client only\<close>

lemma keeps_remote_call [keeps_rules]:
  "(\<And>w. J w \<Longrightarrow> J (snd (m w))) \<Longrightarrow> keeps (\<lambda>s. J (remote s)) (client_call c m)"
  unfolding client_call_def
  by (intro keeps_rules keeps_extern) (auto simp: keeps_def on_remote_def split: prod.splits, metis snd_conv)

lemma keeps_remote_Publish [keeps_rules]:
  "keeps (\<lambda>s. J (remote s)) (Publish js p rk ev :: ('r, 'z, unit) os_comp)"
  unfolding Publish_def by (intro keeps_rules)

lemma keeps_remote_publishers [keeps_rules]:
  "keeps (\<lambda>s. J (remote s)) (PublishOrderCreated c oo)"
  "keeps (\<lambda>s. J (remote s)) (PublishStockReleaseRequested c p q reason)"
  unfolding PublishOrderCreated_def PublishStockReleaseRequested_def Let_def
  by (intro keeps_rules)+

lemma keeps_remote_compensate [keeps_rules]:
  "keeps (\<lambda>s. J (remote s)) (compensateReservations c items reason)"
proof -
  have "keeps (\<lambda>s. J (remote s)) (compensate_loop c items reason)"
  proof (induction items)
    case Nil
    then show ?case by (simp add: keeps_rules)
  next
    case (Cons item items)
    then show ?case unfolding compensate_loop.simps by (intro keeps_rules)
  qed
  then show ?thesis unfolding compensateReservations_def by (intro keeps_rules)
qed

lemma keeps_remote_repo [keeps_rules]:
  "keeps (\<lambda>s. J (remote s)) (repo_order_Create cfg oo)"
  "keeps (\<lambda>s. J (remote s)) (repo_UpdateStatus oid nxt)"
proof -
  have draw: "keeps (\<lambda>s. J (remote s)) (draw_uuids n)" for n
  proof (induction n)
    case 0
    then show ?case by (simp add: keeps_rules)
  next
    case (Suc n)
    then show ?case unfolding draw_uuids.simps by (intro keeps_rules)
  qed
  show "keeps (\<lambda>s. J (remote s)) (repo_order_Create cfg oo)"
    "keeps (\<lambda>s. J (remote s)) (repo_UpdateStatus oid nxt)"
    unfolding repo_order_Create_def create_order_tx_def repo_UpdateStatus_def Let_def
    by (intro keeps_rules draw)+
qed

lemma keeps_remote_CreateOrder:
  assumes lookup: "\<And>ids w. J w \<Longrightarrow> J (snd (stub_GetProductsByIDs (os_stub c) ids w))"
    and reserve: "\<And>rq w. J w \<Longrightarrow> J (snd (stub_ReserveStock (os_stub c) rq w))"
  shows "keeps (\<lambda>s. J (remote s)) (CreateOrder c ctx req)"
proof -
  have res: "keeps (\<lambda>s. J (remote s)) (reserve_loop c items reserved)" for items reserved
  proof (induction items arbitrary: reserved)
    case Nil
    then show ?case by (simp add: keeps_rules)
  next
    case (Cons item items)
    then show ?case unfolding reserve_loop.simps client_ReserveStock_def by (intro keeps_rules reserve)
  qed
  show ?thesis
    unfolding CreateOrder_def reserveItems_def buildOrderItems_def client_GetProductsByIDs_def Let_def
    by (intro keeps_rules lookup res)
qed


section \<open>Delivering the releases\<close>

fun release_events :: "message list \<Rightarrow> StockReleaseRequested list" where
  "release_events [] = []"
| "release_events ((k, EvStockRelease e) # ms) = e # release_events ms"
| "release_events (m # ms) = release_events ms"

lemma released_events:
  "released u ms = map (\<lambda>e. (uuid_String u (sr_ProductID e), sr_Quantity e)) (release_events ms)"
  by (induction ms rule: release_events.induct) auto

lemma MarkProcessed_fresh:
  assumes "healthy s" and "e \<notin> pe_event_id ` set (processed_events (db s))"
    and "pg_text (Some 50) ty = None"
  shows "MarkProcessed e ty i ord s = (Inr False, s\<lparr>calls := calls s + 1, db := (db s)\<lparr>processed_events :=
    processed_events (db s) @ [\<lparr>pe_event_id = e, pe_event_type = ty, pe_product_id = i, pe_order_id = ord\<rparr>]\<rparr>\<rparr>)"
  using assms
  by (simp add: MarkProcessed_def bindE_def bindS_def wrapE_def ret_def query_def extern_healthy on_db_def
      on_processed_def sql_inbox_def processed_row_err_def)

text \<open>A release that can be applied is applied, and acknowledged.\<close>

lemma release_event_ok:
  assumes "healthy t" and "product_db_ok (db t)" and "\<not> seen_event (sr_EventID ev) t"
    and row: "tbl_get p_ID (products (db t)) (sr_ProductID ev) = Some p"
      "0 < sint (sr_Quantity ev)" "sint (sr_Quantity ev) \<le> sint (p_ReservedStock p)"
  shows "\<exists>t'. release_event c ev t = (Inr (), t') \<and> healthy t' \<and> product_db_ok (db t') \<and>
    stock_of (db t') = (stock_of (db t))(sr_ProductID ev \<mapsto>
      (sint (p_TotalStock p), sint (p_ReservedStock p) - sint (sr_Quantity ev))) \<and>
    pe_event_id ` set (processed_events (db t')) = insert (sr_EventID ev) (pe_event_id ` set (processed_events (db t)))"
proof -
  let ?pid = "sr_ProductID ev" and ?q = "sr_Quantity ev"
  let ?body = "bindE (MarkProcessed (sr_EventID ev) eventTypeStockRelease ?pid (sr_OrderID ev))
      (\<lambda>already. if already then ret () else repo_ReleaseStock ?pid ?q)"
  let ?s0 = "t\<lparr>calls := calls t + 1\<rparr>"
  obtain s1 where mark: "MarkProcessed (sr_EventID ev) eventTypeStockRelease ?pid (sr_OrderID ev) ?s0 = (Inr False, s1)"
    and s1: "healthy s1" "products (db s1) = products (db t)"
      "pe_event_id ` set (processed_events (db s1)) = insert (sr_EventID ev) (pe_event_id ` set (processed_events (db t)))"
    using MarkProcessed_fresh [of ?s0 "sr_EventID ev" eventTypeStockRelease ?pid "sr_OrderID ev"] assms(1,3)
    by (simp add: seen_event_def eventTypeStockRelease_def pg_text_def char_count_def)
  have ok1: "product_db_ok (db s1)"
    using keepsD [OF keeps_MarkProcessed _ mark] assms(2) by simp
  obtain r s2 where rel: "repo_ReleaseStock ?pid ?q s1 = (r, s2)" by (cases "repo_ReleaseStock ?pid ?q s1")
  have h2: "healthy s2" using keepsD [OF keeps_healthy_product(3) s1(1) rel] .
  note p = stored_row [OF assms(2) row(1)]
  have rw: "release_where ?pid ?q p" using p row(3) by (simp add: release_where_def)
  from release_cases [OF ok1 rel] healthyD [OF s1(1)] row rw s1(2) have
    r: "r = Inr ()" and db2: "db s2 = (db s1)\<lparr>products := tbl_set p_ID (products (db s1)) ?pid
        (p\<lparr>p_ReservedStock := p_ReservedStock p - ?q, p_UpdatedAt := clock s1 (ticks s1)\<rparr>)\<rparr>"
    by auto
  have tx: "WithTx True (Some ?body) t = (Inr (), s2\<lparr>calls := calls s2 + 1\<rparr>)"
    using WithTx_healthy [OF assms(1), of ?body "()" s2] mark rel r h2 by (simp add: bindE_def bindS_def)
  let ?inv = "store_InvalidateProduct (ul c) (store c) ?pid (s2\<lparr>calls := calls s2 + 1\<rparr>)"
  obtain y s3 where step: "?inv = (y, s3)" by (cases ?inv)
  have inv: "healthy s3" "db s3 = db s2"
    using keepsD [OF keeps_healthy_product(1) _ step] h2
      store_InvalidateProduct_db [of "ul c" "store c" ?pid "s2\<lparr>calls := calls s2 + 1\<rparr>"] step by auto
  have run: "release_event c ev t = (Inr (), s3)"
    using tx step by (simp add: release_event_def bindE_def bindS_def ret_def case_prod_unfold)
  have "product_db_ok (db s2)"
    using keepsD [OF keeps_repo_ReleaseStock ok1 rel] .
  moreover have "stock_of (db s2) j = ((stock_of (db t))(?pid \<mapsto>
      (sint (p_TotalStock p), sint (p_ReservedStock p) - sint ?q))) j" for j
    using stock_of_tbl_set [of "db s1" ?pid p "p\<lparr>p_ReservedStock := p_ReservedStock p - ?q,
        p_UpdatedAt := clock s1 (ticks s1)\<rparr>" j] db2 row s1(2) p release_set_ok(3) [of p ?pid ?q] rw
    by (simp add: stock_of_def)
  moreover have "processed_events (db s2) = processed_events (db s1)" by (simp add: db2)
  ultimately show ?thesis using run inv s1(3) by (auto simp: fun_eq_iff)
qed


lemma held_nonneg: "granted_on u b K \<Longrightarrow> 0 \<le> held u K pid"
  by (induction u K pid rule: held.induct) (auto simp: granted_on_def)

abbreviation (input) release_key :: "uuid_lib \<Rightarrow> StockReleaseRequested \<Rightarrow> string \<times> i32" where
  "release_key u e \<equiv> (uuid_String u (sr_ProductID e), sr_Quantity e)"

lemma grown_release:
  assumes u: "uuid_ok u" and t: "grown u b (release_key u ev # K) t"
    and base: "\<And>pid n r. b pid = Some (n, r) \<Longrightarrow> 0 \<le> r" and fresh: "\<not> seen_event (sr_EventID ev) t"
  shows "\<exists>t'. release_event c ev t = (Inr (), t') \<and> grown u b K t' \<and>
    pe_event_id ` set (processed_events (db t')) = insert (sr_EventID ev) (pe_event_id ` set (processed_events (db t)))"
proof -
  let ?pid = "sr_ProductID ev" and ?q = "sr_Quantity ev"
  have parse: "uuid_Parse u (uuid_String u i) = Some i" for i using u by (simp add: uuid_ok_def)
  have g: "granted_on u b K" "0 < sint ?q" "b ?pid \<noteq> None"
    using t by (auto simp: grown_def granted_on_def parse)
  then obtain n r where b: "b ?pid = Some (n, r)" by (cases "b ?pid") auto
  then have stock: "stock_of (db t) ?pid = Some (n, r + (sint ?q + held u K ?pid))"
    using t by (simp add: grown_def parse)
  then obtain p where p: "tbl_get p_ID (products (db t)) ?pid = Some p" "sint (p_TotalStock p) = n"
      "sint (p_ReservedStock p) = r + (sint ?q + held u K ?pid)"
    by (auto simp: stock_of_def)
  then have "sint ?q \<le> sint (p_ReservedStock p)"
    using base [OF b] held_nonneg [OF g(1), of ?pid] by simp
  from release_event_ok [OF _ _ fresh p(1) g(2) this, of c] t obtain t' where
    t': "release_event c ev t = (Inr (), t')" "healthy t'" "product_db_ok (db t')"
      "stock_of (db t') = (stock_of (db t))(?pid \<mapsto> (n, r + held u K ?pid))"
      "pe_event_id ` set (processed_events (db t')) = insert (sr_EventID ev) (pe_event_id ` set (processed_events (db t)))"
    using p(2,3) by (auto simp: grown_def)
  have "stock_of (db t') pid = map_option (\<lambda>(n, r). (n, r + held u K pid)) (b pid)" for pid
    using t t'(4) b by (cases "pid = ?pid") (auto simp: grown_def parse)
  with t' g(1) show ?thesis by (auto simp: grown_def)
qed

lemma grown_update [simp]: "grown u b K (t\<lparr>calls := n\<rparr>) = grown u b K t"
  by (simp add: grown_def)

lemma deliver_releases:
  assumes u: "uuid_ok u" and base: "\<And>pid n r. b pid = Some (n, r) \<Longrightarrow> 0 \<le> r"
    and "grown u b (map (release_key u) evs) t" and "distinct (map sr_EventID evs)"
    and "\<forall>ev \<in> set evs. \<not> seen_event (sr_EventID ev) t"
    and "list_all2 (\<lambda>body ev. UnmarshalStockRelease (json c) body = Inr ev) bodies evs"
  shows "\<exists>t'. consume_loop (StockRelease_Handle c) (map Delivery bodies) t = (None, map Acked bodies, t') \<and>
    grown u b [] t'"
  using assms(3-6)
proof (induction evs arbitrary: t bodies)
  case Nil
  then show ?case by simp
next
  case (Cons ev evs)
  from Cons.prems(4) obtain body rest where bodies: "bodies = body # rest"
    "UnmarshalStockRelease (json c) body = Inr ev"
    "list_all2 (\<lambda>body ev. UnmarshalStockRelease (json c) body = Inr ev) rest evs"
    by (auto simp: list_all2_Cons2)
  from grown_release [where u = u and b = b and ev = ev and K = "map (release_key u) evs" and t = t and c = c]
    u base Cons.prems(1,3) obtain t1 where
    t1: "release_event c ev t = (Inr (), t1)" "grown u b (map (release_key u) evs) t1"
      "pe_event_id ` set (processed_events (db t1)) = insert (sr_EventID ev) (pe_event_id ` set (processed_events (db t)))"
    by auto
  let ?t2 = "t1\<lparr>calls := calls t1 + 1\<rparr>"
  have "\<forall>e \<in> set evs. \<not> seen_event (sr_EventID e) ?t2"
    using Cons.prems(2,3) t1(3) by (auto simp: seen_event_def) (metis image_eqI)
  with Cons.IH [of ?t2 rest] t1(2) Cons.prems(2) bodies(3) obtain t' where
    t': "consume_loop (StockRelease_Handle c) (map Delivery rest) ?t2 = (None, map Acked rest, t')" "grown u b [] t'"
    by auto
  have "StockRelease_Handle c body t = (Inr (), t1)" using t1(1) bodies(2) by (simp add: StockRelease_Handle_def)
  moreover have "extern (ret ()) t1 = (Inr (), ?t2)"
    using t1(2) by (simp add: grown_def extern_healthy ret_def)
  ultimately show ?case using t' bodies(1) by (auto simp del: StockRelease_Handle_def)
qed

text \<open>
  C5: an order that is refused leaves no stock behind. When neither the order service nor the product
  service fails in the course of the request, and the new event ids are not used before, delivering
  the releases the request published consumes every one of them and gives every product the stock and
  the reserved stock it had before the request.
\<close>

theorem refused_order_restores_stock:
  assumes "os_stub c = remote_product pc" and "os_ul c = ul pc" and "uuid_ok (ul pc)"
    and "healthy s" and "healthy (fst (remote s))" and "publisher_ready c"
    and "product_reach pc (fst (remote s))" and "CreateOrder c ctx req s = (Inl e, s')"
    and "release_events (bus s') = release_events (bus s) @ evs"
    and "list_all2 (\<lambda>body ev. UnmarshalStockRelease (json pc) body = Inr ev) bodies evs"
    and "distinct (map sr_EventID evs)" and "\<forall>ev \<in> set evs. \<not> seen_event (sr_EventID ev) (fst (remote s'))"
  shows "\<exists>t. consume_loop (StockRelease_Handle pc) (map Delivery bodies) (fst (remote s')) =
      (None, map Acked bodies, t) \<and> (\<forall>pid. stock_of (db t) pid = stock_of (db (fst (remote s))) pid)"
proof -
  let ?b = "stock_of (db (fst (remote s)))" and ?u = "ul pc"
  let ?J = "\<lambda>w. \<exists>K. snd w = snd (remote s) @ K \<and> grown ?u ?b K (fst w)"
  have ok: "product_db_ok (db (fst (remote s)))" using product_reach_ok [OF assms(7)] .
  have "keeps (\<lambda>s. ?J (remote s)) (CreateOrder c ctx req)"
  proof (rule keeps_remote_CreateOrder)
    fix ids and w :: product_world
    assume "?J w"
    then show "?J (snd (stub_GetProductsByIDs (os_stub c) ids w))"
      using grown_lookup by (fastforce simp: assms(1) remote_product_def split: prod.splits)
  next
    fix rq and w :: product_world
    assume "?J w"
    then obtain K where K: "snd w = snd (remote s) @ K" "grown ?u ?b K (fst w)" by blast
    obtain r t where "grpc_ReserveStock pc (Some rq) (fst w) = (r, t)" by (cases "grpc_ReserveStock pc (Some rq) (fst w)")
    with grown_reserve [OF K(2) this] K(1) show "?J (snd (stub_ReserveStock (os_stub c) rq w))"
      by (auto simp: assms(1) remote_product_def case_prod_unfold split: sum.splits)
  qed
  moreover have "?J (remote s)"
    using assms(5) ok by (auto simp: grown_def granted_on_def option.map_ident split_def)
  ultimately obtain K where K: "snd (remote s') = snd (remote s) @ K" "grown ?u ?b K (fst (remote s'))"
    using keepsD [where I = "\<lambda>s. ?J (remote s)" and m = "CreateOrder c ctx req"] assms(8) by blast
  from remote.CreateOrder_settles [OF assms(8,1)] assms(2,4,6) K(1) have
    "released ?u (bus s') = released ?u (bus s) @ K"
    by (auto simp: remote.settles_def)
  with assms(9) have evs: "K = map (release_key ?u) evs" by (simp add: released_events)
  have base: "0 \<le> r" if "?b pid = Some (n, r)" for pid n r
    using that product_db_ok_row [OF ok] by (auto simp: stock_of_def dest: tbl_get_SomeD)
  from deliver_releases [where b = ?b and evs = evs and t = "fst (remote s')" and c = pc and bodies = bodies]
    assms(3,10,11,12) base K(2) evs obtain t where
    "consume_loop (StockRelease_Handle pc) (map Delivery bodies) (fst (remote s')) = (None, map Acked bodies, t)"
    "grown ?u ?b [] t"
    by blast
  then show ?thesis by (auto simp: grown_def option.map_ident split_def)
qed


end
