(* ===== verification/OrderAmount.thy ===== *)
theory OrderAmount
  imports OrderLife
begin

text \<open>
  The amount of an order. The order row and its item rows are written by one transaction, the total
  is computed by the service in 64 bits and the subtotals by the database; the theorem says what the
  total of a stored order is worth, and the example how far it can be off.
\<close>

section \<open>The invariant\<close>

definition subtotals :: "order_db \<Rightarrow> uuid \<Rightarrow> i64" where
  "subtotals d oid = sum_list (map i_Subtotal [i \<leftarrow> order_items d. i_OrderID i = oid])"

definition amounts_ok :: "order_db \<Rightarrow> bool" where
  "amounts_ok d \<longleftrightarrow> order_db_ok d \<and>
     (\<forall>(oid, amount) \<in> set (map (\<lambda>r. (o_ID r, o_TotalAmount r)) (orders d)).
        amount = subtotals d oid \<and> (\<exists>i \<in> set (order_items d). i_OrderID i = oid)) \<and>
     (\<forall>i \<in> set (order_items d). i_OrderID i \<in> o_ID ` set (orders d))"

lemma amounts_status:
  assumes "amounts_ok d"
  shows "amounts_ok (snd (on_orders (sql_update orders_schema (status_where oid) (status_set nxt now)) d))"
proof -
  let ?d' = "snd (on_orders (sql_update orders_schema (status_where oid) (status_set nxt now)) d)"
  have "map (\<lambda>r. (o_ID r, o_TotalAmount r)) (orders ?d') = map (\<lambda>r. (o_ID r, o_TotalAmount r)) (orders d)"
    by (simp add: on_orders_def case_prod_unfold)
      (rule sql_update_map, auto simp: status_set_def)
  moreover from this have "o_ID ` set (orders ?d') = o_ID ` set (orders d)"
    by (metis (no_types, lifting) comp_def fst_conv image_cong image_image list.set_map)
  moreover have "order_items ?d' = order_items d" by (simp add: on_orders_def case_prod_unfold)
  ultimately show ?thesis
    using assms on_orders_ok(1) [of d "status_where oid" "status_set nxt now"]
    unfolding amounts_ok_def subtotals_def by simp
qed

lemma keeps_amounts_status:
  "keeps_db amounts_ok (query (on_orders (sql_update orders_schema (status_where oid) (status_set nxt now))))"
  by (rule keeps_query) (rule amounts_status)

section \<open>The transaction that stores an order\<close>

lemma create_order_tx_effect:
  assumes "create_order_tx cfg ord s = (Inr ord', s')" and "o_Items ord \<noteq> []"
  shows "\<exists>oid ids now rows row.
    item_rows oid ids now (map (\<lambda>item. item\<lparr>i_OrderID := oid\<rparr>) (o_Items ord)) = Inr rows \<and>
    o_ID row = oid \<and> o_TotalAmount row = o_TotalAmount ord \<and> o_UserID row = o_UserID ord \<and>
    o_Status row = OrderStatusPending \<and> o_ID ord' = oid \<and>
    oid \<notin> o_ID ` set (orders (db s)) \<and>
    db s' = (db s)\<lparr>orders := orders (db s) @ [row], order_items := order_items (db s) @ rows\<rparr>"
proof -
  let ?n = "length (o_Items ord)"
  let ?items = "\<lambda>oid. map (\<lambda>item. item\<lparr>i_OrderID := oid\<rparr>) (o_Items ord)"
  let ?row = "\<lambda>oid now. \<lparr>o_ID = oid, o_UserID = o_UserID ord, o_Status = ''pending'',
      o_TotalAmount = o_TotalAmount ord, o_Items = [], o_CreatedAt = now, o_UpdatedAt = now\<rparr>"
  from assms obtain now s1 oid s2 n1 s3 ids s4 x s5 where
    s1: "time_Now s = (Inr now, s1)" and s2: "uuid_New s1 = (Inr oid, s2)"
    and ins: "query (on_orders (sql_insert orders_schema (?row oid now))) s2 = (Inr n1, s3)"
    and ids: "draw_uuids ?n s3 = (Inr ids, s4)"
    and items: "query (on_items (insert_items oid ids now (?items oid))) s4 = (x, s5)"
    and rest: "(case x of Inl err \<Rightarrow> fail (items_error cfg err)
         | Inr rows \<Rightarrow> scan_returned cfg (?row oid now) (?items oid) rows) s5 = (Inr ord', s')"
    by (auto simp only: create_order_tx_def Let_def bindE_Inr wrapE_Inr bindS_iff length_greater_0_conv
        if_True not_False_eq_True simp_thms)
  from rest obtain ret where x: "x = Inr ret" and s': "s' = s5" and oid': "o_ID ord' = oid"
    by (cases x) (auto simp: fail_eq dest: scan_returned_Inr)
  have db2: "db s2 = db s" using s1 s2 by (auto simp: time_Now_def uuid_New_def)
  from query_Inr [OF ins] db2 have
    db3: "db s3 = (db s)\<lparr>orders := orders (db s) @ [?row oid now]\<rparr>" and new: "oid \<notin> o_ID ` set (orders (db s))"
    by (auto simp: on_orders_def sql_insert_def split: prod.splits option.splits if_splits)
  have db4: "db s4 = db s3" using keepsD [OF keeps_draw_uuids(1) [of "\<lambda>d. d = db s3"] _ ids] by simp
  from query_Inr [OF items [unfolded x]] obtain rows where
    rows: "item_rows oid ids now (?items oid) = Inr rows"
    and db5: "db s5 = (db s4)\<lparr>order_items := order_items (db s4) @ rows\<rparr>"
    by (auto simp: on_items_def insert_items_def split: prod.splits sum.splits if_splits)
  show ?thesis
    by (rule exI [of _ oid], rule exI [of _ ids], rule exI [of _ now], rule exI [of _ rows],
        rule exI [of _ "?row oid now"]) (use rows db5 db4 db3 s' new oid' in \<open>simp add: OrderStatusPending_def\<close>)
qed

lemma total_loop_sum:
  "(\<forall>i \<in> set items. i_Subtotal i = CalculateSubtotal i) \<Longrightarrow>
    total_loop items acc = acc + sum_list (map CalculateSubtotal items)"
  by (induction items arbitrary: acc) (auto simp: fill_subtotal_def)

lemma sum_list_subtotals:
  "(\<forall>r \<in> set rows. sint (i_Subtotal r) = sint (i_UnitPrice r) * sint (i_Quantity r)) \<Longrightarrow>
    sum_list (map i_Subtotal rows) = (word_of_int (\<Sum>r\<leftarrow>rows. sint (i_UnitPrice r) * sint (i_Quantity r)) :: i64)"
proof (induction rows)
  case Nil
  then show ?case by simp
next
  case (Cons r rows)
  have eq: "sint (i_Subtotal r) = sint (i_UnitPrice r) * sint (i_Quantity r)" using Cons.prems by simp
  have "i_Subtotal r = word_of_int (sint (i_Subtotal r))" by simp
  also have "\<dots> = word_of_int (sint (i_UnitPrice r) * sint (i_Quantity r))" by (simp only: eq)
  finally have "i_Subtotal r = word_of_int (sint (i_UnitPrice r) * sint (i_Quantity r))" .
  with Cons show ?case by simp
qed


lemma CalculateSubtotal_int:
  "CalculateSubtotal i = word_of_int (sint (i_UnitPrice i) * sint (i_Quantity i))"
  by (simp add: CalculateSubtotal_def)

lemma sum_list_CalculateSubtotal:
  "sum_list (map CalculateSubtotal items) =
    (word_of_int (\<Sum>i\<leftarrow>items. sint (i_UnitPrice i) * sint (i_Quantity i)) :: i64)"
  by (induction items) (simp_all add: CalculateSubtotal_int)

lemma item_rows_products:
  "item_rows oid ids now items = Inr rows \<Longrightarrow>
    map (\<lambda>r. sint (i_UnitPrice r) * sint (i_Quantity r)) rows =
    map (\<lambda>r. sint (i_UnitPrice r) * sint (i_Quantity r)) items"
proof -
  assume "item_rows oid ids now items = Inr rows"
  from item_rows_ok [OF this] have "zip (map i_UnitPrice rows) (map i_Quantity rows) =
      zip (map i_UnitPrice items) (map i_Quantity items)" by simp
  then have "map (\<lambda>(p, q). sint p * sint q) (zip (map i_UnitPrice rows) (map i_Quantity rows)) =
      map (\<lambda>(p, q). sint p * sint q) (zip (map i_UnitPrice items) (map i_Quantity items))" by simp
  then show ?thesis by (simp add: zip_map_fst_snd zip_map_map zip_same_conv_map comp_def)
qed

lemma stored_order_amounts:
  assumes "amounts_ok d" and "oid \<notin> o_ID ` set (orders d)" and "o_ID row = oid"
    and rows: "item_rows oid ids now items = Inr rows" and "items \<noteq> []"
    and "o_TotalAmount row = sum_list (map CalculateSubtotal items)"
    and ok: "order_db_ok (d\<lparr>orders := orders d @ [row], order_items := order_items d @ rows\<rparr>)"
  shows "amounts_ok (d\<lparr>orders := orders d @ [row], order_items := order_items d @ rows\<rparr>)"
proof -
  let ?d' = "d\<lparr>orders := orders d @ [row], order_items := order_items d @ rows\<rparr>"
  note r = item_rows_ok [OF rows]
  have own: "i_OrderID i = oid" if "i \<in> set rows" for i using r that by blast
  have other: "i_OrderID i \<noteq> oid" if "i \<in> set (order_items d)" for i
    using assms(1,2) that by (auto simp: amounts_ok_def)
  have "subtotals ?d' oid = sum_list (map i_Subtotal rows)"
    using own other by (simp add: subtotals_def filter_id_conv filter_empty_conv)
  also have "\<dots> = o_TotalAmount row"
    using r item_rows_products [OF rows]
    by (simp add: sum_list_subtotals assms(6) sum_list_CalculateSubtotal)
  finally have new: "o_TotalAmount row = subtotals ?d' oid" by simp
  have same: "subtotals ?d' i = subtotals d i" if "i \<noteq> oid" for i
    using own that by (auto simp: subtotals_def filter_empty_conv)
  have "rows \<noteq> []" using r assms(5) by auto
  then obtain i0 where i0: "i0 \<in> set rows" by (cases rows) auto
  have "amount = subtotals ?d' i \<and> (\<exists>j \<in> set (order_items ?d'). i_OrderID j = i)"
    if "(i, amount) \<in> set (map (\<lambda>r. (o_ID r, o_TotalAmount r)) (orders ?d'))" for i amount
  proof (cases "i = oid")
    case True
    with that assms(2,3) new own i0 show ?thesis by (auto simp: image_iff)
  next
    case False
    with that assms(3) have "(i, amount) \<in> set (map (\<lambda>r. (o_ID r, o_TotalAmount r)) (orders d))" by auto
    with assms(1) same [OF False] show ?thesis unfolding amounts_ok_def by fastforce
  qed
  moreover have "i_OrderID i \<in> o_ID ` set (orders ?d')" if "i \<in> set (order_items ?d')" for i
    using that own assms(1,3) by (auto simp: amounts_ok_def)
  ultimately show ?thesis using ok unfolding amounts_ok_def by blast
qed

text \<open>What the repository's \<open>Create\<close> can do: nothing, or store the order with its items.\<close>

lemma order_Create_cases:
  assumes run: "repo_order_Create cfg (Some ord) s = (r, s')"
    and subtotals: "\<forall>i \<in> set (o_Items ord). i_Subtotal i = CalculateSubtotal i"
  shows "(db s' = db s \<and> (\<exists>e. r = Inl e)) \<or>
    (\<exists>oid ids now rows row.
       item_rows oid ids now (map (\<lambda>item. item\<lparr>i_OrderID := oid\<rparr>) (o_Items ord)) = Inr rows \<and>
       o_ID row = oid \<and> o_Items ord \<noteq> [] \<and> o_TotalAmount row = sum_list (map CalculateSubtotal (o_Items ord)) \<and>
       o_UserID row = o_UserID ord \<and> o_Status row = OrderStatusPending \<and> oid \<notin> o_ID ` set (orders (db s)) \<and>
       db s' = (db s)\<lparr>orders := orders (db s) @ [row], order_items := order_items (db s) @ rows\<rparr> \<and>
       (\<forall>ord'. r = Inr ord' \<longrightarrow> o_ID ord' = oid))"
proof (cases "Order_Validate ord")
  case (Some e)
  with run show ?thesis by (auto simp: repo_order_Create_def fail_def)
next
  case None
  let ?ord = "snd (CalculateTotal ord)"
  from None run have tx: "WithTx True (Some (create_order_tx cfg ?ord)) s = (r, s')"
    by (simp add: repo_order_Create_def)
  from None have items: "o_Items ord \<noteq> []" "o_TotalAmount ord = fst (CalculateTotal ord)"
    by (auto simp: Order_Validate_def split: option.splits if_splits)
  have fill: "fill_subtotal i = i" if "i \<in> set (o_Items ord)" for i
    using subtotals that by (simp add: fill_subtotal_def)
  have total: "o_TotalAmount ?ord = sum_list (map CalculateSubtotal (o_Items ord))" "o_Items ?ord = o_Items ord"
      "o_UserID ?ord = o_UserID ord"
    using items(2) subtotals fill by (simp_all add: CalculateTotal_def total_loop_sum map_idI)
  from WithTx_cases [OF tx] consider "db s' = db s" "\<exists>e. r = Inl e"
    | a s2 where "create_order_tx cfg ?ord (s\<lparr>calls := calls s + 1\<rparr>) = (Inr a, s2)" "db s' = db s2"
      "r = Inr a \<or> (\<exists>e. r = Inl e)"
    by auto
  then show ?thesis
  proof cases
    case 2
    from create_order_tx_effect [OF 2(1)] total(2) items(1) obtain oid ids now rows row where
      "item_rows oid ids now (map (\<lambda>item. item\<lparr>i_OrderID := oid\<rparr>) (o_Items ord)) = Inr rows"
        "o_ID row = oid" "o_TotalAmount row = o_TotalAmount ?ord" "o_UserID row = o_UserID ?ord"
        "o_Status row = OrderStatusPending" "o_ID a = oid" "oid \<notin> o_ID ` set (orders (db s))"
        "db s' = (db s)\<lparr>orders := orders (db s) @ [row], order_items := order_items (db s) @ rows\<rparr>"
      using 2(2) by auto
    then show ?thesis
      using 2(3) total items(1)
      by (intro disjI2 exI [of _ oid] exI [of _ ids] exI [of _ now] exI [of _ rows] exI [of _ row]) auto
  qed simp
qed

lemma keeps_amounts_Create:
  assumes "\<forall>i \<in> set (o_Items ord). i_Subtotal i = CalculateSubtotal i"
  shows "keeps_db amounts_ok (repo_order_Create cfg (Some ord) :: ('z, Order) order_comp)"
proof (rule keepsI)
  fix s :: "(order_db, message, 'z) env_scheme"
  assume J: "amounts_ok (db s)"
  obtain r s' where run: "repo_order_Create cfg (Some ord) s = (r, s')" by (cases "repo_order_Create cfg (Some ord) s")
  have ok: "order_db_ok (db s')"
    using keepsD [OF keeps_repo_order_Create _ run] J by (simp add: amounts_ok_def)
  from order_Create_cases [OF run assms] show "amounts_ok (db (snd (repo_order_Create cfg (Some ord) s)))"
  proof (elim disjE exE conjE)
    fix oid ids now rows row
    assume rows: "item_rows oid ids now (map (\<lambda>item. item\<lparr>i_OrderID := oid\<rparr>) (o_Items ord)) = Inr rows"
      and row: "o_ID row = oid" "o_Items ord \<noteq> []" "oid \<notin> o_ID ` set (orders (db s))"
        "o_TotalAmount row = sum_list (map CalculateSubtotal (o_Items ord))"
      and db': "db s' = (db s)\<lparr>orders := orders (db s) @ [row], order_items := order_items (db s) @ rows\<rparr>"
    have "map CalculateSubtotal (map (\<lambda>item. item\<lparr>i_OrderID := oid\<rparr>) (o_Items ord)) =
        map CalculateSubtotal (o_Items ord)"
      by (simp add: CalculateSubtotal_def)
    with stored_order_amounts [OF J row(3,1) rows] row(2,4) ok db' run show ?thesis
      by (simp del: map_map)
  qed (use J run in simp)
qed


section \<open>The operations of the service\<close>

lemma make_items_subtotals:
  "make_items u m reqs items = Inr res \<Longrightarrow> \<forall>i \<in> set items. i_Subtotal i = CalculateSubtotal i \<Longrightarrow>
    \<forall>i \<in> set res. i_Subtotal i = CalculateSubtotal i"
proof (induction u m reqs items rule: make_items.induct)
  case (3 u m req reqs items)
  then obtain name price where "m (ci_ProductId req) = Some (name, price, True)"
    by (auto split: option.splits if_splits)
  with 3 show ?case by (auto simp: CalculateSubtotal_def mult.commute)
qed auto

lemma buildOrderItems_subtotals:
  "buildOrderItems c reqs s = (Inr items, s') \<Longrightarrow> \<forall>i \<in> set items. i_Subtotal i = CalculateSubtotal i"
  by (auto simp: buildOrderItems_def of_sum_Inr bindE_Inr fail_eq split: if_splits dest!: make_items_subtotals)

lemma keeps_build_then:
  "(\<And>items. \<forall>i \<in> set items. i_Subtotal i = CalculateSubtotal i \<Longrightarrow> keeps_db J (k items)) \<Longrightarrow>
    keeps_db J (bindE (buildOrderItems c reqs) k)"
  by (rule keeps_bindE_post [OF keeps_buildOrderItems buildOrderItems_subtotals])

lemma keeps_amounts_ops:
  "keeps_db amounts_ok (CreateOrder c ctx req)"
  "keeps_db amounts_ok (on_payment_completed c body)"
  "keeps_db amounts_ok (on_payment_failed c body)"
proof -
  have upd: "keeps_db amounts_ok (repo_UpdateStatus oid nxt)" for oid nxt
    unfolding repo_UpdateStatus_def by (intro keeps_rules keeps_amounts_status)
  have fill: "i_Subtotal (fill_subtotal i) = CalculateSubtotal (fill_subtotal i)"
    if "i_Subtotal i = CalculateSubtotal i" for i
    using that by (simp add: fill_subtotal_def CalculateSubtotal_def)
  have create: "keeps_db amounts_ok (repo_order_Create cfg (Some
      ((snd (CalculateTotal ord))\<lparr>o_TotalAmount := amount\<rparr>)))"
    if "\<forall>i \<in> set (o_Items ord). i_Subtotal i = CalculateSubtotal i" for cfg ord amount
    by (rule keeps_amounts_Create) (use that fill in \<open>auto simp: CalculateTotal_def\<close>)
  show "keeps_db amounts_ok (CreateOrder c ctx req)"
    unfolding CreateOrder_def Let_def case_prod_unfold reserveItems_def
    by (rule keeps_case_option, rule keeps_fail, rule keeps_if, rule keeps_fail,
        rule keeps_bindE [OF keeps_requireAuthenticated], rule keeps_case_option, rule keeps_fail,
        rule keeps_build_then, rule keeps_bindE [OF keeps_reserve_loop], rule keeps_bindS,
        rule create, simp, intro keeps_rules upd)
  show "keeps_db amounts_ok (on_payment_completed c body)"
    "keeps_db amounts_ok (on_payment_failed c body)"
    unfolding on_payment_completed_def on_payment_failed_def handlePaymentSucceeded_def
      handlePaymentFailed_def advance_status_def
    by (intro keeps_rules upd)+
qed


text \<open>
  C15: the amount of an order on file is the sum of price times quantity over its items on file,
  of which there is at least one, computed in 64 bits: it is exact whenever the sum fits them.
\<close>

theorem order_amount_is_sum_of_items:
  assumes "order_reach c s" and "r \<in> set (orders (db s))"
  defines "items \<equiv> [i \<leftarrow> order_items (db s). i_OrderID i = o_ID r]"
  defines "true_sum \<equiv> (\<Sum>i\<leftarrow>items. sint (i_UnitPrice i) * sint (i_Quantity i))"
  shows "items \<noteq> [] \<and> o_TotalAmount r = word_of_int true_sum \<and>
    (fits64 true_sum \<longrightarrow> sint (o_TotalAmount r) = true_sum)"
proof -
  from assms(1) obtain s0 where s0: "db s0 = empty_orders" "order_path c s0 s" by (auto simp: order_reach_def)
  have "amounts_ok (db s0)"
    by (simp add: s0(1) empty_orders_def amounts_ok_def order_db_ok_def tbl_wf_def)
  from order_path_keeps [OF s0(2) this keeps_amounts_ops] have ok: "amounts_ok (db s)" .
  have "(o_ID r, o_TotalAmount r) \<in> set (map (\<lambda>r. (o_ID r, o_TotalAmount r)) (orders (db s)))"
    using assms(2) by auto
  with ok have r: "o_TotalAmount r = subtotals (db s) (o_ID r)"
    "\<exists>i \<in> set (order_items (db s)). i_OrderID i = o_ID r"
    unfolding amounts_ok_def by auto
  have "\<forall>i \<in> set items. sint (i_Subtotal i) = sint (i_UnitPrice i) * sint (i_Quantity i)"
    using ok by (auto simp: items_def amounts_ok_def order_db_ok_def)
  from sum_list_subtotals [OF this] have total: "o_TotalAmount r = word_of_int true_sum"
    by (simp only: r(1) subtotals_def items_def true_sum_def)
  moreover have "items \<noteq> []" using r(2) by (auto simp: items_def filter_empty_conv)
  moreover have "sint (o_TotalAmount r) = true_sum" if "fits64 true_sum"
    using total that by (simp only: sint_of_int64)
  ultimately show ?thesis by blast
qed








end
