(* ===== verification/Shop.thy ===== *)
theory Shop
  imports Saga OrderAmount
begin

text \<open>
  A concrete run of the order service and the product service, on which the theorems about them are
  applied: a product with ten pieces in stock, an order for four of them, its payment, and an order for
  more than there is.
\<close>

section \<open>A concrete shop\<close>

text \<open>
  A product service with ten pieces of product 1, an order service in front of it, an order for four
  pieces, and its payment.
\<close>

definition shop_release :: StockReleaseRequested where
  "shop_release = \<lparr>sr_EventID = 1, sr_OrderID = 0, sr_ProductID = 1, sr_Quantity = 4,
     sr_Reason = ''reservation_failed'', sr_RequestedAt = 0\<rparr>"

definition shop_products :: product_svc where
  "shop_products = demo_svc\<lparr>json := demo_json\<lparr>UnmarshalStockRelease := (\<lambda>_. Inr shop_release)\<rparr>\<rparr>"

definition shop_stock :: "(product_db, message) cenv" where
  "shop_stock = product_step shop_products (CreateProduct admin_ctx (Some demo_create)) demo_start"

definition shop_json :: event_json where
  "shop_json = demo_json\<lparr>UnmarshalPaymentCompleted := (\<lambda>_. Inr \<lparr>pc_EventID = 90, pc_OrderID = 1,
     pc_PaymentID = 91, pc_GatewayName = ''zarinpal'', pc_GatewayRefID = ''5'', pc_CompletedAt = 0\<rparr>)\<rparr>"

definition shop_orders :: "product_world order_svc" where
  "shop_orders = \<lparr>os_ul = plain_uuid, os_status = plain_status_lib, os_json = shop_json,
     os_publisher = Some \<lparr>channel_ok = True, exchange = ''payment_events''\<rparr>, os_cfg = \<lparr>returning = id, early_error = False\<rparr>,
     os_stub = remote_product shop_products\<rparr>"

definition shop_start :: "(order_db, message, product_world) renv" where
  "shop_start = \<lparr>faults = \<lambda>_. None, calls = 0, clock = int, ticks = 0, gen = \<lambda>n. of_nat n + 1, gens = 0,
     db = empty_orders, bus = [], remote = (shop_stock, [])\<rparr>"

definition buyer_ctx :: reqctx where
  "buyer_ctx = \<lparr>ctx_claims = Some \<lparr>UserID = ''7'', Role = ''user'', IssuedAt = 0, ExpiresAt = 60\<rparr>,
     ctx_metadata = None, ctx_peer = None\<rparr>"

definition pieces :: "i32 \<Rightarrow> CreateOrderItemRequest option" where
  "pieces n = Some \<lparr>ci_ProductId = ''1'', ci_Quantity = n\<rparr>"

definition shop_ordered :: "(order_db, message, product_world) renv" where
  "shop_ordered = order_step shop_orders (OpCreateOrder buyer_ctx (Some [pieces 4])) shop_start"

definition shop_paid :: "(order_db, message, product_world) renv" where
  "shop_paid = order_step shop_orders (PaymentCompletedMessage ''p'') shop_ordered"


lemma shop_start_healthy: "healthy shop_start"
  by (simp add: shop_start_def healthy_def)

lemma shop_ready: "publisher_ready shop_orders"
  by (simp add: publisher_ready_def shop_orders_def shop_json_def demo_json_def)

lemma keeps_healthy_orders:
  "keeps healthy (CreateOrder c ctx req)" "keeps healthy (on_payment_completed c body)"
proof -
  have call: "keeps healthy (client_call c m)" for m
    unfolding client_call_def by (intro keeps_rules)
  have publish: "keeps healthy (Publish js p rk ev)" for js p rk ev
    unfolding Publish_def by (intro keeps_rules keeps_healthy_extern)
  have pub: "keeps healthy (PublishOrderCreated c oo)" "keeps healthy (PublishStockReleaseRequested c i q reason)"
    "keeps healthy (PublishStockConfirmRequested c oid i q)" for oo i q reason oid
    unfolding PublishOrderCreated_def PublishStockReleaseRequested_def PublishStockConfirmRequested_def Let_def
    by (intro keeps_rules publish)+
  have comp: "keeps healthy (compensateReservations c items reason)" for items reason
  proof -
    have "keeps healthy (compensate_loop c items reason)"
    proof (induction items)
      case Nil
      then show ?case by (simp add: keeps_rules)
    next
      case (Cons item items)
      then show ?case unfolding compensate_loop.simps by (intro keeps_rules pub)
    qed
    then show ?thesis unfolding compensateReservations_def by (intro keeps_rules)
  qed
  have res: "keeps healthy (reserve_loop c items reserved)" for items reserved
  proof (induction items arbitrary: reserved)
    case Nil
    then show ?case by (simp add: keeps_rules)
  next
    case (Cons item items)
    then show ?case unfolding reserve_loop.simps client_ReserveStock_def by (intro keeps_rules call comp)
  qed
  have repo: "keeps healthy (repo_order_Create cfg oo)" "keeps healthy (repo_UpdateStatus oid nxt)"
    "keeps healthy (repo_order_GetByID oid)" for cfg oo oid nxt
    unfolding repo_order_Create_def repo_UpdateStatus_def repo_order_GetByID_def repo_getItems_def Let_def
    by (intro keeps_rules create_order_tx_healthy keeps_healthy_extern)+
  have conf: "keeps healthy (confirm_items c oid items)" for oid items
  proof (induction items)
    case Nil
    then show ?case by (simp add: keeps_rules)
  next
    case (Cons item items)
    then show ?case unfolding confirm_items.simps by (intro keeps_rules pub)
  qed
  show "keeps healthy (CreateOrder c ctx req)"
    unfolding CreateOrder_def reserveItems_def buildOrderItems_def client_GetProductsByIDs_def Let_def
    by (intro keeps_rules call res comp repo pub)
  show "keeps healthy (on_payment_completed c body)"
    unfolding on_payment_completed_def handlePaymentSucceeded_def advance_status_def
    by (intro keeps_rules repo conf)
qed

lemma keeps_healthy_order_step:
  "healthy s \<Longrightarrow> healthy (order_step c (OpCreateOrder ctx req) s)"
  "healthy s \<Longrightarrow> healthy (order_step c (PaymentCompletedMessage body) s)"
  unfolding order_step.simps grpc_CreateOrder_def
  by (rule keepsD [OF keeps_grpc_answer [OF keeps_healthy_orders(1)]], assumption, rule surjective_pairing)
    (rule keepsD [OF keeps_healthy_orders(2)], assumption, rule surjective_pairing)


lemma shop_paths:
  "order_path shop_orders shop_start shop_ordered" "order_path shop_orders shop_ordered shop_paid"
  "order_path shop_orders shop_start shop_paid"
  unfolding shop_paid_def shop_ordered_def by (intro order_path.intros)+

lemma shop_reach: "order_reach shop_orders shop_ordered" "order_reach shop_orders shop_paid"
  unfolding order_reach_def using shop_paths
  by (auto intro!: exI [of _ shop_start]) (simp_all add: shop_start_def)

lemma shop_paid_healthy: "healthy shop_paid"
  unfolding shop_paid_def shop_ordered_def by (intro keeps_healthy_order_step shop_start_healthy)

definition shop_order :: Order where
  "shop_order = \<lparr>o_ID = 1, o_UserID = 7, o_Status = ''pending'', o_TotalAmount = 12, o_Items = [],
     o_CreatedAt = 0, o_UpdatedAt = 0\<rparr>"

lemma shop_tables:
  "orders (db shop_ordered) = [shop_order]"
  "orders (db shop_paid) = [shop_order\<lparr>o_Status := ''confirmed'', o_UpdatedAt := 1\<rparr>]"
  by code_simp+

theorem order_status_final_witness:
  "\<exists>r'. tbl_get o_ID (orders (db shop_paid)) 1 = Some r' \<and> o_UserID r' = 7 \<and> o_TotalAmount r' = 12"
  using order_status_final [OF shop_reach(1) shop_paths(2), of 1 shop_order]
  by (auto simp: shop_tables shop_order_def)

theorem orders_are_private_witness:
  "\<exists>pb s' cl. GetOrder shop_orders buyer_ctx (Some ''1'') shop_ordered = (Inr pb, s') \<and>
    ClaimsFromContext buyer_ctx = Some cl \<and> UserID cl = pbo_UserId pb"
proof -
  have ul: "uuid_ok (os_ul shop_orders)" by (simp add: shop_orders_def)
  have "(case fst (GetOrder shop_orders buyer_ctx (Some ''1'') shop_ordered) of Inr pb \<Rightarrow> True | Inl _ \<Rightarrow> False)"
    by code_simp
  then obtain pb s' where run: "GetOrder shop_orders buyer_ctx (Some ''1'') shop_ordered = (Inr pb, s')"
    by (cases "GetOrder shop_orders buyer_ctx (Some ''1'') shop_ordered") (auto split: sum.splits)
  with orders_are_private [OF ul, of buyer_ctx "Some ''1''" shop_ordered pb s'] show ?thesis
    by (auto simp: ClaimsFromContext_def buyer_ctx_def)
qed

theorem settled_order_publishes_again_witness:
  "\<exists>s'. on_payment_completed shop_orders ''p'' shop_paid = (Inr (), s') \<and> db s' = db shop_paid \<and>
    bus s' = bus shop_paid @ [(RoutingKeyStockConfirmRequested, EvStockConfirm \<lparr>sc_EventID = 5, sc_OrderID = 1,
      sc_ProductID = 1, sc_Quantity = 4, sc_RequestedAt = 4\<rparr>)]"
proof -
  let ?pc = "\<lparr>pc_EventID = 90, pc_OrderID = 1, pc_PaymentID = 91, pc_GatewayName = ''zarinpal'',
      pc_GatewayRefID = ''5'', pc_CompletedAt = 0\<rparr>"
  have "UnmarshalPaymentCompleted (os_json shop_orders) ''p'' = Inr ?pc"
    by (simp add: shop_orders_def shop_json_def)
  then have handler: "on_payment_completed shop_orders ''p'' shop_paid = handlePaymentSucceeded shop_orders ?pc shop_paid"
    by (simp add: on_payment_completed_def)
  have row: "tbl_get o_ID (orders (db shop_paid)) 1 = Some (shop_order\<lparr>o_Status := ''confirmed'', o_UpdatedAt := 1\<rparr>)"
    by (simp add: shop_tables shop_order_def)
  have msgs: "confirm_msgs 1 (gen shop_paid) (gens shop_paid) (clock shop_paid) (ticks shop_paid + 1)
      (items_of (db shop_paid) 1) = [(RoutingKeyStockConfirmRequested, EvStockConfirm \<lparr>sc_EventID = 5,
        sc_OrderID = 1, sc_ProductID = 1, sc_Quantity = 4, sc_RequestedAt = 4\<rparr>)]"
    by code_simp
  from settled_order_publishes_again [OF shop_reach(2) shop_paid_healthy shop_ready row, of ?pc]
  show ?thesis unfolding handler msgs by simp
qed

theorem create_order_settles_reservations_witness:
  "snd (remote shop_ordered) = [(''1'', 4)]"
proof -
  obtain r s' where run: "CreateOrder shop_orders buyer_ctx (Some [pieces 4]) shop_start = (r, s')"
    by (cases "CreateOrder shop_orders buyer_ctx (Some [pieces 4]) shop_start")
  have "(case fst (CreateOrder shop_orders buyer_ctx (Some [pieces 4]) shop_start) of
      Inr pb \<Rightarrow> pb_item_keys pb = [(''1'', 4)] | Inl _ \<Rightarrow> False)"
    by code_simp
  with run obtain pb where pb: "r = Inr pb" "pb_item_keys pb = [(''1'', 4)]" by (auto split: sum.splits)
  have "shop_ordered = s'"
    using run pb by (simp add: shop_ordered_def grpc_CreateOrder_def grpc_answer_def bindS_def ret_def)
  with create_order_settles_reservations [of shop_orders shop_products, OF _ run] pb show ?thesis
    by (simp add: shop_orders_def shop_start_def)
qed

lemma shop_stock_reach: "product_reach shop_products shop_stock"
  unfolding shop_stock_def
  by (rule product_reach.step, rule product_reach.start) (simp add: demo_start_def idle_cenv_def)

lemma shop_stock_healthy: "healthy shop_stock"
proof -
  have "keeps healthy
      (grpc_CreateProduct shop_products admin_ctx (Some demo_create) :: (unit, pb_Product) cached_comp)"
    unfolding product_grpc_defs product_svc_defs cached_defs repo_Create_def by (intro keeps_rules)
  moreover have "healthy demo_start" by (simp add: demo_start_def idle_cenv_def healthy_def)
  ultimately show ?thesis by (simp add: shop_stock_def keeps_def)
qed

theorem refused_order_restores_stock_witness:
  "\<exists>t. consume_loop (StockRelease_Handle shop_products) [Delivery ''x'']
      (fst (remote (snd (CreateOrder shop_orders buyer_ctx (Some [pieces 4, pieces 7]) shop_start)))) =
      (None, [Acked ''x''], t) \<and> stock_of (db t) 1 = stock_of (db shop_stock) 1"
proof -
  let ?run = "CreateOrder shop_orders buyer_ctx (Some [pieces 4, pieces 7]) shop_start"
  have "(case fst ?run of Inl _ \<Rightarrow> True | Inr _ \<Rightarrow> False)" by code_simp
  then obtain e where run: "?run = (Inl e, snd ?run)" by (cases "?run") (auto split: sum.splits)
  have sent: "release_events (bus (snd ?run)) = release_events (bus shop_start) @ [shop_release]" by code_simp
  have fresh: "\<not> seen_event 1 (fst (remote (snd ?run)))" by code_simp
  have id: "sr_EventID shop_release = 1" by (simp add: shop_release_def)
  from refused_order_restores_stock [of shop_orders shop_products shop_start buyer_ctx
      "Some [pieces 4, pieces 7]" e "snd ?run" "[shop_release]" "[''x'']"]
  have "\<exists>t. consume_loop (StockRelease_Handle shop_products) (map Delivery [''x'']) (fst (remote (snd ?run))) =
      (None, map Acked [''x''], t) \<and> (\<forall>pid. stock_of (db t) pid = stock_of (db (fst (remote shop_start))) pid)"
    using run sent fresh id shop_start_healthy shop_stock_healthy shop_ready shop_stock_reach
    by (simp add: shop_orders_def shop_products_def demo_svc_def shop_start_def)
  then show ?thesis by (simp add: shop_start_def) blast
qed


theorem order_amount_is_sum_of_items_witness:
  "sint (o_TotalAmount shop_order) = 12"
proof -
  have "shop_order \<in> set (orders (db shop_ordered))" by (simp add: shop_tables)
  moreover have "(\<Sum>i\<leftarrow>[i \<leftarrow> order_items (db shop_ordered). i_OrderID i = o_ID shop_order].
      sint (i_UnitPrice i) * sint (i_Quantity i)) = 12"
    by code_simp
  ultimately show ?thesis
    using order_amount_is_sum_of_items [OF shop_reach(1), of shop_order] by (simp add: fits64_def)
qed

section \<open>A payment message delivered twice\<close>






end
