(* ===== verification/Payment.thy ===== *)
theory Payment
  imports Events
begin

text \<open>
  \<open>services/payment-service/internal/model/payment.go\<close> and \<open>internal/repository\<close> (\<open>payment.go\<close>,
  \<open>event.go\<close>), over the tables of \<open>migrations/\<close>. A Go \<open>*string\<close> is a \<open>string option\<close>; \<open>Metadata\<close>, which
  the code only ever makes empty, is an association list. The trigger of the table sets \<open>updated_at\<close>
  on every UPDATE, whatever the statement says.

  The lemmas give the life of a payment in memory, the effect of each statement, and the table
  invariant \<open>payment_db_ok\<close>.
\<close>

section \<open>The model\<close>

definition PaymentStatusPending :: string where "PaymentStatusPending = ''pending''"
definition PaymentStatusCompleted :: string where "PaymentStatusCompleted = ''completed''"
definition PaymentStatusFailed :: string where "PaymentStatusFailed = ''failed''"
definition PaymentStatusCanceled :: string where "PaymentStatusCanceled = ''canceled''"
definition PaymentStatusRefunded :: string where "PaymentStatusRefunded = ''refunded''"
definition PaymentStatusExpired :: string where "PaymentStatusExpired = ''expired''"
definition PaymentStatusAwaitingPayment :: string where "PaymentStatusAwaitingPayment = ''awaiting''"

lemmas payment_status_defs =
  PaymentStatusPending_def PaymentStatusCompleted_def PaymentStatusFailed_def
  PaymentStatusCanceled_def PaymentStatusRefunded_def PaymentStatusExpired_def
  PaymentStatusAwaitingPayment_def

definition CurrencyIRR :: string where
  "CurrencyIRR = ''IRR''"

record Payment =
  y_ID :: uuid
  y_OrderID :: uuid
  y_UserID :: uuid
  y_Currency :: string
  y_Amount :: i64
  y_Status :: string
  y_GatewayName :: "string option"
  y_GatewayRefID :: "string option"
  y_Authority :: "string option"
  y_RedirectURL :: "string option"
  y_FailureReason :: "string option"
  y_Metadata :: "(string \<times> string) list"
  y_CreatedAt :: time
  y_UpdatedAt :: time

definition NewPendingPayment ::
  "uuid \<Rightarrow> uuid \<Rightarrow> i64 \<Rightarrow> (('d, 'm, 'z) env_scheme, Payment) comp" where
  "NewPendingPayment orderID userID amount =
     bindE time_Now (\<lambda>now. bindE uuid_New (\<lambda>pid. ret
       \<lparr>y_ID = pid, y_OrderID = orderID, y_UserID = userID, y_Currency = CurrencyIRR,
        y_Amount = amount, y_Status = PaymentStatusPending, y_GatewayName = None,
        y_GatewayRefID = None, y_Authority = None, y_RedirectURL = None, y_FailureReason = None,
        y_Metadata = [], y_CreatedAt = now, y_UpdatedAt = now\<rparr>))"

text \<open>The transitions of a payment in memory: \<open>now\<close> is the \<open>time.Now()\<close> of the call.\<close>

definition MarkAwaitingPayment ::
  "string \<Rightarrow> string \<Rightarrow> string \<Rightarrow> time \<Rightarrow> Payment \<Rightarrow> goerr + Payment" where
  "MarkAwaitingPayment gatewayName authority redirectURL now p =
     (if y_Status p \<noteq> PaymentStatusPending
      then Inl (New KindInvalidInput ''only pending payments can transition to awaiting payment'')
      else Inr (p\<lparr>y_GatewayName := Some gatewayName, y_Authority := Some authority,
        y_RedirectURL := Some redirectURL, y_Status := PaymentStatusAwaitingPayment,
        y_UpdatedAt := now\<rparr>))"

definition Payment_Validate :: "Payment \<Rightarrow> goerr + Payment" where
  "Payment_Validate p =
     (if y_OrderID p = uuid_Nil
      then Inl (New KindInvalidInput ''payment must reference an order'')
      else if y_UserID p = uuid_Nil
      then Inl (New KindInvalidInput ''payment must reference a user'')
      else if sint (y_Amount p) \<le> 0
      then Inl (New KindInvalidInput ''payment amount must be greater than zero'')
      else if y_Currency p = '''' then Inr (p\<lparr>y_Currency := CurrencyIRR\<rparr>)
      else Inr p)"

definition pay_CanTransitionTo :: "Payment \<Rightarrow> string \<Rightarrow> bool" where
  "pay_CanTransitionTo p next =
     (if y_Status p = PaymentStatusCompleted then next = PaymentStatusRefunded
      else if y_Status p = PaymentStatusFailed \<or> y_Status p = PaymentStatusCanceled \<or>
        y_Status p = PaymentStatusExpired \<or> y_Status p = PaymentStatusRefunded then False
      else if y_Status p = PaymentStatusPending
      then next = PaymentStatusCompleted \<or> next = PaymentStatusFailed \<or>
        next = PaymentStatusCanceled \<or> next = PaymentStatusExpired
      else False)"

definition MarkCompleted :: "string \<Rightarrow> string \<Rightarrow> time \<Rightarrow> Payment \<Rightarrow> goerr + Payment" where
  "MarkCompleted gatewayName gatewayRefID now p =
     (if \<not> pay_CanTransitionTo p PaymentStatusCompleted
      then Inl (New KindInvalidInput (''payment cannot transition to completed from '' @ y_Status p))
      else Inr (p\<lparr>y_Status := PaymentStatusCompleted, y_GatewayName := Some gatewayName,
        y_GatewayRefID := Some gatewayRefID, y_FailureReason := None, y_UpdatedAt := now\<rparr>))"

definition MarkFailed :: "string \<Rightarrow> time \<Rightarrow> Payment \<Rightarrow> goerr + Payment" where
  "MarkFailed reason now p =
     (if \<not> pay_CanTransitionTo p PaymentStatusFailed
      then Inl (New KindInvalidInput (''payment cannot transition to failed from '' @ y_Status p))
      else Inr (p\<lparr>y_Status := PaymentStatusFailed, y_FailureReason := Some reason, y_UpdatedAt := now\<rparr>))"

definition MarkExpired :: "time \<Rightarrow> Payment \<Rightarrow> goerr + Payment" where
  "MarkExpired now p =
     (if \<not> pay_CanTransitionTo p PaymentStatusExpired
      then Inl (New KindInvalidInput (''payment cannot transition to expired from '' @ y_Status p))
      else Inr (p\<lparr>y_Status := PaymentStatusExpired, y_UpdatedAt := now\<rparr>))"

section \<open>The tables\<close>

record payment_event =
  ye_event_id :: uuid
  ye_event_type :: string
  ye_order_id :: "uuid option"
  ye_payment_id :: "uuid option"
  ye_aggregate_type :: string

record payment_db =
  payments :: "Payment list"
  payment_events :: "payment_event list"

definition pg_text_null :: "nat option \<Rightarrow> string option \<Rightarrow> goerr option" where
  "pg_text_null limit s = (case s of None \<Rightarrow> None | Some x \<Rightarrow> pg_text limit x)"

definition payment_row_err :: "Payment \<Rightarrow> goerr option" where
  "payment_row_err r =
     first_err [pg_text (Some 3) (y_Currency r), pg_text (Some 20) (y_Status r),
       pg_text_null (Some 50) (y_GatewayName r), pg_text_null (Some 100) (y_GatewayRefID r),
       pg_text_null (Some 255) (y_Authority r), pg_text_null None (y_RedirectURL r),
       pg_text_null None (y_FailureReason r), check (0 \<le> sint (y_Amount r)),
       check (length (y_Currency r) = 3 \<and> list_all (\<lambda>ch. (65 :: nat) \<le> of_char ch \<and> of_char ch \<le> (90 :: nat)) (y_Currency r)),
       check (y_Status r \<in> {''pending'', ''completed'', ''failed'', ''canceled'', ''refunded'', ''expired''})]"

text \<open>
  \<open>uq_payments_single_active_order\<close> and \<open>uq_payments_gateway_ref\<close>; a NULL equals nothing.
\<close>

definition active_orders :: "Payment list \<Rightarrow> uuid list" where
  "active_orders t = map y_OrderID [r \<leftarrow> t. y_Status r \<in> {''pending'', ''completed''}]"

definition gateway_refs :: "Payment list \<Rightarrow> (string option \<times> string option) list" where
  "gateway_refs t = map (\<lambda>r. (y_GatewayName r, y_GatewayRefID r))
     [r \<leftarrow> t. y_GatewayRefID r \<noteq> None \<and> y_GatewayName r \<noteq> None]"

definition payments_schema :: "Payment schema" where
  "payments_schema = \<lparr>row_err = payment_row_err,
     uniq = (\<lambda>t. distinct (map y_ID t) \<and> distinct (active_orders t) \<and> distinct (gateway_refs t))\<rparr>"

lemma payments_schema_simps [simp]:
  "row_err payments_schema = payment_row_err"
  "uniq payments_schema t =
     (distinct (map y_ID t) \<and> distinct (active_orders t) \<and> distinct (gateway_refs t))"
  by (simp_all add: payments_schema_def)

definition payment_db_ok :: "payment_db \<Rightarrow> bool" where
  "payment_db_ok d \<longleftrightarrow> tbl_wf payments_schema (payments d) \<and> distinct (map ye_event_id (payment_events d))"

definition on_payments ::
  "(Payment list \<Rightarrow> (goerr + 'a) \<times> Payment list) \<Rightarrow> payment_db \<Rightarrow> (goerr + 'a) \<times> payment_db" where
  "on_payments f d = (case f (payments d) of (r, t) \<Rightarrow> (r, d\<lparr>payments := t\<rparr>))"

definition on_payment_events ::
  "(payment_event list \<Rightarrow> (goerr + 'a) \<times> payment_event list) \<Rightarrow> payment_db \<Rightarrow> (goerr + 'a) \<times> payment_db" where
  "on_payment_events f d = (case f (payment_events d) of (r, t) \<Rightarrow> (r, d\<lparr>payment_events := t\<rparr>))"

type_synonym ('z, 'a) payment_comp = "((payment_db, message, 'z) env_scheme, 'a) comp"

section \<open>The payment repository\<close>

text \<open>
  \<open>Create\<close>: the columns it does not name are NULL; the payment is returned with the times of the
  database.
\<close>

definition repo_payment_Create :: "Payment option \<Rightarrow> ('z, Payment) payment_comp" where
  "repo_payment_Create payment =
     (case payment of
        None \<Rightarrow> fail (New KindInvalidInput ''payment cannot be nil'')
      | Some p0 \<Rightarrow>
         (case Payment_Validate p0 of
            Inl err \<Rightarrow> fail err
          | Inr p \<Rightarrow>
             bindE time_Now (\<lambda>now.
             bindS (query (on_payments (sql_insert payments_schema
                 (p\<lparr>y_GatewayName := None, y_GatewayRefID := None, y_Authority := None,
                    y_RedirectURL := None, y_FailureReason := None, y_CreatedAt := now,
                    y_UpdatedAt := now\<rparr>)))) (\<lambda>r. case r of
                 Inl err \<Rightarrow>
                   if err = PgError ''23505''
                   then fail (New KindAlreadyExists ''an active payment already exists for this order'')
                   else fail (Wrap KindInternal (Some err) ''failed to create payment in database'')
               | Inr _ \<Rightarrow> ret (p\<lparr>y_CreatedAt := now, y_UpdatedAt := now\<rparr>)))))"

text \<open>\<open>Scan\<close> leaves the fields alone whose columns were not selected.\<close>

definition newest_of_order :: "uuid \<Rightarrow> Payment list \<Rightarrow> goerr + Payment" where
  "newest_of_order orderID t =
     (case sort_key (\<lambda>r. - y_CreatedAt r) [r \<leftarrow> t. y_OrderID r = orderID] of
        [] \<Rightarrow> Inl ErrNoRows
      | r # _ \<Rightarrow> Inr (r\<lparr>y_Authority := None, y_RedirectURL := None\<rparr>))"

definition repo_GetByOrderID :: "uuid \<Rightarrow> ('z, Payment) payment_comp" where
  "repo_GetByOrderID orderID =
     bindS (query (\<lambda>d. (newest_of_order orderID (payments d), d))) (\<lambda>r. case r of
        Inl err \<Rightarrow> if errors_Is err ErrNoRows
                   then fail (New KindNotFound ''payment not found for this order'')
                   else fail (Wrap KindInternal (Some err) ''failed to get payment by order id'')
      | Inr p \<Rightarrow> ret p)"

definition by_authority :: "string \<Rightarrow> Payment list \<Rightarrow> goerr + Payment" where
  "by_authority authority t =
     (case find (\<lambda>r. y_Authority r = Some authority) t of None \<Rightarrow> Inl ErrNoRows | Some r \<Rightarrow> Inr r)"

definition repo_GetByAuthority :: "string \<Rightarrow> ('z, Payment) payment_comp" where
  "repo_GetByAuthority authority =
     (if authority = '''' then fail (New KindInvalidInput ''authority cannot be empty'')
      else bindS (query (\<lambda>d. (by_authority authority (payments d), d))) (\<lambda>r. case r of
        Inl err \<Rightarrow> if errors_Is err ErrNoRows
                   then fail (New KindNotFound ''payment not found for this authority'')
                   else fail (Wrap KindInternal (Some err) ''failed to get payment by authority'')
      | Inr p \<Rightarrow> ret p))"

definition pending_where :: "uuid \<Rightarrow> Payment \<Rightarrow> bool" where
  "pending_where pid r \<longleftrightarrow> y_ID r = pid \<and> y_Status r = ''pending''"

definition pending_set :: "Payment \<Rightarrow> time \<Rightarrow> Payment \<Rightarrow> goerr + Payment" where
  "pending_set p now r = Inr (r\<lparr>y_Status := y_Status p, y_GatewayName := y_GatewayName p,
     y_GatewayRefID := y_GatewayRefID p, y_FailureReason := y_FailureReason p,
     y_Metadata := y_Metadata p, y_UpdatedAt := now\<rparr>)"

definition UpdateFromPending :: "Payment option \<Rightarrow> ('z, unit) payment_comp" where
  "UpdateFromPending payment =
     (case payment of
        None \<Rightarrow> fail (New KindInvalidInput ''payment cannot be nil'')
      | Some p0 \<Rightarrow>
         (case Payment_Validate p0 of
            Inl err \<Rightarrow> fail err
          | Inr p \<Rightarrow>
             bindE time_Now (\<lambda>now.
             bindE (wrapE KindInternal ''failed to update payment status''
                 (query (on_payments (sql_update payments_schema (pending_where (y_ID p)) (pending_set p now)))))
               (\<lambda>n. if n = 0 then fail (New KindAlreadyExists ''payment is not in a pending state'')
                    else ret ()))))"

definition payment_where :: "uuid \<Rightarrow> Payment \<Rightarrow> bool" where
  "payment_where pid r \<longleftrightarrow> y_ID r = pid"

definition payment_set :: "Payment \<Rightarrow> time \<Rightarrow> Payment \<Rightarrow> goerr + Payment" where
  "payment_set p now r = Inr (r\<lparr>y_Status := y_Status p, y_GatewayName := y_GatewayName p,
     y_GatewayRefID := y_GatewayRefID p, y_Authority := y_Authority p, y_RedirectURL := y_RedirectURL p,
     y_FailureReason := y_FailureReason p, y_Metadata := y_Metadata p, y_UpdatedAt := now\<rparr>)"

definition repo_payment_Update :: "Payment option \<Rightarrow> ('z, unit) payment_comp" where
  "repo_payment_Update payment =
     (case payment of
        None \<Rightarrow> fail (New KindInvalidInput ''payment cannot be nil'')
      | Some p \<Rightarrow>
          bindE time_Now (\<lambda>now.
          bindE (wrapE KindInternal ''failed to update payment''
              (query (on_payments (sql_update payments_schema (payment_where (y_ID p)) (payment_set p now)))))
            (\<lambda>n. if n = 0 then fail (New KindNotFound ''payment record not found'') else ret ())))"

section \<open>The event repository\<close>

definition payment_event_err :: "payment_event \<Rightarrow> goerr option" where
  "payment_event_err e =
     first_err [pg_text (Some 100) (ye_event_type e), pg_text (Some 50) (ye_aggregate_type e)]"

definition pay_MarkProcessed ::
  "uuid \<Rightarrow> string \<Rightarrow> uuid option \<Rightarrow> uuid option \<Rightarrow> ('z, bool) payment_comp" where
  "pay_MarkProcessed eventID eventType orderID paymentID =
     bindE (wrapE KindInternal ''failed to record processed event''
         (query (on_payment_events (sql_inbox ye_event_id payment_event_err
            \<lparr>ye_event_id = eventID, ye_event_type = eventType, ye_order_id = orderID,
             ye_payment_id = paymentID, ye_aggregate_type = ''order''\<rparr>))))
       (\<lambda>n. ret (n = 0))"

section \<open>The statements by key\<close>

interpretation payu: keyed_where y_ID payments_schema pid "payment_where pid" "payment_set p now"
  for pid p now
  by unfold_locales (auto simp: payment_where_def payment_set_def)

interpretation payp: keyed_where y_ID payments_schema pid "pending_where pid" "pending_set p now"
  for pid p now
  by unfold_locales (auto simp: pending_where_def pending_set_def)

text \<open>A pending payment that fails: the row is replaced, and no constraint is in the way.\<close>

lemma active_orders_fail:
  "distinct (active_orders t) \<Longrightarrow> y_Status q \<notin> {''pending'', ''completed''} \<Longrightarrow>
    distinct (active_orders (tbl_set y_ID t i q))"
proof (induction t)
  case Nil
  then show ?case by (simp add: active_orders_def)
next
  case (Cons r t)
  have "set (active_orders (tbl_set y_ID t i q)) \<subseteq> set (active_orders t)"
    using Cons.prems(2) by (auto simp: active_orders_def tbl_set_def)
  with Cons show ?case by (auto simp: active_orders_def split: if_splits)
qed

lemma gateway_refs_none:
  "distinct (gateway_refs t) \<Longrightarrow> y_GatewayRefID q = None \<Longrightarrow> distinct (gateway_refs (tbl_set y_ID t i q))"
proof (induction t)
  case Nil
  then show ?case by (simp add: gateway_refs_def)
next
  case (Cons r t)
  have "set (gateway_refs (tbl_set y_ID t i q)) \<subseteq> set (gateway_refs t)"
    using Cons.prems(2) by (auto simp: gateway_refs_def tbl_set_def split: if_splits)
  with Cons show ?case by (auto simp: gateway_refs_def split: if_splits)
qed

lemma fail_pending_row:
  assumes wf: "tbl_wf payments_schema t" and row: "tbl_get y_ID t i = Some r" and "y_Status r = ''pending''"
    and p: "y_Status p = ''failed''" "y_GatewayRefID p = None"
    and q_def: "q = r\<lparr>y_Status := ''failed'', y_GatewayName := y_GatewayName p, y_GatewayRefID := None,
     y_FailureReason := y_FailureReason p, y_Metadata := y_Metadata p, y_UpdatedAt := now\<rparr>"
    and ok: "payment_row_err q = None"
  shows "sql_update payments_schema (pending_where i) (pending_set p now) t = (Inr 1, tbl_set y_ID t i q)"
proof -
  have dist: "distinct (map y_ID t)" using wf by (simp add: tbl_wf_def)
  have id: "y_ID r = i" using tbl_get_SomeD [OF row] by simp
  then have set': "pending_set p now r = Inr q" "pending_where i r"
    using p assms(3) by (simp_all add: pending_set_def q_def pending_where_def)
  have "uniq payments_schema (tbl_set y_ID t i q)"
    using wf id by (simp add: tbl_wf_def map_key_tbl_set q_def active_orders_fail gateway_refs_none)
  with payp.upd_rows_key [OF dist, of i p now] row set' ok show ?thesis
    by (simp add: sql_update_def)
qed

end
