(* ===== verification/PaymentService.thy ===== *)
theory PaymentService
  imports Payment Rpc Auth Broker
begin

text \<open>
  The payment service above its repository: the gateway interface and its ZarinPal client
  (\<open>internal/client\<close>), the publisher and the \<open>order.created\<close> consumer of \<open>internal/messaging\<close>,
  \<open>internal/service\<close> (\<open>payment.go\<close>, \<open>helper.go\<close>, \<open>mapper.go\<close>) and \<open>internal/handler/payment.go\<close>.

  The payment gateway is reached over HTTP: \<open>remote\<close> is its state and \<open>z_Do\<close> what it answers to a
  request. A response body is read by a \<open>json.Decoder\<close>, which may take more from the reader than the
  value it decodes: \<open>z_DecodeReq\<close> and \<open>z_DecodeVerify\<close> return the value and what is left to read.
\<close>

section \<open>The gateway interface\<close>

record PaymentRequestInput =
  ri_Amount :: i64
  ri_Description :: string
  ri_CallbackURL :: string
  ri_Email :: string
  ri_Mobile :: string

record PaymentRequestOutput =
  ro_Authority :: string
  ro_RedirectURL :: string

record PaymentVerifyInput =
  vi_Authority :: string
  vi_Amount :: i64

record PaymentVerifyOutput =
  vo_RefID :: string
  vo_Success :: bool
  vo_CardPan :: string

record 's gateway_client =
  gw_RequestPayment :: "PaymentRequestInput \<Rightarrow> ('s, PaymentRequestOutput) comp"
  gw_VerifyPayment :: "PaymentVerifyInput \<Rightarrow> ('s, PaymentVerifyOutput) comp"

section \<open>The ZarinPal client\<close>

record zarinpalReqPayload =
  zq_MerchantID :: string
  zq_Amount :: i64
  zq_CallbackURL :: string
  zq_Description :: string
  zq_Metadata :: "(string \<times> string) list"

record zarinpalReqResponse =
  zr_Code :: int
  zr_Message :: string
  zr_Authority :: string

record zarinpalVerifyPayload =
  zv_MerchantID :: string
  zv_Amount :: i64
  zv_Authority :: string

record zarinpalVerifyResponse =
  zw_Code :: int
  zw_Message :: string
  zw_RefID :: i64
  zw_CardPan :: string

record http_response =
  StatusCode :: int
  RespBody :: string

record 'r zarinpalClient =
  z_merchantID :: string
  z_baseURL :: string
  z_startPayURL :: string
  z_MarshalReq :: "zarinpalReqPayload \<Rightarrow> goerr + string"
  z_MarshalVerify :: "zarinpalVerifyPayload \<Rightarrow> goerr + string"
  z_NewRequest :: "string \<Rightarrow> string \<Rightarrow> goerr + unit"
  z_Do :: "string \<Rightarrow> string \<Rightarrow> 'r \<Rightarrow> (goerr + http_response) \<times> 'r"
  z_DecodeReq :: "string \<Rightarrow> (goerr + zarinpalReqResponse) \<times> string"
  z_DecodeVerify :: "string \<Rightarrow> (goerr + zarinpalVerifyResponse) \<times> string"

text \<open>\<open>NewZarinpalClient\<close>: the addresses of the sandbox or of the real gateway.\<close>

definition zarinpal_urls :: "bool \<Rightarrow> string \<times> string" where
  "zarinpal_urls IsSandbox =
     (if IsSandbox
      then (''https://sandbox.zarinpal.com/pg/v4/payment'', ''https://sandbox.zarinpal.com/pg/StartPay'')
      else (''https://api.zarinpal.com/pg/v4/payment'', ''https://www.zarinpal.com/pg/StartPay''))"

text \<open>The check of the status line, which both calls make.\<close>

definition http_ok :: "http_response \<Rightarrow> bool" where
  "http_ok resp \<longleftrightarrow> 200 \<le> StatusCode resp \<and> StatusCode resp < 300"

definition http_status_error :: "http_response \<Rightarrow> goerr" where
  "http_status_error resp =
     New KindInternal (''zarinpal returned unexpected HTTP status '' @ strconv_Itoa (StatusCode resp))"

definition RequestPayment ::
  "'r zarinpalClient \<Rightarrow> PaymentRequestInput \<Rightarrow> (('d, 'm, 'r, 'z) renv_scheme, PaymentRequestOutput) comp" where
  "RequestPayment z input =
     (let metadata = (if ri_Email input \<noteq> '''' then [(''email'', ri_Email input)] else []) @
            (if ri_Mobile input \<noteq> '''' then [(''mobile'', ri_Mobile input)] else []);
          payload = \<lparr>zq_MerchantID = z_merchantID z, zq_Amount = ri_Amount input,
            zq_CallbackURL = ri_CallbackURL input, zq_Description = ri_Description input,
            zq_Metadata = metadata\<rparr>;
          url = z_baseURL z @ ''/request.json'' in
      bindE (wrapE KindInternal ''failed to marshal zarinpal request'' (of_sum (z_MarshalReq z payload))) (\<lambda>body.
      bindE (wrapE KindInternal ''failed to create zarinpal request'' (of_sum (z_NewRequest z url body))) (\<lambda>_.
      bindE (wrapE KindInternal ''zarinpal gateway request failed'' (extern (on_remote (z_Do z url body)))) (\<lambda>resp.
        if \<not> http_ok resp then fail (http_status_error resp)
        else
        bindE (wrapE KindInternal ''failed to decode zarinpal response''
            (of_sum (fst (z_DecodeReq z (RespBody resp))))) (\<lambda>zResp.
          if zr_Code zResp \<noteq> 100
          then fail (New KindInternal (''zarinpal error code '' @ strconv_Itoa (zr_Code zResp) @ '': '' @ zr_Message zResp))
          else ret \<lparr>ro_Authority = zr_Authority zResp,
            ro_RedirectURL = z_startPayURL z @ ''/'' @ zr_Authority zResp\<rparr>)))))"

definition VerifyPayment_http ::
  "'r zarinpalClient \<Rightarrow> PaymentVerifyInput \<Rightarrow> (('d, 'm, 'r, 'z) renv_scheme, PaymentVerifyOutput) comp" where
  "VerifyPayment_http z input =
     (let payload = \<lparr>zv_MerchantID = z_merchantID z, zv_Amount = vi_Amount input,
            zv_Authority = vi_Authority input\<rparr>;
          url = z_baseURL z @ ''/verify.json'' in
      bindE (wrapE KindInternal ''failed to marshal zarinpal verify payload'' (of_sum (z_MarshalVerify z payload))) (\<lambda>body.
      bindE (wrapE KindInternal ''failed to create zarinpal verify request'' (of_sum (z_NewRequest z url body))) (\<lambda>_.
      bindE (wrapE KindInternal ''zarinpal verify request failed'' (extern (on_remote (z_Do z url body)))) (\<lambda>resp.
      case z_DecodeVerify z (RespBody resp) of
        (Inl err, _) \<Rightarrow> fail (Wrap KindInternal (Some err) ''failed to decode zarinpal verify response'')
      | (Inr _, unread) \<Rightarrow>
        if \<not> http_ok resp then fail (http_status_error resp)
        else
        (case z_DecodeVerify z unread of
          (Inl err, _) \<Rightarrow> fail (Wrap KindInternal (Some err) ''failed to decode zarinpal verify response'')
        | (Inr zResp, _) \<Rightarrow>
          if zw_Code zResp \<noteq> 100 \<and> zw_Code zResp \<noteq> 101
          then fail (New KindInvalidInput (''payment verification failed with code '' @
            strconv_Itoa (zw_Code zResp) @ '': '' @ zw_Message zResp))
          else ret \<lparr>vo_RefID = strconv_Itoa (sint (zw_RefID zResp)), vo_Success = True,
            vo_CardPan = zw_CardPan zResp\<rparr>)))))"

definition zarinpal_gateway :: "'r zarinpalClient \<Rightarrow> ('d, 'm, 'r, 'z) renv_scheme gateway_client" where
  "zarinpal_gateway z = \<lparr>gw_RequestPayment = RequestPayment z, gw_VerifyPayment = VerifyPayment_http z\<rparr>"

section \<open>The service\<close>

record 's payment_svc =
  ys_ul :: uuid_lib
  ys_status :: status_lib
  ys_json :: event_json
  ys_publisher :: "Publisher option"
  ys_gateway :: "'s gateway_client"
  ys_callbackURL :: string

type_synonym ('r, 'z) pay_env = "(payment_db, message, 'r, 'z) renv_scheme"

definition PublishPaymentCompleted ::
  "'s payment_svc \<Rightarrow> uuid \<Rightarrow> uuid \<Rightarrow> string \<Rightarrow> string \<Rightarrow> (('r, 'z) pay_env, unit) comp" where
  "PublishPaymentCompleted c paymentID orderID gatewayName gatewayRefID =
     bindE uuid_New (\<lambda>eid. bindE time_Now (\<lambda>now.
       Publish (ys_json c) (ys_publisher c) RoutingKeyPaymentCompleted (EvPaymentCompleted
         \<lparr>pc_EventID = eid, pc_OrderID = orderID, pc_PaymentID = paymentID,
          pc_GatewayName = gatewayName, pc_GatewayRefID = gatewayRefID, pc_CompletedAt = now\<rparr>)))"

definition PublishPaymentFailed ::
  "'s payment_svc \<Rightarrow> uuid \<Rightarrow> uuid \<Rightarrow> string \<Rightarrow> (('r, 'z) pay_env, unit) comp" where
  "PublishPaymentFailed c paymentID orderID reason =
     bindE uuid_New (\<lambda>eid. bindE time_Now (\<lambda>now.
       Publish (ys_json c) (ys_publisher c) RoutingKeyPaymentFailed (EvPaymentFailed
         \<lparr>pf_EventID = eid, pf_OrderID = orderID, pf_PaymentID = paymentID, pf_Reason = reason,
          pf_FailedAt = now\<rparr>)))"

text \<open>The description's prefix is two Persian words (payment of order) in UTF-8.\<close>

definition description_prefix :: string where
  "description_prefix = map char_of [217, 190, 216, 177, 216, 175, 216, 167, 216, 174, 216, 170, 32,
     216, 179, 217, 129, 216, 167, 216, 177, 216, 180, 32 :: nat]"

text \<open>\<open>_ = payment.MarkFailed(reason)\<close>: the payment is left as it is when the transition is refused.\<close>

definition mark_failed :: "string \<Rightarrow> Payment \<Rightarrow> (('r, 'z) pay_env, Payment) comp" where
  "mark_failed reason p = bindE time_Now (\<lambda>now. ret (case MarkFailed reason now p of Inr p' \<Rightarrow> p' | Inl _ \<Rightarrow> p))"

text \<open>The transaction of \<open>HandleOrderCreated\<close>: \<open>None\<close> is \<open>alreadyHandled\<close>.\<close>

definition store_pending :: "uuid \<Rightarrow> uuid \<Rightarrow> Payment \<Rightarrow> ('z, Payment option) payment_comp" where
  "store_pending eventID orderID payment =
     bindE (pay_MarkProcessed eventID ''order.created'' (Some orderID) None) (\<lambda>alreadyProcessed.
       if alreadyProcessed then ret None
       else bindE (repo_payment_Create (Some payment)) (\<lambda>p. ret (Some p)))"

text \<open>What follows the commit: ask the gateway for an authority.\<close>

definition initiate_payment ::
  "('r, 'z) pay_env payment_svc \<Rightarrow> Payment \<Rightarrow> (('r, 'z) pay_env, unit) comp" where
  "initiate_payment c payment =
     bindS (gw_RequestPayment (ys_gateway c) \<lparr>ri_Amount = y_Amount payment,
         ri_Description = description_prefix @ uuid_String (ys_ul c) (y_OrderID payment),
         ri_CallbackURL = ys_callbackURL c, ri_Email = '''', ri_Mobile = ''''\<rparr>) (\<lambda>r. case r of
       Inl err \<Rightarrow>
         let reason = ''failed to get authority from zarinpal: '' @ Error_string (ErrText (ys_status c)) err in
         bindE (mark_failed reason payment) (\<lambda>p.
         bindS (UpdateFromPending (Some p)) (\<lambda>_.
         bindS (PublishPaymentFailed c (y_ID p) (y_OrderID p) reason) (\<lambda>_. ret ())))
     | Inr reqOutput \<Rightarrow>
         bindE time_Now (\<lambda>now.
         bindE (of_sum (MarkAwaitingPayment ''zarinpal'' (ro_Authority reqOutput)
             (ro_RedirectURL reqOutput) now payment)) (\<lambda>p. UpdateFromPending (Some p))))"

definition HandleOrderCreated ::
  "('r, 'z) pay_env payment_svc \<Rightarrow> uuid \<Rightarrow> uuid \<Rightarrow> uuid \<Rightarrow> i64 \<Rightarrow> (('r, 'z) pay_env, unit) comp" where
  "HandleOrderCreated c eventID orderID userID amount =
     bindE (NewPendingPayment orderID userID amount) (\<lambda>payment.
     bindE (WithTx True (Some (store_pending eventID orderID payment))) (\<lambda>stored.
       case stored of None \<Rightarrow> ret () | Some payment' \<Rightarrow> initiate_payment c payment'))"

text \<open>What \<open>VerifyPayment\<close> does with a payment that has failed: store it and tell the order service.\<close>

definition record_failure ::
  "'s payment_svc \<Rightarrow> string \<Rightarrow> Payment \<Rightarrow> (('r, 'z) pay_env, Payment) comp" where
  "record_failure c reason payment =
     bindE (mark_failed reason payment) (\<lambda>p.
     bindS (repo_payment_Update (Some p)) (\<lambda>_.
     bindS (PublishPaymentFailed c (y_ID p) (y_OrderID p) reason) (\<lambda>_. ret p)))"

definition svc_VerifyPayment ::
  "('r, 'z) pay_env payment_svc \<Rightarrow> string \<Rightarrow> string \<Rightarrow> (('r, 'z) pay_env, Payment) comp" where
  "svc_VerifyPayment c authority zarinpalStatus =
     bindE (repo_GetByAuthority authority) (\<lambda>payment.
       if \<not> pay_CanTransitionTo payment PaymentStatusCompleted then ret payment
       else if zarinpalStatus \<noteq> ''OK''
       then record_failure c ''payment canceled by user or rejected by bank'' payment
       else
       bindS (gw_VerifyPayment (ys_gateway c) \<lparr>vi_Authority = authority, vi_Amount = y_Amount payment\<rparr>)
         (\<lambda>r. case r of
            Inl err \<Rightarrow>
              bindE (record_failure c (Error_string (ErrText (ys_status c)) err) payment) (\<lambda>_.
                fail (Wrap KindInvalidInput (Some err) ''payment verification failed''))
          | Inr out \<Rightarrow>
              if \<not> vo_Success out then
                bindE (record_failure c ''zarinpal payment verification failed'' payment) (\<lambda>_.
                  fail (Wrap KindInvalidInput None ''payment verification failed''))
              else
                bindE time_Now (\<lambda>now.
                bindE (of_sum (MarkCompleted ''zarinpal'' (vo_RefID out) now payment)) (\<lambda>p.
                bindE (repo_payment_Update (Some p)) (\<lambda>_.
                bindS (PublishPaymentCompleted c (y_ID p) (y_OrderID p) ''zarinpal'' (vo_RefID out))
                  (\<lambda>_. ret p))))))"

record pb_Payment =
  pby_Id :: string
  pby_OrderId :: string
  pby_UserId :: string
  pby_Currency :: string
  pby_Amount :: i64
  pby_Status :: string
  pby_GatewayName :: string
  pby_GatewayRefId :: string
  pby_FailureReason :: string
  pby_Metadata :: "(string \<times> string) list"
  pby_CreatedAt :: time
  pby_UpdatedAt :: time

definition or_empty :: "string option \<Rightarrow> string" where
  "or_empty x = (case x of Some v \<Rightarrow> v | None \<Rightarrow> '''')"

definition toProtoPayment :: "uuid_lib \<Rightarrow> Payment \<Rightarrow> pb_Payment" where
  "toProtoPayment u p =
     \<lparr>pby_Id = uuid_String u (y_ID p), pby_OrderId = uuid_String u (y_OrderID p),
      pby_UserId = uuid_String u (y_UserID p), pby_Currency = y_Currency p, pby_Amount = y_Amount p,
      pby_Status = y_Status p, pby_GatewayName = or_empty (y_GatewayName p),
      pby_GatewayRefId = or_empty (y_GatewayRefID p), pby_FailureReason = or_empty (y_FailureReason p),
      pby_Metadata = y_Metadata p, pby_CreatedAt = y_CreatedAt p, pby_UpdatedAt = y_UpdatedAt p\<rparr>"

definition pay_requireAdmin :: "reqctx \<Rightarrow> ('s, unit) comp" where
  "pay_requireAdmin ctx =
     (case ClaimsFromContext ctx of
        None \<Rightarrow> fail (New KindUnauthenticated ''authentication required'')
      | Some claims \<Rightarrow>
          if Role claims \<noteq> ''admin''
          then fail (New KindPermissionDenied ''only admins can perform this action'')
          else ret ())"

definition GetPaymentByOrderID ::
  "'s payment_svc \<Rightarrow> reqctx \<Rightarrow> string option \<Rightarrow> (('r, 'z) pay_env, pb_Payment) comp" where
  "GetPaymentByOrderID c ctx req =
     (case req of
        None \<Rightarrow> fail (New KindInvalidInput ''get payment by order id request is nil'')
      | Some req_OrderId \<Rightarrow>
          bindE (pay_requireAdmin ctx) (\<lambda>_.
          case uuid_Parse (ys_ul c) req_OrderId of
            None \<Rightarrow> fail (New KindInvalidInput ''invalid order id'')
          | Some orderID \<Rightarrow>
              bindE (repo_GetByOrderID orderID) (\<lambda>payment. ret (toProtoPayment (ys_ul c) payment))))"

section \<open>The consumer and the gRPC handlers\<close>

definition OrderCreated_Handle ::
  "('r, 'z) pay_env payment_svc \<Rightarrow> string \<Rightarrow> (('r, 'z) pay_env, unit) comp" where
  "OrderCreated_Handle c body =
     (case UnmarshalOrderCreated (ys_json c) body of
        Inl _ \<Rightarrow> ret ()
      | Inr event \<Rightarrow>
          if oc_EventID event = uuid_Nil then ret ()
          else if oc_OrderID event = uuid_Nil then ret ()
          else HandleOrderCreated c (oc_EventID event) (oc_OrderID event) (oc_UserID event)
                 (oc_TotalAmount event))"

definition payment_domain :: string where
  "payment_domain = ''payment-service''"

definition grpc_GetPaymentByOrderID where
  "grpc_GetPaymentByOrderID c ctx req =
     grpc_answer (ys_status c) payment_domain (GetPaymentByOrderID c ctx req)"

record VerifyPaymentResponse =
  vp_OrderId :: string
  vp_Status :: string
  vp_RefId :: string

definition grpc_VerifyPayment ::
  "('r, 'z) pay_env payment_svc \<Rightarrow> string \<Rightarrow> string \<Rightarrow> (('r, 'z) pay_env, VerifyPaymentResponse) comp" where
  "grpc_VerifyPayment c authority zarinpalStatus =
     bindE (grpc_answer (ys_status c) payment_domain (svc_VerifyPayment c authority zarinpalStatus))
       (\<lambda>payment. ret \<lparr>vp_OrderId = uuid_String (ys_ul c) (y_OrderID payment),
          vp_Status = y_Status payment, vp_RefId = or_empty (y_GatewayRefID payment)\<rparr>)"

end
