(* ===== verification/PaymentProps.thy ===== *)
theory PaymentProps
  imports PaymentService
begin

text \<open>
  What the payment service guarantees, and what it cannot do. The service is a state machine whose
  steps are its consumer and its two gRPC handlers; \<open>payment_reach\<close> are the states it can get into,
  whatever the gateway answers and whatever fails.

  The service knows the gateway by its interface only: \<open>payment_gateway\<close> is the contract, that a
  call to the gateway touches neither the database nor the broker, and it is interpreted on the
  ZarinPal client.
\<close>

section \<open>The table invariant\<close>

lemma keeps_payments_update [keeps_rules]:
  "keeps_db payment_db_ok (query (on_payments (sql_update payments_schema P f)))"
  "keeps_db payment_db_ok (query (on_payments (sql_insert payments_schema r)))"
  by (rule keeps_query, auto simp: payment_db_ok_def on_payments_def
      intro: sql_update_wf [unfolded split_def] split: prod.splits,
      metis sql_update_wf sql_insert_wf snd_conv)+

lemma keeps_payment_repo [keeps_rules]:
  "keeps_db payment_db_ok (repo_payment_Create p)"
  "keeps_db payment_db_ok (UpdateFromPending p)"
  "keeps_db payment_db_ok (repo_payment_Update p)"
  unfolding repo_payment_Create_def UpdateFromPending_def repo_payment_Update_def
  by (intro keeps_rules)+

lemma keeps_payment_reads [keeps_rules]:
  "keeps_db J (repo_GetByAuthority a)" "keeps_db J (repo_GetByOrderID i)"
proof -
  have q: "keeps_db J (query (\<lambda>d. (f d, d)))" for f :: "payment_db \<Rightarrow> goerr + Payment"
    by (rule keeps_query) simp
  show "keeps_db J (repo_GetByAuthority a)" "keeps_db J (repo_GetByOrderID i)"
    unfolding repo_GetByAuthority_def repo_GetByOrderID_def by (intro keeps_rules q)+
qed

section \<open>The service as a state machine\<close>

datatype payment_op =
    OrderCreatedMessage string
  | VerifyCallback string string
  | GetPaymentOf reqctx "string option"

fun payment_step ::
  "('r, 'z) pay_env payment_svc \<Rightarrow> payment_op \<Rightarrow> ('r, 'z) pay_env \<Rightarrow> ('r, 'z) pay_env" where
  "payment_step c (OrderCreatedMessage b) s = snd (OrderCreated_Handle c b s)"
| "payment_step c (VerifyCallback authority st) s = snd (grpc_VerifyPayment c authority st s)"
| "payment_step c (GetPaymentOf ctx req) s = snd (grpc_GetPaymentByOrderID c ctx req s)"

inductive payment_reach :: "('r, 'z) pay_env payment_svc \<Rightarrow> ('r, 'z) pay_env \<Rightarrow> bool"
  for c where
  start: "db s = \<lparr>payments = [], payment_events = []\<rparr> \<Longrightarrow> bus s = [] \<Longrightarrow> payment_reach c s"
| step: "payment_reach c s \<Longrightarrow> payment_reach c (payment_step c op s)"
| outside: "payment_reach c s \<Longrightarrow> db s' = db s \<Longrightarrow> bus s' = bus s \<Longrightarrow> payment_reach c s'"

section \<open>The life of a payment in memory\<close>

text \<open>
  A payment leaves the pending status at most once: its transitions succeed from a pending payment
  only, so whichever is applied first, every later one is refused, and a payment that waits for the
  user (\<open>awaiting\<close>) can be neither completed nor failed nor expired.
\<close>

theorem payment_transitions:
  "(\<exists>q. MarkAwaitingPayment g a u now p = Inr q) = (y_Status p = ''pending'') \<and>
   (\<exists>q. MarkCompleted g ref now p = Inr q) = (y_Status p = ''pending'') \<and>
   (\<exists>q. MarkFailed reason now p = Inr q) = (y_Status p = ''pending'') \<and>
   (\<exists>q. MarkExpired now p = Inr q) = (y_Status p = ''pending'') \<and>
   (MarkAwaitingPayment g a u now p = Inr q1 \<longrightarrow> y_Status q1 = ''awaiting'') \<and>
   (MarkCompleted g ref now p = Inr q2 \<longrightarrow> y_Status q2 = ''completed'' \<and> y_GatewayRefID q2 = Some ref) \<and>
   (MarkFailed reason now p = Inr q3 \<longrightarrow> y_Status q3 = ''failed'' \<and> y_FailureReason q3 = Some reason) \<and>
   (MarkExpired now p = Inr q4 \<longrightarrow> y_Status q4 = ''expired'')"
  by (auto simp: MarkAwaitingPayment_def MarkCompleted_def MarkFailed_def MarkExpired_def
      pay_CanTransitionTo_def payment_status_defs)

text \<open>A payment in the state the constructor leaves it in.\<close>

definition fresh_payment :: Payment where
  "fresh_payment = \<lparr>y_ID = 1, y_OrderID = 2, y_UserID = 3, y_Currency = ''IRR'', y_Amount = 10,
     y_Status = ''pending'', y_GatewayName = None, y_GatewayRefID = None, y_Authority = None,
     y_RedirectURL = None, y_FailureReason = None, y_Metadata = [], y_CreatedAt = 0, y_UpdatedAt = 0\<rparr>"

theorem payment_transitions_witness:
  "\<exists>q. MarkCompleted ''zarinpal'' ''7'' 5 fresh_payment = Inr q \<and> y_Status q = ''completed''"
proof -
  note t = payment_transitions [where p = fresh_payment and g = "''zarinpal''" and ref = "''7''" and now = 5]
  have "y_Status fresh_payment = ''pending''" by (simp add: fresh_payment_def)
  then obtain q where "MarkCompleted ''zarinpal'' ''7'' 5 fresh_payment = Inr q" using t by blast
  moreover from this have "y_Status q = ''completed''" using t [where ?q2.0 = q] by blast
  ultimately show ?thesis by blast
qed

section \<open>The gateway interface\<close>

locale payment_gateway =
  fixes gw :: "(payment_db, message, 'r, 'z) renv_scheme gateway_client"
  assumes request_frame: "gw_RequestPayment gw i s = (r, s') \<Longrightarrow> db s' = db s \<and> bus s' = bus s"
    and verify_frame: "gw_VerifyPayment gw v s = (r2, s') \<Longrightarrow> db s' = db s \<and> bus s' = bus s"
begin

lemma keeps_gateway:
  "keeps (\<lambda>s. J (db s) (bus s)) (gw_RequestPayment gw i)"
  "keeps (\<lambda>s. J (db s) (bus s)) (gw_VerifyPayment gw v)"
  using request_frame verify_frame by (auto intro!: keepsI) (metis prod.collapse)+

end

lemma http_frame:
  fixes m :: "'r \<Rightarrow> (goerr + 'a) \<times> 'r" and s :: "('d, 'm, 'r, 'z) renv_scheme"
  assumes "extern (on_remote m) s = (r, s')"
  shows "db s' = db s \<and> bus s' = bus s"
  using assms
  by (auto simp: extern_def on_remote_def Let_def split: option.splits fault.splits prod.splits sum.splits)

lemma keeps_http [keeps_rules]:
  "keeps (\<lambda>s. J (db s) (bus s)) (extern (on_remote m) :: (('d, 'm, 'r, 'z) renv_scheme, 'a) comp)"
  by (rule keepsI) (metis http_frame prod.collapse)

lemma keeps_zarinpal:
  "keeps (\<lambda>s. J (db s) (bus s)) (RequestPayment z i)"
  "keeps (\<lambda>s. J (db s) (bus s)) (VerifyPayment_http z v)"
  unfolding RequestPayment_def VerifyPayment_http_def Let_def
  by (intro keeps_rules | auto split: sum.splits prod.splits intro!: keeps_rules)+

interpretation zarinpal: payment_gateway "zarinpal_gateway z" for z
proof
  fix i v and s s' :: "('a, 'b) pay_env" and r :: "goerr + PaymentRequestOutput" and r2 :: "goerr + PaymentVerifyOutput"
  show "db s' = db s \<and> bus s' = bus s" if "gw_RequestPayment (zarinpal_gateway z) i s = (r, s')"
    using keepsD [OF keeps_zarinpal(1) [of "\<lambda>d b. d = db s \<and> b = bus s"] _ that [unfolded zarinpal_gateway_def gateway_client.simps]]
    by simp
  show "db s' = db s \<and> bus s' = bus s" if "gw_VerifyPayment (zarinpal_gateway z) v s = (r2, s')"
    using keepsD [OF keeps_zarinpal(2) [of "\<lambda>d b. d = db s \<and> b = bus s"] _ that [unfolded zarinpal_gateway_def gateway_client.simps]]
    by simp
qed


section \<open>No payment is ever completed\<close>

definition never_paid :: "payment_db \<Rightarrow> bool" where
  "never_paid d \<longleftrightarrow> (\<forall>p \<in> set (payments d). y_Authority p = None \<and> y_Status p \<in> {''pending'', ''failed''})"

definition only_failures :: "message list \<Rightarrow> bool" where
  "only_failures ms \<longleftrightarrow> (\<forall>m \<in> set ms. fst m = RoutingKeyPaymentFailed)"

text \<open>The new rows of an UPDATE satisfy what the old ones and the changed ones do.\<close>

lemma upd_rows_ball:
  assumes "\<And>r r'. r \<in> set t \<Longrightarrow> P r \<Longrightarrow> f r = Inr r' \<Longrightarrow> row_err sch r' = None \<Longrightarrow> Q r'"
    and "\<forall>r \<in> set t. Q r"
  shows "upd_rows sch P f t = Inr (n, t') \<Longrightarrow> \<forall>r \<in> set t'. Q r"
  using assms
proof (induction t arbitrary: n t')
  case Nil
  then show ?case by simp
next
  case (Cons r t)
  have IH: "upd_rows sch P f t = Inr (m, u) \<Longrightarrow> \<forall>r \<in> set u. Q r" for m u
    using Cons.IH Cons.prems(2,3) by (meson list.set_intros(2))
  from Cons.prems(1) IH Cons.prems(2) [of r] Cons.prems(3) show ?case
    by (cases "upd_rows sch P f t") (auto split: if_splits sum.splits option.splits)
qed

lemma sql_update_ball:
  assumes "\<forall>r \<in> set t. Q r"
    and "\<And>r r'. r \<in> set t \<Longrightarrow> P r \<Longrightarrow> f r = Inr r' \<Longrightarrow> row_err sch r' = None \<Longrightarrow> Q r'"
  shows "\<forall>r \<in> set (snd (sql_update sch P f t)). Q r"
  using upd_rows_ball [where Q = Q, OF assms(2,1)] assms(1) by (auto simp: sql_update_def split: sum.splits)

lemma never_paid_statements:
  "y_Status p \<in> {''failed'', ''awaiting''} \<Longrightarrow> keeps_db never_paid
     (query (on_payments (sql_update payments_schema (pending_where i) (pending_set p now))))"
  "y_Status r \<in> {''pending'', ''failed''} \<Longrightarrow> y_Authority r = None \<Longrightarrow>
     keeps_db never_paid (query (on_payments (sql_insert payments_schema r)))"
proof -
  assume st: "y_Status p \<in> {''failed'', ''awaiting''}"
  show "keeps_db never_paid
     (query (on_payments (sql_update payments_schema (pending_where i) (pending_set p now))))"
  proof (rule keeps_query)
    fix d assume d: "never_paid d"
    have "\<forall>q \<in> set (snd (sql_update payments_schema (pending_where i) (pending_set p now) (payments d))).
        y_Authority q = None \<and> y_Status q \<in> {''pending'', ''failed''}"
    proof (rule sql_update_ball)
      fix q q'
      assume q: "q \<in> set (payments d)" "pending_set p now q = Inr q'" "row_err payments_schema q' = None"
      then have "y_Status q' = y_Status p" "y_Authority q' = y_Authority q"
        by (auto simp: pending_set_def)
      moreover have "y_Status q' \<noteq> ''awaiting''" using q(3) by (auto simp: payment_row_err_def)
      ultimately show "y_Authority q' = None \<and> y_Status q' \<in> {''pending'', ''failed''}"
        using st d q(1) by (auto simp: never_paid_def)
    qed (use d in \<open>simp add: never_paid_def\<close>)
    then show "never_paid (snd (on_payments (sql_update payments_schema (pending_where i) (pending_set p now)) d))"
      by (simp add: never_paid_def on_payments_def case_prod_unfold)
  qed
next
  assume "y_Status r \<in> {''pending'', ''failed''}" "y_Authority r = None"
  then show "keeps_db never_paid (query (on_payments (sql_insert payments_schema r)))"
    by (intro keeps_query) (auto simp: never_paid_def on_payments_def sql_insert_def split: prod.splits option.splits)
qed

lemma Payment_Validate_Inr:
  "Payment_Validate p = Inr q \<Longrightarrow> y_Status q = y_Status p \<and> y_Authority q = y_Authority p \<and>
    y_ID q = y_ID p \<and> y_OrderID q = y_OrderID p"
  by (auto simp: Payment_Validate_def split: if_splits)

lemma never_paid_repo:
  "y_Status p \<in> {''failed'', ''awaiting''} \<Longrightarrow> keeps_db never_paid (UpdateFromPending (Some p))"
  "y_Status p = ''pending'' \<Longrightarrow> keeps_db never_paid (repo_payment_Create (Some p))"
  unfolding UpdateFromPending_def repo_payment_Create_def
  by (auto split: sum.splits dest!: Payment_Validate_Inr intro!: keeps_rules never_paid_statements)

lemma keeps_db_payment_inbox:
  "keeps_db never_paid (pay_MarkProcessed e ty i j)"
proof -
  have "keeps_db never_paid (query (on_payment_events f))" for f :: "payment_event list \<Rightarrow> (goerr + nat) \<times> payment_event list"
    by (rule keeps_query) (auto simp: never_paid_def on_payment_events_def split: prod.splits)
  then show ?thesis unfolding pay_MarkProcessed_def by (intro keeps_rules)
qed


text \<open>The bus: only publishing adds to it.\<close>

lemma keeps_bus [keeps_rules]:
  "keeps (\<lambda>s. B (bus s)) (time_Now :: (('d, 'm, 'z) env_scheme, time) comp)"
  "keeps (\<lambda>s. B (bus s)) (uuid_New :: (('d, 'm, 'z) env_scheme, uuid) comp)"
  "keeps (\<lambda>s. B (bus s)) (query f :: (('d, 'm, 'z) env_scheme, 'a) comp)"
  "keeps (\<lambda>s. B (bus s)) (extern (ret a) :: (('d, 'm, 'z) env_scheme, 'b) comp)"
  by (auto simp: keeps_def time_Now_def uuid_New_def query_def extern_def on_db_def Let_def ret_def
      split: option.splits fault.splits prod.splits sum.splits)

lemma keeps_bus_WithTx [keeps_rules]:
  "keeps (\<lambda>s. B (bus s)) body \<Longrightarrow> keeps (\<lambda>s. B (bus s)) (WithTx pool (Some body))"
  by (erule keeps_WithTx_gen) auto

lemma keeps_bus_Publish:
  "(\<And>b. B b \<Longrightarrow> B (b @ [(rk, ev)])) \<Longrightarrow>
    keeps (\<lambda>s. B (bus s)) (Publish js p rk ev :: (('d, message, 'z) env_scheme, unit) comp)"
  unfolding Publish_def send_def
  by (intro keeps_rules keeps_extern) (auto simp: keeps_def)

lemma keeps_bus_failed [keeps_rules]:
  "keeps (\<lambda>s. only_failures (bus s)) (PublishPaymentFailed c p i reason)"
  unfolding PublishPaymentFailed_def
  by (intro keeps_rules keeps_bus_Publish) (auto simp: only_failures_def)

lemma keeps_db_failed [keeps_rules]:
  "keeps_db J (PublishPaymentFailed c p i reason)" "keeps_db J (PublishPaymentCompleted c p i g r)"
  unfolding PublishPaymentFailed_def PublishPaymentCompleted_def by (intro keeps_rules)+

lemma keeps_bus_repo [keeps_rules]:
  "keeps (\<lambda>s. B (bus s)) (UpdateFromPending p)" "keeps (\<lambda>s. B (bus s)) (repo_payment_Create p)"
  "keeps (\<lambda>s. B (bus s)) (pay_MarkProcessed e ty i j)" "keeps (\<lambda>s. B (bus s)) (repo_GetByAuthority a)"
  "keeps (\<lambda>s. B (bus s)) (repo_GetByOrderID o')" "keeps (\<lambda>s. B (bus s)) (mark_failed reason q)"
  "keeps (\<lambda>s. B (bus s)) (NewPendingPayment oid u am)"
  unfolding UpdateFromPending_def repo_payment_Create_def pay_MarkProcessed_def repo_GetByAuthority_def
    repo_GetByOrderID_def mark_failed_def NewPendingPayment_def
  by (intro keeps_rules)+

lemma keeps_db_mark_failed [keeps_rules]: "keeps_db J (mark_failed reason p)"
  "keeps_db J (NewPendingPayment oid u am)"
  unfolding mark_failed_def NewPendingPayment_def by (intro keeps_rules)+

lemma mark_failed_Inr:
  "mark_failed reason p s = (Inr q, s') \<Longrightarrow> y_Status p = ''pending'' \<Longrightarrow> y_Status q = ''failed'' \<and> y_ID q = y_ID p"
  by (auto simp: mark_failed_def bindE_Inr ret_eq MarkFailed_def pay_CanTransitionTo_def payment_status_defs)

lemma NewPendingPayment_Inr:
  "NewPendingPayment oid u am s = (Inr p, s') \<Longrightarrow> y_Status p = ''pending'' \<and> y_OrderID p = oid"
  by (auto simp: NewPendingPayment_def bindE_Inr ret_eq PaymentStatusPending_def)

lemma repo_payment_Create_Inr:
  assumes "repo_payment_Create (Some p) s = (Inr q, s')"
  shows "y_Status q = y_Status p \<and> y_ID q = y_ID p \<and> y_OrderID q = y_OrderID p"
proof (cases "Payment_Validate p")
  case (Inl e)
  with assms show ?thesis by (simp add: repo_payment_Create_def fail_def)
next
  case (Inr v)
  with assms obtain now x s2 where "(case x of
      Inl err \<Rightarrow> if err = PgError ''23505''
        then fail (New KindAlreadyExists ''an active payment already exists for this order'')
        else fail (Wrap KindInternal (Some err) ''failed to create payment in database'')
    | Inr (u :: unit) \<Rightarrow> ret (v\<lparr>y_CreatedAt := now, y_UpdatedAt := now\<rparr>)) s2 = (Inr q, s')"
    by (simp add: repo_payment_Create_def bindE_Inr bindS_iff) blast
  then have "q = v\<lparr>y_CreatedAt := now, y_UpdatedAt := now\<rparr>"
    by (cases x) (auto simp: fail_eq ret_eq split: if_splits)
  with Payment_Validate_Inr [OF Inr] show ?thesis by simp
qed

lemma store_pending_Inr:
  assumes "store_pending e i p s = (Inr (Some q), s')" and "y_Status p = ''pending''"
  shows "y_Status q = ''pending''"
proof -
  from assms(1) obtain already s1 where
    "(if already then ret None else bindE (repo_payment_Create (Some p)) (\<lambda>p. ret (Some p))) s1 = (Inr (Some q), s')"
    unfolding store_pending_def bindE_Inr by blast
  then obtain s2 where "repo_payment_Create (Some p) s1 = (Inr q, s2)"
    by (auto simp: ret_eq bindE_Inr split: if_splits)
  with assms(2) show ?thesis by (simp add: repo_payment_Create_Inr)
qed

lemma keeps_store_pending:
  "y_Status p = ''pending'' \<Longrightarrow> keeps_db never_paid (store_pending e i p)"
  "keeps (\<lambda>s. B (bus s)) (store_pending e i p)"
  unfolding store_pending_def by (intro keeps_rules keeps_db_payment_inbox never_paid_repo; assumption)+

context payment_gateway
begin

lemma keeps_gateway_db:
  "keeps (\<lambda>s. D (db s)) (gw_RequestPayment gw i)" "keeps (\<lambda>s. B (bus s)) (gw_RequestPayment gw i)"
  by (rule keeps_gateway [where J = "\<lambda>d b. D d"], rule keeps_gateway [where J = "\<lambda>d b. B b"])

lemma keeps_initiate:
  assumes "ys_gateway c = gw" and "y_Status p = ''pending''"
  shows "keeps_db never_paid (initiate_payment c p)"
    and "keeps (\<lambda>s. only_failures (bus s)) (initiate_payment c p)"
proof -
  have await: "y_Status q = ''awaiting''" if "of_sum (MarkAwaitingPayment g a u now p) t = (Inr q, t')" for g a u now q t t'
    using that by (auto simp: of_sum_Inr MarkAwaitingPayment_def payment_status_defs split: if_splits)
  have st: "y_Status q \<in> {''failed'', ''awaiting''}" if "y_Status q = ''failed'' \<or> y_Status q = ''awaiting''" for q
    using that by simp
  show "keeps_db never_paid (initiate_payment c p)"
    unfolding initiate_payment_def Let_def assms(1)
    by (intro keeps_bindS keeps_gateway_db keeps_case_sum keeps_bindE_post [OF keeps_db_mark_failed(1) mark_failed_Inr]
        keeps_bindE [OF keeps_time_Now] keeps_bindE_post [OF keeps_of_sum await] keeps_rules never_paid_repo)
      (auto simp: assms(2))
  show "keeps (\<lambda>s. only_failures (bus s)) (initiate_payment c p)"
    unfolding initiate_payment_def Let_def assms(1) by (intro keeps_rules keeps_gateway_db)
qed

end


context payment_gateway
begin

lemma keeps_HandleOrderCreated:
  assumes "ys_gateway c = gw"
  shows "keeps_db never_paid (HandleOrderCreated c e i u am)"
    and "keeps (\<lambda>s. only_failures (bus s)) (HandleOrderCreated c e i u am)"
proof -
  have stored: "keeps I (case stored of None \<Rightarrow> ret () | Some p \<Rightarrow> initiate_payment c p)"
    if "\<And>p. stored = Some p \<Longrightarrow> keeps I (initiate_payment c p)" for I stored
    using that by (cases stored) (auto intro: keeps_rules)
  have pending: "stored = Some q \<Longrightarrow> y_Status q = ''pending''"
    if "WithTx True (Some (store_pending e i p)) t = (Inr stored, t')" "y_Status p = ''pending''" for p q stored and t t' :: "('r, 'z) pay_env"
    using that by (auto dest!: WithTx_cases store_pending_Inr)
  have start: "y_Status p = ''pending''" if "NewPendingPayment i u am t = (Inr p, t')" for p and t t' :: "('r, 'z) pay_env"
    using NewPendingPayment_Inr [OF that] by simp
  show "keeps_db never_paid (HandleOrderCreated c e i u am)"
    unfolding HandleOrderCreated_def
  proof (rule keeps_bindE_post [where P = "\<lambda>p :: Payment. y_Status p = ''pending''"])
    fix p :: Payment assume p: "y_Status p = ''pending''"
    show "keeps_db never_paid (bindE (WithTx True (Some (store_pending e i p)))
        (\<lambda>stored. case stored of None \<Rightarrow> ret () | Some p \<Rightarrow> initiate_payment c p))"
      by (rule keeps_bindE_post [where P = "\<lambda>stored :: Payment option. \<forall>q. stored = Some q \<longrightarrow> y_Status q = ''pending''"])
        (use p pending in \<open>auto intro!: keeps_WithTx keeps_store_pending stored keeps_initiate assms\<close>)
  qed (auto intro: keeps_rules start)
  show "keeps (\<lambda>s. only_failures (bus s)) (HandleOrderCreated c e i u am)"
    unfolding HandleOrderCreated_def
  proof (rule keeps_bindE_post [where P = "\<lambda>p :: Payment. y_Status p = ''pending''"])
    fix p :: Payment assume p: "y_Status p = ''pending''"
    show "keeps (\<lambda>s. only_failures (bus s)) (bindE (WithTx True (Some (store_pending e i p)))
        (\<lambda>stored. case stored of None \<Rightarrow> ret () | Some p \<Rightarrow> initiate_payment c p))"
      by (rule keeps_bindE_post [where P = "\<lambda>stored :: Payment option. \<forall>q. stored = Some q \<longrightarrow> y_Status q = ''pending''"])
        (use p pending in \<open>auto intro!: keeps_bus_WithTx keeps_store_pending stored keeps_initiate assms\<close>)
  qed (auto intro: keeps_rules start)
qed

end

lemma by_authority_never: "never_paid d \<Longrightarrow> by_authority a (payments d) = Inl ErrNoRows"
proof -
  assume "never_paid d"
  then have "find (\<lambda>r. y_Authority r = Some a) (payments d) = None"
    by (auto simp: find_None_iff never_paid_def)
  then show ?thesis by (simp add: by_authority_def)
qed

lemma GetByAuthority_never:
  assumes "never_paid (db s)" and "repo_GetByAuthority a s = (r, s')"
  shows "(\<exists>e. r = Inl e) \<and> db s' = db s \<and> bus s' = bus s"
proof (cases "a = ''''")
  case True
  with assms(2) show ?thesis by (auto simp: repo_GetByAuthority_def fail_def)
next
  case False
  let ?f = "\<lambda>d. (by_authority a (payments d), d)"
  obtain x s1 where q: "query ?f s = (x, s1)" by (cases "query ?f s")
  from query_cases [OF q] by_authority_never [OF assms(1), of a] have
    "\<exists>e. x = Inl e" "db s1 = db s" "s1 = s\<lparr>calls := calls s + 1, db := db s1\<rparr>" by auto
  moreover from this(3) have "bus s1 = bus s" by (metis env.select_convs(8) env.surjective env.update_convs(2,7))
  ultimately show ?thesis
    using assms(2) False q by (auto simp: repo_GetByAuthority_def bindS_def fail_def split: if_splits)
qed

lemma VerifyPayment_never:
  assumes "never_paid (db s)" and "svc_VerifyPayment c a st s = (r, s')"
  shows "(\<exists>e. r = Inl e) \<and> db s' = db s \<and> bus s' = bus s"
proof -
  obtain x s1 where get: "repo_GetByAuthority a s = (x, s1)" by (cases "repo_GetByAuthority a s")
  from GetByAuthority_never [OF assms(1) get] get assms(2) show ?thesis
    by (auto simp: svc_VerifyPayment_def bindE_def bindS_def fail_def)
qed


lemma payment_reach_never_paid:
  assumes "payment_reach c s" and "ys_gateway c = zarinpal_gateway z"
  shows "never_paid (db s) \<and> only_failures (bus s)"
  using assms(1)
proof (induction rule: payment_reach.induct)
  case (start s)
  then show ?case by (simp add: never_paid_def only_failures_def)
next
  case (step s op)
  show ?case
  proof (cases op)
    case (OrderCreatedMessage b)
    note handled = zarinpal.keeps_HandleOrderCreated [OF assms(2)]
    have db: "keeps_db never_paid (OrderCreated_Handle c b)"
      and bus: "keeps (\<lambda>s. only_failures (bus s)) (OrderCreated_Handle c b)"
      unfolding OrderCreated_Handle_def
      by (intro keeps_rules handled)+
    from keepsD [OF db, of s] keepsD [OF bus, of s] step.IH OrderCreatedMessage show ?thesis
      by (metis payment_step.simps(1) prod.collapse)
  next
    case (VerifyCallback a st)
    obtain r s1 where run: "svc_VerifyPayment c a st s = (r, s1)" by (cases "svc_VerifyPayment c a st s")
    from VerifyPayment_never [OF _ run] step.IH run VerifyCallback show ?thesis
      by (auto simp: grpc_VerifyPayment_def grpc_answer_def bindE_def bindS_def fail_def split: option.splits)
  next
    case (GetPaymentOf ctx req)
    have admin: "keeps I (pay_requireAdmin ctx)" for I
      unfolding pay_requireAdmin_def by (intro keeps_rules)
    have db: "keeps_db never_paid (grpc_GetPaymentByOrderID c ctx req)"
      and bus: "keeps (\<lambda>s. only_failures (bus s)) (grpc_GetPaymentByOrderID c ctx req)"
      unfolding grpc_GetPaymentByOrderID_def GetPaymentByOrderID_def by (intro keeps_rules admin)+
    from keepsD [OF db, of s] keepsD [OF bus, of s] step.IH GetPaymentOf show ?thesis
      by (metis payment_step.simps(3) prod.collapse)
  qed
next
  case (outside s s')
  then show ?case by simp
qed

text \<open>
  C16: no payment is ever completed. Whatever the gateway and the users do, every payment on file is
  pending or failed, every message the service has published is a \<open>payment.failed\<close>, and the callback
  from the bank is answered with an error whatever it says and changes nothing.
\<close>

theorem no_payment_ever_completes:
  assumes "payment_reach c s" and "ys_gateway c = zarinpal_gateway z"
    and "svc_VerifyPayment c authority zarinpalStatus s = (r, s')"
  shows "(\<forall>p \<in> set (payments (db s)). y_Status p = ''pending'' \<or> y_Status p = ''failed'') \<and>
    (\<forall>m \<in> set (bus s). fst m = ''payment.failed'') \<and> (\<exists>e. r = Inl e) \<and> db s' = db s \<and> bus s' = bus s"
  using payment_reach_never_paid [OF assms(1,2)] VerifyPayment_never [OF _ assms(3)]
  by (auto simp: never_paid_def only_failures_def RoutingKeyPaymentFailed_def)

section \<open>One payment for each order message\<close>

definition order_seen :: "uuid \<Rightarrow> ('r, 'z) pay_env \<Rightarrow> bool" where
  "order_seen e s \<longleftrightarrow> e \<in> ye_event_id ` set (payment_events (db s))"

definition payment_ids :: "('r, 'z) pay_env \<Rightarrow> uuid list" where
  "payment_ids s = map y_ID (payments (db s))"

lemma keeps_ids_update:
  "keeps_db (\<lambda>d. payment_events d = E \<and> map y_ID (payments d) = I) (UpdateFromPending p)"
proof -
  have ids: "map y_ID (snd (sql_update payments_schema (pending_where i) (pending_set q now) t)) = map y_ID t"
    for i q now t
    by (rule sql_update_map) (auto simp: pending_set_def)
  have "keeps_db (\<lambda>d. payment_events d = E \<and> map y_ID (payments d) = I)
      (query (on_payments (sql_update payments_schema (pending_where i) (pending_set q now))))" for i q now
    by (rule keeps_query) (auto simp: on_payments_def case_prod_unfold ids)
  then show ?thesis unfolding UpdateFromPending_def by (intro keeps_rules)
qed

context payment_gateway
begin

lemma keeps_ids_initiate:
  assumes "ys_gateway c = gw"
  shows "keeps_db (\<lambda>d. payment_events d = E \<and> map y_ID (payments d) = I) (initiate_payment c p)"
  unfolding initiate_payment_def Let_def assms
  by (intro keeps_rules keeps_gateway_db keeps_ids_update)

text \<open>What handling an order message did: nothing, or it was a duplicate, or it is recorded now.\<close>

lemma HandleOrderCreated_cases:
  fixes s s' :: "('r, 'z) pay_env"
  assumes gw: "ys_gateway c = gw" and run: "HandleOrderCreated c e i u am s = (r, s')"
  shows "((\<exists>x. r = Inl x) \<and> db s' = db s) \<or> (order_seen e s \<and> db s' = db s) \<or>
    (\<not> order_seen e s \<and> order_seen e s')"
proof -
  obtain x s1 where new: "NewPendingPayment i u am s = (x, s1)" by (cases "NewPendingPayment i u am s")
  have x: "\<exists>p. x = Inr p" and db1: "db s1 = db s"
    using new by (auto simp: NewPendingPayment_def bindE_def bindS_def time_Now_def uuid_New_def ret_def)
  then obtain p where p: "x = Inr p" by blast
  obtain y s2 where tx: "WithTx True (Some (store_pending e i p)) s1 = (y, s2)"
    by (cases "WithTx True (Some (store_pending e i p)) s1")
  have rest: "(case y of Inl err \<Rightarrow> (Inl err, s2)
      | Inr stored \<Rightarrow> (case stored of None \<Rightarrow> ret () | Some q \<Rightarrow> initiate_payment c q) s2) = (r, s')"
    using run new p tx by (auto simp: HandleOrderCreated_def bindE_def bindS_def fail_def split: sum.splits)
  have after: "payment_events (db s') = payment_events (db s2)" if "y = Inr stored" for stored
  proof -
    have k: "keeps_db (\<lambda>d. payment_events d = payment_events (db s2) \<and> map y_ID (payments d) = map y_ID (payments (db s2)))
        (case stored of None \<Rightarrow> ret () | Some q \<Rightarrow> initiate_payment c q)"
      by (intro keeps_rules keeps_ids_initiate gw)
    from rest that have step: "(case stored of None \<Rightarrow> ret () | Some q \<Rightarrow> initiate_payment c q) s2 = (r, s')"
      by simp
    from keepsD [OF k _ step] show ?thesis by simp
  qed
  from WithTx_cases [OF tx] consider (none) z where "y = Inl z" "db s2 = db s1"
    | (body) stored s3 where "store_pending e i p (s1\<lparr>calls := calls s1 + 1\<rparr>) = (Inr stored, s3)" "db s2 = db s3"
        "y = Inr stored \<or> (\<exists>z. y = Inl z)"
    by auto
  then show ?thesis
  proof cases
    case none
    with rest db1 show ?thesis by auto
  next
    case body
    from body(1) obtain already s4 where
      mark: "pay_MarkProcessed e ''order.created'' (Some i) None (s1\<lparr>calls := calls s1 + 1\<rparr>) = (Inr already, s4)"
      and create: "(if already then ret None else bindE (repo_payment_Create (Some p)) (\<lambda>p. ret (Some p))) s4 = (Inr stored, s3)"
      by (auto simp: store_pending_def bindE_Inr)
    obtain n where q: "query (on_payment_events (sql_inbox ye_event_id payment_event_err
        \<lparr>ye_event_id = e, ye_event_type = ''order.created'', ye_order_id = Some i, ye_payment_id = None,
         ye_aggregate_type = ''order''\<rparr>)) (s1\<lparr>calls := calls s1 + 1\<rparr>) = (Inr n, s4)" "already = (n = 0)"
      using mark by (auto simp: pay_MarkProcessed_def bindE_Inr wrapE_Inr ret_eq)
    obtain t where t: "sql_inbox ye_event_id payment_event_err
        \<lparr>ye_event_id = e, ye_event_type = ''order.created'', ye_order_id = Some i, ye_payment_id = None,
         ye_aggregate_type = ''order''\<rparr> (payment_events (db s)) = (Inr n, t)" "db s4 = (db s)\<lparr>payment_events := t\<rparr>"
      using query_Inr [OF q(1)] db1 by (auto simp: on_payment_events_def split: prod.splits)
    note keys = sql_inbox_keys [OF t(1)]
    show ?thesis
    proof (cases already)
      case True
      with keys q(2) t(2) have same: "order_seen e s" "db s4 = db s" by (auto simp: order_seen_def)
      from True create have "stored = None" "s3 = s4" by (auto simp: ret_def)
      with body(2,3) rest same show ?thesis by (auto simp: ret_def)
    next
      case False
      have ins: "keeps_db (\<lambda>d. payment_events d = t) (query (on_payments g))" for g :: "Payment list \<Rightarrow> (goerr + unit) \<times> Payment list"
        by (rule keeps_query) (auto simp: on_payments_def split: prod.splits)
      have k: "keeps_db (\<lambda>d. payment_events d = t) (repo_payment_Create (Some p))"
        unfolding repo_payment_Create_def by (intro keeps_rules ins)
      from False create obtain q5 where step: "repo_payment_Create (Some p) s4 = (Inr q5, s3)"
        by (auto simp: bindE_Inr ret_eq)
      have "payment_events (db s3) = t" using keepsD [OF k _ step] t(2) by simp
      moreover have "payment_events (db s') = payment_events (db s2)"
        using body(3) after rest by auto
      ultimately have "payment_events (db s') = t" using body(2) by simp
      moreover have "e \<in> ye_event_id ` set t" "e \<notin> ye_event_id ` set (payment_events (db s))"
        using keys q(2) False by auto
      ultimately show ?thesis by (simp add: order_seen_def)
    qed
  qed
qed

end


text \<open>Every payment service over the ZarinPal client keeps an inbox.\<close>

definition over_zarinpal :: "'r zarinpalClient \<Rightarrow> ('r, 'z) pay_env payment_svc \<Rightarrow> ('r, 'z) pay_env payment_svc" where
  "over_zarinpal z c = c\<lparr>ys_gateway := zarinpal_gateway z\<rparr>"


lemma over_zarinpal_gateway: "ys_gateway (over_zarinpal z c) = zarinpal_gateway z"
  by (simp add: over_zarinpal_def)

text \<open>
  What may happen between two deliveries: any message or request that the service handles, and
  anything outside that leaves the database alone. None of it takes an event off the record.
\<close>

inductive payment_between ::
  "('r, 'z) pay_env payment_svc \<Rightarrow> ('r, 'z) pay_env \<Rightarrow> ('r, 'z) pay_env \<Rightarrow> bool"
  for c where
  step: "payment_between c s (payment_step c op s)"
| outside: "db s' = db s \<Longrightarrow> payment_between c s s'"

lemma keeps_on_payments:
  "keeps_db (\<lambda>d. J (payment_events d)) (query (on_payments f))"
  by (rule keeps_query) (auto simp: on_payments_def split: prod.splits)

lemma keeps_order_seen [keeps_rules]:
  "keeps_db (\<lambda>d. e \<in> ye_event_id ` set (payment_events d)) (repo_payment_Create p)"
  "keeps_db (\<lambda>d. e \<in> ye_event_id ` set (payment_events d)) (repo_payment_Update p)"
  "keeps_db (\<lambda>d. e \<in> ye_event_id ` set (payment_events d)) (UpdateFromPending p)"
  "keeps_db (\<lambda>d. e \<in> ye_event_id ` set (payment_events d)) (pay_MarkProcessed e' ty i j)"
proof -
  let ?J = "\<lambda>d. e \<in> ye_event_id ` set (payment_events d)"
  have ins: "keeps_db ?J (query (on_payment_events (sql_inbox ye_event_id payment_event_err ev)))" for ev
    by (rule keeps_query)
      (auto simp: on_payment_events_def sql_inbox_def split: prod.splits option.splits if_splits)
  show "keeps_db ?J (repo_payment_Create p)" "keeps_db ?J (repo_payment_Update p)"
    "keeps_db ?J (UpdateFromPending p)" "keeps_db ?J (pay_MarkProcessed e' ty i j)"
    unfolding repo_payment_Create_def repo_payment_Update_def UpdateFromPending_def pay_MarkProcessed_def
    by (intro keeps_rules ins keeps_on_payments [where J = "\<lambda>t. e \<in> ye_event_id ` set t"])+
qed

context payment_gateway
begin

text \<open>What every statement of the payment service keeps, all of its operations keep.\<close>

lemma keeps_payment_step:
  fixes s :: "('r, 'z) pay_env"
  assumes gw: "ys_gateway c = gw"
    and J: "\<And>p. keeps_db J (repo_payment_Create p :: (('r, 'z) pay_env, Payment) comp)"
      "\<And>p. keeps_db J (repo_payment_Update p :: (('r, 'z) pay_env, unit) comp)"
      "\<And>p. keeps_db J (UpdateFromPending p :: (('r, 'z) pay_env, unit) comp)"
      "\<And>e ty i j. keeps_db J (pay_MarkProcessed e ty i j :: (('r, 'z) pay_env, bool) comp)"
    and "J (db s)"
  shows "J (db (payment_step c op s))"
proof -
  have store: "keeps_db J (store_pending e i p :: (('r, 'z) pay_env, Payment option) comp)" for e i p
    unfolding store_pending_def by (intro keeps_rules J)
  have initiate: "keeps_db J (initiate_payment c p)" for p
    unfolding initiate_payment_def Let_def gw by (intro keeps_rules keeps_gateway_db J)
  have handle: "keeps_db J (OrderCreated_Handle c b)" for b
    unfolding OrderCreated_Handle_def HandleOrderCreated_def by (intro keeps_rules store initiate)
  have admin: "keeps I (pay_requireAdmin ctx)" for I ctx
    unfolding pay_requireAdmin_def by (intro keeps_rules)
  have get: "keeps_db J (grpc_GetPaymentByOrderID c ctx req)" for ctx req
    unfolding grpc_GetPaymentByOrderID_def GetPaymentByOrderID_def by (intro keeps_rules admin)
  have failure: "keeps_db J (record_failure c reason p :: (('r, 'z) pay_env, Payment) comp)" for reason p
    unfolding record_failure_def by (intro keeps_rules J)
  have verify: "keeps_db J (grpc_VerifyPayment c a st)" for a st
    unfolding grpc_VerifyPayment_def svc_VerifyPayment_def gw
    by (intro keeps_rules keeps_gateway(2) [where J = "\<lambda>d b. J d"] failure J)
  from \<open>J (db s)\<close> show ?thesis
    by (cases op) (auto intro: keepsI_snd [OF handle] keepsI_snd [OF get] keepsI_snd [OF verify])
qed

end

lemma order_seen_stays:
  assumes "payment_between (over_zarinpal z c) s s'" and "order_seen e s"
  shows "order_seen e s'"
  using assms
proof (induction rule: payment_between.induct)
  case (step s op)
  show ?case unfolding order_seen_def
    by (rule zarinpal.keeps_payment_step [OF over_zarinpal_gateway, where J = "\<lambda>d. e \<in> ye_event_id ` set (payment_events d)"])
      (use step in \<open>simp_all only: order_seen_def keeps_order_seen\<close>)
qed (simp add: order_seen_def)

interpretation order_inbox: inbox_consumer "HandleOrderCreated (over_zarinpal z c) e i u am"
    "payment_between (over_zarinpal z c)" "order_seen e" payment_ids
  for z and c :: "('r, 'z) pay_env payment_svc" and e i u am
proof
  fix s s' :: "('r, 'z) pay_env" and r
  show "order_seen e s' \<and> payment_ids s' = payment_ids s"
    if "order_seen e s" "HandleOrderCreated (over_zarinpal z c) e i u am s = (r, s')"
    using zarinpal.HandleOrderCreated_cases [OF over_zarinpal_gateway that(2)] that(1)
    by (auto simp: order_seen_def payment_ids_def)
  show "order_seen e s' \<or> payment_ids s' = payment_ids s"
    if "HandleOrderCreated (over_zarinpal z c) e i u am s = (r, s')"
    using zarinpal.HandleOrderCreated_cases [OF over_zarinpal_gateway that] by (auto simp: payment_ids_def)
  show "order_seen e s'" if "HandleOrderCreated (over_zarinpal z c) e i u am s = (Inr (), s')"
    using zarinpal.HandleOrderCreated_cases [OF over_zarinpal_gateway that]
    by (auto simp: order_seen_def)
  show "order_seen e s'" if "payment_between (over_zarinpal z c) s s'" "order_seen e s"
    using order_seen_stays [OF that] .
qed

text \<open>
  C9: however often an \<open>order.created\<close> message is delivered, at most one of its handlings creates a
  payment, whatever other messages and requests the service handles in between and whatever fails;
  once a handling is acknowledged none does.
\<close>

theorem order_message_creates_one_payment:
  assumes "deliveries (HandleOrderCreated (over_zarinpal z c) e i u am) (payment_between (over_zarinpal z c))
    payment_ids n s t"
  shows "n \<le> 1 \<and> (order_seen e s \<longrightarrow> n = 0) \<and>
    (\<forall>s'. HandleOrderCreated (over_zarinpal z c) e i u am s = (Inr (), s') \<longrightarrow> order_seen e s')"
  using order_inbox.at_most_once [OF assms] order_inbox.acknowledged by (auto split: if_splits)

section \<open>A payment the gateway accepts\<close>

lemma UpdateFromPending_awaiting:
  assumes "y_Status p = ''awaiting''" and "UpdateFromPending (Some p) s = (r, s')"
  shows "(\<exists>e. r = Inl e) \<and> db s' = db s"
proof (cases "Payment_Validate p")
  case (Inl e)
  with assms(2) show ?thesis by (auto simp: UpdateFromPending_def fail_def)
next
  case (Inr v)
  have st: "y_Status v = ''awaiting''" using Payment_Validate_Inr [OF Inr] assms(1) by simp
  have rows: "upd_rows payments_schema (pending_where i) (pending_set v now) t = Inr (n, t') \<Longrightarrow> n = 0 \<and> t' = t"
    for i now n t t'
  proof (induction t arbitrary: n t')
    case Nil
    then show ?case by simp
  next
    case (Cons q t)
    obtain q1 where q1: "pending_set v now q = Inr q1" "payment_row_err q1 \<noteq> None"
      using st by (auto simp: pending_set_def payment_row_err_def)
    with Cons show ?case
      by (cases "upd_rows payments_schema (pending_where i) (pending_set v now) t")
        (auto split: if_splits option.splits)
  qed
  let ?f = "\<lambda>now. on_payments (sql_update payments_schema (pending_where (y_ID v)) (pending_set v now))"
  have upd: "(\<exists>e. x = Inl e) \<or> x = Inr 0" "d' = d" if "?f now d = (x, d')" for now d x d'
    using that rows by (auto simp: on_payments_def sql_update_def split: sum.splits prod.splits if_splits)
  from assms(2) Inr obtain now s1 x s2 where
    q: "query (?f now) s1 = (x, s2)" "db s1 = db s" "s' = s2"
      "r = (case x of Inl err \<Rightarrow> Inl (Wrap KindInternal (Some err) ''failed to update payment status'')
        | Inr n \<Rightarrow> if n = 0 then Inl (New KindAlreadyExists ''payment is not in a pending state'') else Inr ())"
    by (auto simp: UpdateFromPending_def bindE_def bindS_def wrapE_def time_Now_def fail_def ret_def
        split: sum.splits prod.splits if_splits)
  obtain y d' where f: "?f now (db s1) = (y, d')" by (cases "?f now (db s1)")
  from query_cases [OF q(1)] upd [OF f] f have "db s2 = db s1" "(\<exists>e. x = Inl e) \<or> x = Inr 0" by auto
  with q show ?thesis by auto
qed

text \<open>The later states of the service: \<open>payment_reach\<close> from any state on.\<close>

inductive payment_path ::
  "('r, 'z) pay_env payment_svc \<Rightarrow> ('r, 'z) pay_env \<Rightarrow> ('r, 'z) pay_env \<Rightarrow> bool"
  for c s where
  here: "payment_path c s s"
| step: "payment_path c s t \<Longrightarrow> payment_path c s (payment_step c op t)"
| outside: "payment_path c s t \<Longrightarrow> db t' = db t \<Longrightarrow> bus t' = bus t \<Longrightarrow> payment_path c s t'"

lemma payment_path_reach: "payment_path c s t \<Longrightarrow> payment_reach c s \<Longrightarrow> payment_reach c t"
  by (induction rule: payment_path.induct) (auto intro: payment_reach.step payment_reach.outside)

lemma keeps_payment_db_inbox:
  "keeps_db payment_db_ok (pay_MarkProcessed e ty i j)"
proof -
  have "keeps_db payment_db_ok (query (on_payment_events (sql_inbox ye_event_id payment_event_err ev)))" for ev
    by (rule keeps_query)
      (auto simp: payment_db_ok_def on_payment_events_def split: prod.splits dest: sql_inbox_distinct
        [where key = ye_event_id and err = payment_event_err and e = ev])
  then show ?thesis unfolding pay_MarkProcessed_def by (intro keeps_rules)
qed

lemma payment_reach_ok:
  assumes "payment_reach c s" and gw: "ys_gateway c = zarinpal_gateway z"
  shows "payment_db_ok (db s)"
  using assms(1)
proof (induction rule: payment_reach.induct)
  case (start s)
  then show ?case by (simp add: payment_db_ok_def tbl_wf_def active_orders_def gateway_refs_def)
next
  case (step s op)
  show ?case
    by (rule zarinpal.keeps_payment_step [OF gw, where J = payment_db_ok])
      (simp_all only: keeps_payment_repo keeps_payment_db_inbox step)
qed simp

lemma order_seen_path:
  assumes "payment_path c s t" and gw: "ys_gateway c = zarinpal_gateway z" and "order_seen e s"
  shows "order_seen e t"
  using assms(1)
proof (induction rule: payment_path.induct)
  case here
  show ?case by (rule assms(3))
next
  case (step t op)
  show ?case unfolding order_seen_def
    by (rule zarinpal.keeps_payment_step [OF gw, where J = "\<lambda>d. e \<in> ye_event_id ` set (payment_events d)"])
      (use step in \<open>simp_all only: order_seen_def keeps_order_seen\<close>)
qed (simp add: order_seen_def)

text \<open>A row on file is changed by none of the later steps: a handling updates only the payment it has inserted.\<close>

lemma keeps_other_row:
  assumes "y_ID q \<noteq> y_ID r"
  shows "keeps_db (\<lambda>d. r \<in> set (payments d)) (UpdateFromPending (Some q))"
proof -
  have "keeps_db (\<lambda>d. r \<in> set (payments d))
      (query (on_payments (sql_update payments_schema (pending_where (y_ID v)) (pending_set v now))))"
    if "y_ID v = y_ID q" for v now
  proof (rule keeps_query)
    fix d :: payment_db assume "r \<in> set (payments d)"
    from sql_update_image [OF this, of payments_schema "pending_where (y_ID v)" "pending_set v now"]
    have "r \<in> set (snd (sql_update payments_schema (pending_where (y_ID v)) (pending_set v now) (payments d)))"
      using assms that by (auto simp: pending_where_def)
    then show "r \<in> set (payments (snd (on_payments
        (sql_update payments_schema (pending_where (y_ID v)) (pending_set v now)) d)))"
      by (simp add: on_payments_def case_prod_unfold)
  qed
  then show ?thesis
    unfolding UpdateFromPending_def
    by (auto split: sum.splits dest!: Payment_Validate_Inr intro!: keeps_rules)
qed

lemma mark_failed_id: "mark_failed reason p s = (Inr q, s') \<Longrightarrow> y_ID q = y_ID p"
  by (auto simp: mark_failed_def MarkFailed_def bindE_Inr ret_eq split: sum.splits if_splits)

lemma awaiting_id: "of_sum (MarkAwaitingPayment g a u now p) t = (Inr q, t') \<Longrightarrow> y_ID q = y_ID p"
  by (auto simp: of_sum_Inr MarkAwaitingPayment_def split: if_splits)

lemma keeps_row_initiate:
  assumes "ys_gateway c = zarinpal_gateway z" and "y_ID p \<noteq> y_ID r"
  shows "keeps_db (\<lambda>d. r \<in> set (payments d)) (initiate_payment c p)"
proof -
  have other: "y_ID q = y_ID p \<Longrightarrow> keeps_db (\<lambda>d. r \<in> set (payments d)) (UpdateFromPending (Some q))" for q
    using assms(2) by (intro keeps_other_row) simp
  show ?thesis
    unfolding initiate_payment_def Let_def assms(1)
    by (intro keeps_bindS zarinpal.keeps_gateway_db keeps_case_sum keeps_bindE [OF keeps_time_Now]
        keeps_bindE_post [OF keeps_db_mark_failed(1) mark_failed_id] keeps_bindE_post [OF keeps_of_sum awaiting_id]
        keeps_rules other)
qed

text \<open>What \<open>Create\<close> stores: a row with a new id, pending and without an authority.\<close>

lemma repo_payment_Create_row:
  assumes "repo_payment_Create (Some p) s = (Inr q, s')"
  shows "\<exists>row. payments (db s') = payments (db s) @ [row] \<and> y_ID row = y_ID q \<and> y_ID q = y_ID p \<and>
    y_ID row \<notin> y_ID ` set (payments (db s)) \<and> y_OrderID row = y_OrderID p \<and> y_Status row = y_Status p \<and>
    y_Authority row = None \<and> payment_events (db s') = payment_events (db s)"
proof (cases "Payment_Validate p")
  case (Inl e)
  with assms show ?thesis by (simp add: repo_payment_Create_def fail_def)
next
  case (Inr v)
  let ?row = "\<lambda>now. v\<lparr>y_GatewayName := None, y_GatewayRefID := None, y_Authority := None,
      y_RedirectURL := None, y_FailureReason := None, y_CreatedAt := now, y_UpdatedAt := now\<rparr>"
  from assms Inr obtain now x s1 s2 where
    q: "query (on_payments (sql_insert payments_schema (?row now))) s1 = (x, s2)" "db s1 = db s"
    and answer: "(case x of
      Inl err \<Rightarrow> if err = PgError ''23505''
        then fail (New KindAlreadyExists ''an active payment already exists for this order'')
        else fail (Wrap KindInternal (Some err) ''failed to create payment in database'')
    | Inr (u :: unit) \<Rightarrow> ret (v\<lparr>y_CreatedAt := now, y_UpdatedAt := now\<rparr>)) s2 = (Inr q, s')"
    by (auto simp: repo_payment_Create_def bindE_Inr bindS_iff time_Now_def)
  from answer have x: "x = Inr ()" "s' = s2" and qv: "q = v\<lparr>y_CreatedAt := now, y_UpdatedAt := now\<rparr>"
    by (cases x; auto simp: fail_eq ret_eq split: if_splits)+
  from query_Inr [OF q(1) [unfolded x(1)]] obtain t where
    "sql_insert payments_schema (?row now) (payments (db s)) = (Inr (), t)" "db s2 = (db s)\<lparr>payments := t\<rparr>"
    using q(2) by (auto simp: on_payments_def split: prod.splits)
  moreover from sql_insert_cases [OF this(1)] have "t = payments (db s) @ [?row now]"
    "y_ID v \<notin> y_ID ` set (payments (db s))"
    by auto
  ultimately show ?thesis
    using Payment_Validate_Inr [OF Inr] x(2) qv by (intro exI [of _ "?row now"]) simp
qed

lemma store_pending_row:
  assumes "store_pending e i p s = (Inr (Some q), s')"
  shows "\<exists>row. payments (db s') = payments (db s) @ [row] \<and> y_ID row = y_ID q \<and> y_ID q = y_ID p \<and>
    y_ID row \<notin> y_ID ` set (payments (db s)) \<and> y_OrderID row = y_OrderID p \<and> y_Status row = y_Status p \<and>
    y_Authority row = None"
proof -
  from assms obtain already s1 where
    mark: "pay_MarkProcessed e ''order.created'' (Some i) None s = (Inr already, s1)"
    and rest: "(if already then ret None else bindE (repo_payment_Create (Some p)) (\<lambda>p. ret (Some p))) s1 = (Inr (Some q), s')"
    unfolding store_pending_def bindE_Inr by blast
  from rest have create: "repo_payment_Create (Some p) s1 = (Inr q, s')"
    by (auto simp: ret_eq bindE_Inr split: if_splits)
  have "keeps_db (\<lambda>d. payments d = payments (db s)) (pay_MarkProcessed e ''order.created'' (Some i) None)"
  proof -
    have "keeps_db (\<lambda>d. payments d = payments (db s)) (query (on_payment_events f))" for f
      by (rule keeps_query) (auto simp: on_payment_events_def split: prod.splits)
    then show ?thesis unfolding pay_MarkProcessed_def by (intro keeps_rules)
  qed
  from keepsD [OF this _ mark] have "payments (db s1) = payments (db s)" by simp
  with repo_payment_Create_row [OF create] show ?thesis by auto
qed

lemma store_pending_None:
  assumes "store_pending e i p s = (Inr None, s')"
  shows "payments (db s') = payments (db s)"
proof -
  from assms have mark: "pay_MarkProcessed e ''order.created'' (Some i) None s = (Inr True, s')"
    by (auto simp: store_pending_def bindE_Inr ret_eq split: if_splits)
  have "keeps_db (\<lambda>d. payments d = payments (db s)) (pay_MarkProcessed e ''order.created'' (Some i) None)"
  proof -
    have "keeps_db (\<lambda>d. payments d = payments (db s)) (query (on_payment_events f))" for f
      by (rule keeps_query) (auto simp: on_payment_events_def split: prod.splits)
    then show ?thesis unfolding pay_MarkProcessed_def by (intro keeps_rules)
  qed
  from keepsD [OF this _ mark] show ?thesis by simp
qed

lemma keeps_row_handle:
  fixes c :: "('r, 'z) pay_env payment_svc"
  assumes gw: "ys_gateway c = zarinpal_gateway z"
  shows "keeps_db (\<lambda>d. r \<in> set (payments d)) (HandleOrderCreated c e i u am)"
proof (rule keepsI)
  fix s :: "('r, 'z) pay_env"
  assume r: "r \<in> set (payments (db s))"
  obtain p s1 where new: "NewPendingPayment i u am s = (Inr p, s1)" "db s1 = db s"
    by (simp add: NewPendingPayment_def bindE_def bindS_def time_Now_def uuid_New_def ret_def)
  obtain y s2 where tx: "WithTx True (Some (store_pending e i p)) s1 = (y, s2)"
    by (cases "WithTx True (Some (store_pending e i p)) s1")
  have run: "snd (HandleOrderCreated c e i u am s) = snd (case y of Inl err \<Rightarrow> (Inl err, s2)
      | Inr stored \<Rightarrow> (case stored of None \<Rightarrow> ret () | Some q \<Rightarrow> initiate_payment c q) s2)"
    using new tx by (simp add: HandleOrderCreated_def bindE_def bindS_def fail_def split: sum.splits)
  from WithTx_cases [OF tx] consider (none) z where "y = Inl z" "db s2 = db s"
    | (body) stored s3 where "store_pending e i p (s1\<lparr>calls := calls s1 + 1\<rparr>) = (Inr stored, s3)" "db s2 = db s3"
        "y = Inr stored \<or> (\<exists>z. y = Inl z)"
    using new(2) by auto
  then show "r \<in> set (payments (db (snd (HandleOrderCreated c e i u am s))))"
  proof cases
    case none
    with r run show ?thesis by simp
  next
    case body
    show ?thesis
    proof (cases stored)
      case None
      with store_pending_None [OF body(1) [unfolded None]] body r new(2) run show ?thesis by (auto simp: ret_def)
    next
      case (Some q)
      from store_pending_row [OF body(1) [unfolded Some]] obtain row where
        "payments (db s3) = payments (db s) @ [row]" "y_ID row = y_ID q" "y_ID row \<notin> y_ID ` set (payments (db s))"
        using new(2) by auto
      with r body(2) have row: "r \<in> set (payments (db s2))" "y_ID q \<noteq> y_ID r" by (auto simp: image_iff)
      from keepsI_snd [OF keeps_row_initiate [OF gw row(2)], of s2] row(1) Some body(3) run show ?thesis
        by auto
    qed
  qed
qed

lemma row_stays:
  assumes "payment_path c s t" and "payment_reach c s" and gw: "ys_gateway c = zarinpal_gateway z"
    and "r \<in> set (payments (db s))"
  shows "r \<in> set (payments (db t))"
  using assms(1)
proof (induction rule: payment_path.induct)
  case here
  show ?case by (rule assms(4))
next
  case (step t op)
  have never: "never_paid (db t)"
    using payment_reach_never_paid [OF payment_path_reach [OF step.hyps assms(2)] gw] by simp
  show ?case
  proof (cases op)
    case (OrderCreatedMessage b)
    have "keeps_db (\<lambda>d. r \<in> set (payments d)) (OrderCreated_Handle c b)"
      unfolding OrderCreated_Handle_def by (intro keeps_rules keeps_row_handle [OF gw])
    from keepsI_snd [OF this step.IH] OrderCreatedMessage show ?thesis by simp
  next
    case (VerifyCallback a st)
    obtain x t1 where run: "svc_VerifyPayment c a st t = (x, t1)" by (cases "svc_VerifyPayment c a st t")
    from VerifyPayment_never [OF never run] step.IH run VerifyCallback show ?thesis
      by (auto simp: grpc_VerifyPayment_def grpc_answer_def bindE_def bindS_def fail_def split: option.splits)
  next
    case (GetPaymentOf ctx req)
    have admin: "keeps I (pay_requireAdmin ctx)" for I
      unfolding pay_requireAdmin_def by (intro keeps_rules)
    have "keeps_db (\<lambda>d. r \<in> set (payments d)) (grpc_GetPaymentByOrderID c ctx req)"
      unfolding grpc_GetPaymentByOrderID_def GetPaymentByOrderID_def by (intro keeps_rules admin)
    from keepsI_snd [OF this step.IH] GetPaymentOf show ?thesis by simp
  qed
qed simp

lemma redelivery_acknowledged:
  assumes "order_seen e t" and "healthy t"
  shows "\<exists>t'. HandleOrderCreated c e i u am t = (Inr (), t') \<and> db t' = db t \<and> bus t' = bus t"
proof -
  let ?t1 = "t\<lparr>ticks := ticks t + 1, gens := gens t + 1\<rparr>"
  have mark: "pay_MarkProcessed e ''order.created'' (Some i) None (?t1\<lparr>calls := calls t + 1\<rparr>) =
      (Inr True, ?t1\<lparr>calls := calls t + 2\<rparr>)"
    using assms
    by (simp add: pay_MarkProcessed_def bindE_def bindS_def wrapE_def ret_def query_def extern_healthy on_db_def
        on_payment_events_def sql_inbox_def payment_event_err_def pg_text_def char_count_def order_seen_def)
  have "HandleOrderCreated c e i u am t = (Inr (), ?t1\<lparr>calls := calls t + 3\<rparr>)"
    using mark assms(2)
    by (simp add: HandleOrderCreated_def NewPendingPayment_def bindE_def bindS_def time_Now_def uuid_New_def ret_def
        WithTx_def store_pending_def extern_healthy healthyD numeral_3_eq_3)
  then show ?thesis by auto
qed

lemma initiate_accepted:
  assumes "gw_RequestPayment (ys_gateway c) \<lparr>ri_Amount = y_Amount p,
      ri_Description = description_prefix @ uuid_String (ys_ul c) (y_OrderID p),
      ri_CallbackURL = ys_callbackURL c, ri_Email = '''', ri_Mobile = ''''\<rparr> s = (Inr out, s1)"
    and "initiate_payment c p s = (r, s')" and "y_Status p = ''pending''"
  shows "(\<exists>err. r = Inl err) \<and> db s' = db s1"
proof -
  from assms obtain q t2 where "UpdateFromPending (Some q) t2 = (r, s')" "y_Status q = ''awaiting''" "db t2 = db s1"
    by (auto simp: initiate_payment_def bindS_def bindE_def time_Now_def of_sum_def ret_def
        MarkAwaitingPayment_def payment_status_defs)
  with UpdateFromPending_awaiting show ?thesis by metis
qed

text \<open>
  C32: a payment that the gateway accepts stays pending for ever. When a handling of \<open>order.created\<close> has
  stored its payment and the gateway has given it an authority, the handling is answered with an error
  (the table refuses the status it writes), and the payment is on file as pending and without the
  authority. In every later state, whatever the service handles, it is on file just so, the callback of
  the bank for that authority finds no payment and is answered with an error, and each redelivery of the
  message that meets no failure acknowledges it and changes nothing.
\<close>

theorem accepted_payment_stays_pending:
  fixes s0 :: "('r, 'z) pay_env"
  assumes "payment_reach c s0" and "ys_gateway c = zarinpal_gateway z"
    and "UnmarshalOrderCreated (ys_json c) body = Inr ev"
    and "oc_EventID ev \<noteq> uuid_Nil" and "oc_OrderID ev \<noteq> uuid_Nil"
    and "NewPendingPayment (oc_OrderID ev) (oc_UserID ev) (oc_TotalAmount ev) s0 = (Inr p0, s1)"
    and "WithTx True (Some (store_pending (oc_EventID ev) (oc_OrderID ev) p0)) s1 = (Inr (Some p), s2)"
    and "RequestPayment z \<lparr>ri_Amount = y_Amount p,
      ri_Description = description_prefix @ uuid_String (ys_ul c) (y_OrderID p),
      ri_CallbackURL = ys_callbackURL c, ri_Email = '''', ri_Mobile = ''''\<rparr> s2 = (Inr out, s3)"
    and "OrderCreated_Handle c body s0 = (r, s')"
  shows "\<exists>err q. r = Inl err \<and> y_OrderID q = oc_OrderID ev \<and> y_Status q = ''pending'' \<and> y_Authority q = None \<and>
    (\<forall>t. payment_path c s' t \<longrightarrow>
      tbl_get y_ID (payments (db t)) (y_ID p) = Some q \<and>
      (\<exists>x. fst (repo_GetByAuthority (ro_Authority out) t) = Inl x) \<and>
      (\<exists>x. fst (svc_VerifyPayment c (ro_Authority out) st t) = Inl x) \<and>
      db (snd (svc_VerifyPayment c (ro_Authority out) st t)) = db t \<and>
      (healthy t \<longrightarrow> (\<exists>t'. OrderCreated_Handle c body t = (Inr (), t') \<and> db t' = db t \<and> bus t' = bus t)))"
proof -
  note gw = assms(2)
  let ?e = "oc_EventID ev"
  have handle: "OrderCreated_Handle c body = HandleOrderCreated c ?e (oc_OrderID ev) (oc_UserID ev) (oc_TotalAmount ev)"
    using assms(3-5) by (simp add: OrderCreated_Handle_def)
  have p0: "y_Status p0 = ''pending''" "y_OrderID p0 = oc_OrderID ev" using NewPendingPayment_Inr [OF assms(6)] by simp_all
  from WithTx_cases [OF assms(7)] obtain s4 where
    stored: "store_pending ?e (oc_OrderID ev) p0 (s1\<lparr>calls := calls s1 + 1\<rparr>) = (Inr (Some p), s4)" "db s2 = db s4"
    by auto
  have "db s1 = db s0"
    using assms(6) by (auto simp: NewPendingPayment_def bindE_def bindS_def time_Now_def uuid_New_def ret_def)
  with store_pending_row [OF stored(1)] stored(2) p0 obtain q where
    q: "q \<in> set (payments (db s2))" "y_ID q = y_ID p" "y_OrderID q = oc_OrderID ev" "y_Status q = ''pending''"
      "y_Authority q = None" "payments (db s2) \<noteq> payments (db s0)"
    by force
  have pending: "y_Status p = ''pending''" by (rule store_pending_Inr [OF stored(1) p0(1)])
  have init: "initiate_payment c p s2 = (r, s')"
    using assms(6,7,9) by (simp add: handle HandleOrderCreated_def bindE_def bindS_def)
  have request: "gw_RequestPayment (ys_gateway c) \<lparr>ri_Amount = y_Amount p,
      ri_Description = description_prefix @ uuid_String (ys_ul c) (y_OrderID p),
      ri_CallbackURL = ys_callbackURL c, ri_Email = '''', ri_Mobile = ''''\<rparr> s2 = (Inr out, s3)"
    using assms(8) by (simp add: gw zarinpal_gateway_def)
  from initiate_accepted [OF request init pending] obtain err where err: "r = Inl err" "db s' = db s3" by blast
  have same: "db s3 = db s2" using zarinpal.request_frame [OF request [unfolded gw]] by simp
  have row: "q \<in> set (payments (db s'))" using err(2) same q(1) by simp
  have reach: "payment_reach c s'"
    using payment_reach.step [OF assms(1), of "OrderCreatedMessage body"] assms(9) by simp
  have seen: "order_seen ?e s'"
    using zarinpal.HandleOrderCreated_cases [OF gw assms(9) [unfolded handle]] err same q(6) by auto
  have later: "tbl_get y_ID (payments (db t)) (y_ID p) = Some q \<and>
      (\<exists>x. fst (repo_GetByAuthority (ro_Authority out) t) = Inl x) \<and>
      (\<exists>x. fst (svc_VerifyPayment c (ro_Authority out) st t) = Inl x) \<and>
      db (snd (svc_VerifyPayment c (ro_Authority out) st t)) = db t \<and>
      (healthy t \<longrightarrow> (\<exists>t'. OrderCreated_Handle c body t = (Inr (), t') \<and> db t' = db t \<and> bus t' = bus t))"
    if path: "payment_path c s' t" for t
  proof -
    note there = payment_path_reach [OF path reach]
    have "distinct (map y_ID (payments (db t)))"
      using payment_reach_ok [OF there gw] by (simp add: payment_db_ok_def tbl_wf_def)
    from tbl_get_in_set [OF this row_stays [OF path reach gw row]] q(2)
    have "tbl_get y_ID (payments (db t)) (y_ID p) = Some q" by simp
    moreover note never = payment_reach_never_paid [OF there gw, THEN conjunct1]
    moreover note GetByAuthority_never [OF never prod.collapse [symmetric], of "ro_Authority out"]
      VerifyPayment_never [OF never prod.collapse [symmetric], of c "ro_Authority out" st]
      redelivery_acknowledged [OF order_seen_path [OF path gw seen]]
    ultimately show ?thesis by (simp add: handle)
  qed
  show ?thesis using err(1) q later by blast
qed

section \<open>A payment the gateway refuses\<close>

definition payment_publisher_ready :: "'s payment_svc \<Rightarrow> bool" where
  "payment_publisher_ready c \<longleftrightarrow> (\<exists>p. ys_publisher c = Some p \<and> channel_ok p) \<and>
     (\<forall>ev. \<exists>b. Marshal (ys_json c) ev = Inr b)"

lemma PublishPaymentFailed_healthy:
  assumes "healthy s" and "payment_publisher_ready c"
  shows "PublishPaymentFailed c p i reason s = (Inr (), s\<lparr>gens := gens s + 1, ticks := ticks s + 1,
    calls := calls s + 2, bus := bus s @ [(''payment.failed'', EvPaymentFailed \<lparr>pf_EventID = gen s (gens s),
      pf_OrderID = i, pf_PaymentID = p, pf_Reason = reason, pf_FailedAt = clock s (ticks s)\<rparr>)]\<rparr>)"
proof -
  let ?ev = "EvPaymentFailed \<lparr>pf_EventID = gen s (gens s), pf_OrderID = i, pf_PaymentID = p,
      pf_Reason = reason, pf_FailedAt = clock s (ticks s)\<rparr>"
  from assms(2) obtain q b where "ys_publisher c = Some q" "channel_ok q" "Marshal (ys_json c) ?ev = Inr b"
    unfolding payment_publisher_ready_def by blast
  with assms(1) show ?thesis
    by (simp add: PublishPaymentFailed_def Publish_def RoutingKeyPaymentFailed_def bindE_def bindS_def wrapE_def
        uuid_New_def time_Now_def send_def extern_healthy ret_def)
qed

text \<open>
  When the gateway gives no authority for a stored payment and nothing else fails, the payment
  is failed in the table with the reason, one \<open>payment.failed\<close> for its order is published, and the
  message is acknowledged.
\<close>

theorem refused_payment_fails:
  assumes "gw_RequestPayment (ys_gateway c) \<lparr>ri_Amount = y_Amount p,
      ri_Description = description_prefix @ uuid_String (ys_ul c) (y_OrderID p),
      ri_CallbackURL = ys_callbackURL c, ri_Email = '''', ri_Mobile = ''''\<rparr> s = (Inl err, s1)"
    and "healthy s1" and "payment_publisher_ready c" and "payment_db_ok (db s1)"
    and "tbl_get y_ID (payments (db s1)) (y_ID p) = Some p" and "y_Status p = ''pending''"
    and "y_GatewayRefID p = None" and "Payment_Validate p = Inr p"
  defines "reason \<equiv> ''failed to get authority from zarinpal: '' @ Error_string (ErrText (ys_status c)) err"
  assumes "CHR 0x00 \<notin> set reason"
  shows "\<exists>s' q ev. initiate_payment c p s = (Inr (), s') \<and>
    tbl_get y_ID (payments (db s')) (y_ID p) = Some q \<and> y_Status q = ''failed'' \<and>
    y_FailureReason q = Some reason \<and> y_OrderID q = y_OrderID p \<and> y_Amount q = y_Amount p \<and>
    bus s' = bus s1 @ [(''payment.failed'', EvPaymentFailed ev)] \<and> pf_OrderID ev = y_OrderID p \<and>
    pf_PaymentID ev = y_ID p \<and> pf_Reason ev = reason"
proof -
  let ?now = "clock s1 (ticks s1)" and ?now2 = "clock s1 (ticks s1 + 1)"
  let ?p = "p\<lparr>y_Status := ''failed'', y_FailureReason := Some reason, y_UpdatedAt := ?now\<rparr>"
  let ?q = "p\<lparr>y_Status := ''failed'', y_GatewayName := y_GatewayName p, y_GatewayRefID := None,
     y_FailureReason := Some reason, y_Metadata := y_Metadata p, y_UpdatedAt := ?now2\<rparr>"
  let ?t = "tbl_set y_ID (payments (db s1)) (y_ID p) ?q"
  have wf: "tbl_wf payments_schema (payments (db s1))" using assms(4) by (simp add: payment_db_ok_def)
  have "payment_row_err p = None" using tbl_wf_row [OF wf assms(5)] by simp
  then have cur: "y_Currency p \<noteq> []" and row: "payment_row_err ?q = None"
    using assms(10) by (auto simp: payment_row_err_def pg_text_null_def pg_text_def char_count_def)
  have upd: "sql_update payments_schema (pending_where (y_ID p)) (pending_set ?p ?now2) (payments (db s1)) = (Inr 1, ?t)"
    by (rule fail_pending_row [OF wf assms(5,6) _ _ _ row]) (simp_all add: assms(7))
  have valid: "Payment_Validate ?p = Inr ?p"
    using assms(8) cur by (auto simp: Payment_Validate_def split: if_splits)
  have mark: "mark_failed reason p s1 = (Inr ?p, s1\<lparr>ticks := ticks s1 + 1\<rparr>)"
    using assms(6) by (simp add: mark_failed_def bindE_def bindS_def time_Now_def ret_def MarkFailed_def
        pay_CanTransitionTo_def payment_status_defs)
  let ?s2 = "s1\<lparr>ticks := ticks s1 + 2, calls := calls s1 + 1, db := (db s1)\<lparr>payments := ?t\<rparr>\<rparr>"
  have "UpdateFromPending (Some ?p) (s1\<lparr>ticks := ticks s1 + 1\<rparr>) = (Inr (), ?s2)"
    unfolding UpdateFromPending_def using valid upd assms(2)
    by (simp add: bindE_def bindS_def wrapE_def time_Now_def query_def extern_healthy on_db_def on_payments_def ret_def)
  moreover have "initiate_payment c p s = bindE (mark_failed reason p) (\<lambda>p.
         bindS (UpdateFromPending (Some p)) (\<lambda>_.
         bindS (PublishPaymentFailed c (y_ID p) (y_OrderID p) reason) (\<lambda>_. ret ()))) s1"
    unfolding initiate_payment_def reason_def using assms(1) by (simp add: bindS_def Let_def)
  moreover note mark PublishPaymentFailed_healthy [of ?s2 c "y_ID p" "y_OrderID p" reason]
  ultimately have "initiate_payment c p s = (Inr (), ?s2\<lparr>gens := gens s1 + 1, ticks := ticks s1 + 3,
      calls := calls s1 + 3, bus := bus s1 @ [(''payment.failed'', EvPaymentFailed \<lparr>pf_EventID = gen s1 (gens s1),
      pf_OrderID = y_OrderID p, pf_PaymentID = y_ID p, pf_Reason = reason, pf_FailedAt = clock s1 (ticks s1 + 2)\<rparr>)]\<rparr>)"
    using assms(2,3) by (simp add: bindE_def bindS_def ret_def numeral_3_eq_3)
  then show ?thesis using assms(5) by (simp add: tbl_get_set)
qed

section \<open>The ZarinPal client\<close>

text \<open>
  An authority is handed on only when the gateway answered with a status of 2xx and the code 100,
  and the user is sent to the gateway's page for that authority.
\<close>

theorem zarinpal_request_accepted:
  assumes "RequestPayment z input s = (Inr out, s')"
  shows "\<exists>url body w resp rest. z_Do z url body (remote s) = (Inr resp, w) \<and> remote s' = w \<and>
    url = z_baseURL z @ ''/request.json'' \<and> 200 \<le> StatusCode resp \<and> StatusCode resp < 300 \<and>
    (\<exists>zResp. z_DecodeReq z (RespBody resp) = (Inr zResp, rest) \<and> zr_Code zResp = 100 \<and>
       ro_Authority out = zr_Authority zResp \<and>
       ro_RedirectURL out = z_startPayURL z @ ''/'' @ zr_Authority zResp)"
proof -
  let ?url = "z_baseURL z @ ''/request.json''"
  from assms obtain body resp where
    call: "extern (on_remote (z_Do z ?url body)) s = (Inr resp, s')"
    and rest: "http_ok resp" "\<exists>zResp. fst (z_DecodeReq z (RespBody resp)) = Inr zResp \<and> zr_Code zResp = 100 \<and>
       ro_Authority out = zr_Authority zResp \<and> ro_RedirectURL out = z_startPayURL z @ ''/'' @ zr_Authority zResp"
    by (auto simp: RequestPayment_def Let_def bindE_Inr wrapE_Inr of_sum_Inr ret_eq fail_eq split: if_splits)
  from call have "z_Do z ?url body (remote s) = (Inr resp, remote s')"
    by (auto simp: extern_def on_remote_def Let_def split: option.splits fault.splits prod.splits sum.splits)
  moreover obtain zResp where "z_DecodeReq z (RespBody resp) = (Inr zResp, snd (z_DecodeReq z (RespBody resp)))"
    "zr_Code zResp = 100" "ro_Authority out = zr_Authority zResp"
    "ro_RedirectURL out = z_startPayURL z @ ''/'' @ zr_Authority zResp"
    using rest(2) by (cases "z_DecodeReq z (RespBody resp)") auto
  ultimately show ?thesis using rest(1) unfolding http_ok_def by blast
qed

text \<open>
  A verification never succeeds. The body is decoded twice, and a body that holds one JSON value
  has nothing left for the second decoder.
\<close>

theorem zarinpal_verify_never_succeeds:
  assumes "\<forall>body v rest. z_DecodeVerify z body = (Inr v, rest) \<longrightarrow> (\<exists>e. fst (z_DecodeVerify z rest) = Inl e)"
    and "VerifyPayment_http z input s = (r, s')"
  shows "\<exists>e. r = Inl e"
proof (rule ccontr)
  assume "\<not> (\<exists>e. r = Inl e)"
  then obtain out where r: "r = Inr out" by (cases r) auto
  from assms(2) [unfolded r] obtain resp s1 where
    "(case z_DecodeVerify z (RespBody resp) of
        (Inl err, _) \<Rightarrow> fail (Wrap KindInternal (Some err) ''failed to decode zarinpal verify response'')
      | (Inr _, unread) \<Rightarrow>
        if \<not> http_ok resp then fail (http_status_error resp)
        else
        (case z_DecodeVerify z unread of
          (Inl err, _) \<Rightarrow> fail (Wrap KindInternal (Some err) ''failed to decode zarinpal verify response'')
        | (Inr zResp, _) \<Rightarrow>
          if zw_Code zResp \<noteq> 100 \<and> zw_Code zResp \<noteq> 101
          then fail (New KindInvalidInput (''payment verification failed with code '' @
            strconv_Itoa (zw_Code zResp) @ '': '' @ zw_Message zResp))
          else ret \<lparr>vo_RefID = strconv_Itoa (sint (zw_RefID zResp)), vo_Success = True,
            vo_CardPan = zw_CardPan zResp\<rparr>)) s1 = (Inr out, s')"
    unfolding VerifyPayment_http_def Let_def bindE_Inr by blast
  moreover obtain x unread where first: "z_DecodeVerify z (RespBody resp) = (x, unread)" by (cases "z_DecodeVerify z (RespBody resp)")
  moreover obtain y u where "z_DecodeVerify z unread = (y, u)" by (cases "z_DecodeVerify z unread")
  moreover from this first assms(1) have "(\<exists>e. x = Inl e) \<or> (\<exists>e. y = Inl e)" by (cases x) fastforce+
  ultimately show False by (auto simp: fail_eq split: if_splits sum.splits)
qed

text \<open>
  The record of a payment is shown to administrators only, and it is the newest of its order.
\<close>

theorem payment_lookup_admin_newest:
  assumes "GetPaymentByOrderID c ctx req s = (Inr pb, s')"
  shows "(\<exists>cl. ClaimsFromContext ctx = Some cl \<and> Role cl = ''admin'') \<and>
    (\<exists>oid p. uuid_Parse (ys_ul c) (the req) = Some oid \<and> p \<in> set (payments (db s)) \<and> y_OrderID p = oid \<and>
       pby_Id pb = uuid_String (ys_ul c) (y_ID p) \<and> pby_Status pb = y_Status p \<and> pby_Amount pb = y_Amount p \<and>
       (\<forall>p' \<in> set (payments (db s)). y_OrderID p' = oid \<longrightarrow> y_CreatedAt p' \<le> y_CreatedAt p))"
proof -
  from assms obtain i oid p s1 where req: "req = Some i" "uuid_Parse (ys_ul c) i = Some oid"
    and admin: "\<exists>cl. ClaimsFromContext ctx = Some cl \<and> Role cl = ''admin''"
    and get: "repo_GetByOrderID oid s = (Inr p, s1)" and pb: "pb = toProtoPayment (ys_ul c) p"
    by (auto simp: GetPaymentByOrderID_def pay_requireAdmin_def bindE_Inr ret_eq fail_eq
        split: option.splits if_splits)
  let ?rows = "[r \<leftarrow> payments (db s). y_OrderID r = oid]"
  let ?l = "sort_key (\<lambda>r. - y_CreatedAt r) ?rows"
  from get obtain x s2 where "query (\<lambda>d. (newest_of_order oid (payments d), d)) s = (x, s2)"
    "(case x of Inl err \<Rightarrow> if errors_Is err ErrNoRows
                   then fail (New KindNotFound ''payment not found for this order'')
                   else fail (Wrap KindInternal (Some err) ''failed to get payment by order id'')
      | Inr p \<Rightarrow> ret p) s2 = (Inr p, s1)"
    by (auto simp: repo_GetByOrderID_def bindS_iff)
  then have "query (\<lambda>d. (newest_of_order oid (payments d), d)) s = (Inr p, s2)"
    by (cases x) (auto simp: fail_eq ret_eq split: if_splits)
  from query_Inr [OF this] obtain q l where l: "?l = q # l" "p = q\<lparr>y_Authority := None, y_RedirectURL := None\<rparr>"
    by (auto simp: newest_of_order_def split: list.splits)
  have "set ?l = set ?rows" by simp
  then have q: "q \<in> set (payments (db s))" "y_OrderID q = oid" using l(1) by auto
  have "sorted (map (\<lambda>r. - y_CreatedAt r) ?l)" by simp
  then have newest: "- y_CreatedAt q \<le> - y_CreatedAt p'" if "p' \<in> set ?rows" for p'
    using that \<open>set ?l = set ?rows\<close> unfolding l(1) by auto
  have "y_CreatedAt p' \<le> y_CreatedAt q" if "p' \<in> set (payments (db s))" "y_OrderID p' = oid" for p'
    using newest [of p'] that by simp
  with q l(2) admin req pb show ?thesis
    by (intro conjI exI [of _ oid] exI [of _ q]) (auto simp: toProtoPayment_def)
qed


section \<open>A concrete run\<close>

text \<open>A gateway that answers every request with the given code, and a service in front of it.\<close>

definition demo_zarinpal :: "int \<Rightarrow> unit zarinpalClient" where
  "demo_zarinpal code = \<lparr>z_merchantID = ''m'', z_baseURL = ''b'', z_startPayURL = ''p'',
     z_MarshalReq = (\<lambda>_. Inr ''q''), z_MarshalVerify = (\<lambda>_. Inr ''v''), z_NewRequest = (\<lambda>_ _. Inr ()),
     z_Do = (\<lambda>_ _ w. (Inr \<lparr>StatusCode = 200, RespBody = ''r''\<rparr>, w)),
     z_DecodeReq = (\<lambda>b. if b = ''r'' then (Inr \<lparr>zr_Code = code, zr_Message = ''m'', zr_Authority = ''A''\<rparr>, '''')
       else (Inl (StdError ''EOF'' None), '''')),
     z_DecodeVerify = (\<lambda>b. if b = ''r''
       then (Inr \<lparr>zw_Code = code, zw_Message = ''m'', zw_RefID = 5, zw_CardPan = ''c''\<rparr>, '''')
       else (Inl (StdError ''EOF'' None), ''''))\<rparr>"

definition demo_created :: OrderCreated where
  "demo_created = \<lparr>oc_EventID = 8, oc_OrderID = 2, oc_UserID = 3, oc_TotalAmount = 10, oc_Items = [], oc_CreatedAt = 0\<rparr>"

definition demo_pay :: "int \<Rightarrow> (unit, unit) pay_env payment_svc" where
  "demo_pay code = \<lparr>ys_ul = plain_uuid, ys_status = plain_status_lib,
     ys_json = \<lparr>Marshal = (\<lambda>_. Inr ''b''), UnmarshalStockRelease = (\<lambda>_. Inl (StdError ''bad'' None)),
        UnmarshalStockConfirm = (\<lambda>_. Inl (StdError ''bad'' None)), UnmarshalOrderCreated = (\<lambda>_. Inr demo_created),
        UnmarshalPaymentCompleted = (\<lambda>_. Inl (StdError ''bad'' None)),
        UnmarshalPaymentFailed = (\<lambda>_. Inl (StdError ''bad'' None))\<rparr>,
     ys_publisher = Some \<lparr>channel_ok = True, exchange = ''payment_events''\<rparr>,
     ys_gateway = zarinpal_gateway (demo_zarinpal code), ys_callbackURL = ''u''\<rparr>"

definition demo_pay_env :: "Payment list \<Rightarrow> (unit, unit) pay_env" where
  "demo_pay_env ps = \<lparr>faults = \<lambda>_. None, calls = 0, clock = int, ticks = 0, gen = \<lambda>n. of_nat n + 1, gens = 0,
     db = \<lparr>payments = ps, payment_events = []\<rparr>, bus = [], remote = (), \<dots> = ()\<rparr>"

definition demo_paying :: "(unit, unit) pay_env" where
  "demo_paying = payment_step (demo_pay 100) (OrderCreatedMessage ''o'') (demo_pay_env [])"

lemma demo_pay_over: "over_zarinpal (demo_zarinpal 100) (demo_pay 100) = demo_pay 100"
  by (simp add: over_zarinpal_def demo_pay_def)

lemma demo_paying_reach: "payment_reach (demo_pay 100) demo_paying"
  unfolding demo_paying_def by (rule payment_reach.step, rule payment_reach.start) (simp_all add: demo_pay_env_def)

lemma demo_paying_rows: "map y_Status (payments (db demo_paying)) = [''pending'']" "order_seen 8 demo_paying"
  "payment_ids demo_paying = [1]"
  by code_simp+

theorem no_payment_ever_completes_witness:
  "map y_Status (payments (db demo_paying)) = [''pending''] \<and>
    (\<exists>e. fst (svc_VerifyPayment (demo_pay 100) ''A'' ''OK'' demo_paying) = Inl e)"
proof -
  have "ys_gateway (demo_pay 100) = zarinpal_gateway (demo_zarinpal 100)" by (simp add: demo_pay_def)
  from no_payment_ever_completes [OF demo_paying_reach this prod.collapse [symmetric]] demo_paying_rows(1)
  show ?thesis by blast
qed

theorem order_message_creates_one_payment_witness:
  "\<exists>n. deliveries (HandleOrderCreated (over_zarinpal (demo_zarinpal 100) (demo_pay 100)) 8 2 3 10)
      (payment_between (over_zarinpal (demo_zarinpal 100) (demo_pay 100))) payment_ids n (demo_pay_env []) demo_paying \<and> n = 1"
proof -
  let ?h = "HandleOrderCreated (over_zarinpal (demo_zarinpal 100) (demo_pay 100)) 8 2 3 10"
  let ?between = "payment_between (over_zarinpal (demo_zarinpal 100) (demo_pay 100))"
  have run: "?h (demo_pay_env []) = (fst (?h (demo_pay_env [])), demo_paying)"
    by (simp add: demo_paying_def OrderCreated_Handle_def demo_pay_over)
      (simp add: demo_pay_def demo_created_def)
  from deliveries.handled [where handle = ?h and other = ?between and view = payment_ids, OF run deliveries.none]
  have "deliveries ?h ?between payment_ids 1 (demo_pay_env []) demo_paying"
    by (simp add: demo_paying_rows) (simp add: demo_pay_env_def payment_ids_def)
  with order_message_creates_one_payment show ?thesis by blast
qed

lemma demo_request:
  "RequestPayment (demo_zarinpal 100) i (demo_pay_env ps) =
     (Inr \<lparr>ro_Authority = ''A'', ro_RedirectURL = ''p/A''\<rparr>, (demo_pay_env ps)\<lparr>calls := 1\<rparr>)"
  "RequestPayment (demo_zarinpal (-9)) i (demo_pay_env ps) =
     (Inl (New KindInternal (''zarinpal error code '' @ strconv_Itoa (-9) @ '': m'')), (demo_pay_env ps)\<lparr>calls := 1\<rparr>)"
  by (simp_all add: RequestPayment_def demo_zarinpal_def demo_pay_env_def of_sum_def bindE_def bindS_def wrapE_def
      ret_def fail_def extern_def on_remote_def http_ok_def Let_def)

definition demo_later :: "(unit, unit) pay_env" where
  "demo_later = payment_step (demo_pay 100) (VerifyCallback ''A'' ''OK'') demo_paying"

lemma demo_accepts:
  fixes s :: "(unit, unit) pay_env"
  assumes "faults s (calls s) = None"
  shows "RequestPayment (demo_zarinpal 100) i s = (Inr \<lparr>ro_Authority = ''A'', ro_RedirectURL = ''p/A''\<rparr>, s\<lparr>calls := calls s + 1\<rparr>)"
  using assms
  by (simp add: RequestPayment_def demo_zarinpal_def of_sum_def bindE_def bindS_def wrapE_def
      ret_def fail_def extern_def on_remote_def http_ok_def Let_def)

theorem accepted_payment_stays_pending_witness:
  "map y_Status (payments (db demo_later)) = [''pending''] \<and> map y_Authority (payments (db demo_later)) = [None] \<and>
    (\<exists>x. fst (svc_VerifyPayment (demo_pay 100) ''A'' ''OK'' demo_later) = Inl x)"
proof -
  let ?c = "demo_pay 100" and ?z = "demo_zarinpal 100" and ?s0 = "demo_pay_env []"
  let ?s1 = "?s0\<lparr>ticks := 1, gens := 1\<rparr>"
  let ?r2 = "WithTx True (Some (store_pending 8 2 fresh_payment)) ?s1"
  have new: "NewPendingPayment 2 3 10 ?s0 = (Inr fresh_payment, ?s1)"
    by (simp add: NewPendingPayment_def bindE_def bindS_def time_Now_def uuid_New_def ret_def demo_pay_env_def
        fresh_payment_def CurrencyIRR_def PaymentStatusPending_def)
  have "(case fst ?r2 of Inr (Some p) \<Rightarrow> True | _ \<Rightarrow> False)" by code_simp
  then obtain p where p: "?r2 = (Inr (Some p), snd ?r2)"
    by (cases ?r2) (auto split: sum.splits option.splits)
  have "keeps healthy (WithTx True (Some (store_pending 8 2 fresh_payment)) :: ((unit, unit) pay_env, Payment option) comp)"
    unfolding store_pending_def pay_MarkProcessed_def repo_payment_Create_def by (intro keeps_rules)
  from keepsI_snd [OF this, of ?s1] have "healthy (snd ?r2)" by (simp add: healthy_def demo_pay_env_def)
  note request = demo_accepts [OF healthyD [OF this]]
  have start: "payment_reach ?c ?s0" by (rule payment_reach.start) (simp_all add: demo_pay_env_def)
  have gw: "ys_gateway ?c = zarinpal_gateway ?z" by (simp add: demo_pay_def)
  have ev: "UnmarshalOrderCreated (ys_json ?c) ''o'' = Inr demo_created"
    "oc_EventID demo_created \<noteq> uuid_Nil" "oc_OrderID demo_created \<noteq> uuid_Nil"
    by (simp_all add: demo_pay_def demo_created_def)
  have run: "OrderCreated_Handle ?c ''o'' ?s0 = (fst (OrderCreated_Handle ?c ''o'' ?s0), demo_paying)"
    by (simp add: demo_paying_def)
  have ids: "oc_EventID demo_created = 8" "oc_OrderID demo_created = 2" "oc_UserID demo_created = 3"
    "oc_TotalAmount demo_created = 10" by (simp_all add: demo_created_def)
  have path: "payment_path ?c demo_paying demo_later"
    unfolding demo_later_def by (rule payment_path.step, rule payment_path.here)
  have "length (payments (db demo_later)) = 1" by code_simp
  then obtain row where row: "payments (db demo_later) = [row]" by (auto simp: length_Suc_conv)
  from accepted_payment_stays_pending [where st = "''OK''", OF start gw ev _ _ request run, unfolded ids, OF new p]
  obtain q where "y_Status q = ''pending''" "y_Authority q = None"
    "tbl_get y_ID (payments (db demo_later)) (y_ID p) = Some q"
    "\<exists>x. fst (svc_VerifyPayment ?c ''A'' ''OK'' demo_later) = Inl x"
    using path by (auto; metis)
  with row show ?thesis by (auto split: if_splits)
qed

theorem refused_payment_fails_witness:
  "\<exists>s' q. initiate_payment (demo_pay (-9)) fresh_payment (demo_pay_env [fresh_payment]) = (Inr (), s') \<and>
    tbl_get y_ID (payments (db s')) 1 = Some q \<and> y_Status q = ''failed'' \<and> map fst (bus s') = [''payment.failed'']"
proof -
  let ?s = "demo_pay_env [fresh_payment]"
  let ?err = "New KindInternal (''zarinpal error code '' @ strconv_Itoa (-9) @ '': m'')"
  have gw: "gw_RequestPayment (ys_gateway (demo_pay (-9))) i ?s = (Inl ?err, ?s\<lparr>calls := 1\<rparr>)" for i
    by (simp add: demo_pay_def zarinpal_gateway_def demo_request)
  have ok: "payment_db_ok (db (?s\<lparr>calls := 1\<rparr>))"
    "tbl_get y_ID (payments (db (?s\<lparr>calls := 1\<rparr>))) (y_ID fresh_payment) = Some fresh_payment"
  proof -
    have "payment_row_err fresh_payment = None" by code_simp
    then show "payment_db_ok (db (?s\<lparr>calls := 1\<rparr>))"
      by (simp add: demo_pay_env_def payment_db_ok_def tbl_wf_def active_orders_def gateway_refs_def)
  qed (simp add: demo_pay_env_def)
  have flat: "healthy (?s\<lparr>calls := 1\<rparr>)" "payment_publisher_ready (demo_pay (-9))"
    "y_Status fresh_payment = ''pending''" "y_GatewayRefID fresh_payment = None" "y_ID fresh_payment = 1"
    "bus (?s\<lparr>calls := 1\<rparr>) = []"
    by (simp_all add: healthy_def demo_pay_env_def payment_publisher_ready_def demo_pay_def fresh_payment_def)
  have valid: "Payment_Validate fresh_payment = Inr fresh_payment" by code_simp
  have nul: "CHR 0x00 \<notin> set (''failed to get authority from zarinpal: '' @
      Error_string (ErrText (ys_status (demo_pay (-9)))) ?err)" by code_simp
  from refused_payment_fails [OF gw flat(1,2) ok flat(3,4) valid nul] flat(5,6) show ?thesis by auto
qed

theorem zarinpal_request_accepted_witness:
  "\<exists>i out s'. RequestPayment (demo_zarinpal 100) i (demo_pay_env []) = (Inr out, s') \<and> ro_RedirectURL out = ''p/A''"
proof -
  note run = demo_request(1) [of "\<lparr>ri_Amount = 10, ri_Description = '''', ri_CallbackURL = ''u'', ri_Email = '''', ri_Mobile = ''''\<rparr>" "[]"]
  from zarinpal_request_accepted [OF run] have "ro_RedirectURL \<lparr>ro_Authority = ''A'', ro_RedirectURL = ''p/A''\<rparr> = ''p/A''"
    by simp
  with run show ?thesis by blast
qed

theorem zarinpal_verify_never_succeeds_witness:
  "\<exists>e. fst (VerifyPayment_http (demo_zarinpal 100) \<lparr>vi_Authority = ''A'', vi_Amount = 10\<rparr> (demo_pay_env [])) = Inl e"
proof -
  have "\<forall>body v rest. z_DecodeVerify (demo_zarinpal 100) body = (Inr v, rest) \<longrightarrow>
      (\<exists>e. fst (z_DecodeVerify (demo_zarinpal 100) rest) = Inl e)"
    by (auto simp: demo_zarinpal_def)
  from zarinpal_verify_never_succeeds [OF this prod.collapse [symmetric]] show ?thesis .
qed

theorem payment_lookup_admin_newest_witness:
  "\<exists>pb s'. GetPaymentByOrderID (demo_pay 100) \<lparr>ctx_claims = Some \<lparr>UserID = ''1'', Role = ''admin'', IssuedAt = 0,
      ExpiresAt = 60\<rparr>, ctx_metadata = None, ctx_peer = None\<rparr> (Some ''2'') (demo_pay_env [fresh_payment]) = (Inr pb, s') \<and>
    pby_Amount pb = 10"
proof -
  let ?ctx = "\<lparr>ctx_claims = Some \<lparr>UserID = ''1'', Role = ''admin'', IssuedAt = 0, ExpiresAt = 60\<rparr>,
      ctx_metadata = None, ctx_peer = None\<rparr>"
  let ?run = "GetPaymentByOrderID (demo_pay 100) ?ctx (Some ''2'') (demo_pay_env [fresh_payment])"
  have "(case fst ?run of Inr pb \<Rightarrow> True | Inl _ \<Rightarrow> False)" by code_simp
  then obtain pb s' where run: "?run = (Inr pb, s')" by (cases ?run) (auto split: sum.splits)
  from payment_lookup_admin_newest [OF run] have "pby_Amount pb = 10"
    by (auto simp: demo_pay_env_def fresh_payment_def)
  with run show ?thesis by blast
qed

end
