(* ===== verification/Middleware.thy ===== *)
theory Middleware
  imports Rpc Auth
begin

text \<open>
  What stands between the network and the handlers of a service: \<open>pkg/ratelimit\<close>,
  \<open>pkg/grpcmiddleware\<close> (recovery, logging, rate limit, authentication), and the chain
  \<open>internal/server/grpc.go\<close> of each service builds from them with the tables of its
  \<open>internal/handler/routes.go\<close>.

  A handler here is a function of the request's context that can also panic. \<open>redis_rate\<close>, the library
  behind the limiter, is an argument. The parts of Go's library the key of a limit is made with
  (\<open>strings.Split\<close>, \<open>strings.TrimSpace\<close>, \<open>net.SplitHostPort\<close>) are written out.
\<close>

section \<open>Handlers that can panic\<close>

datatype 'a outcome = Done "goerr + 'a" | Panic string

type_synonym ('s, 'a) proc = "'s \<Rightarrow> 'a outcome \<times> 's"

type_synonym ('s, 'a) handler = "reqctx \<Rightarrow> ('s, 'a) proc"

definition returns :: "('s, 'a) comp \<Rightarrow> ('s, 'a) proc" where
  "returns m s = (case m s of (r, s') \<Rightarrow> (Done r, s'))"

definition andThen :: "('s, 'a) comp \<Rightarrow> (goerr + 'a \<Rightarrow> ('s, 'b) proc) \<Rightarrow> ('s, 'b) proc" where
  "andThen m k s = (case m s of (r, s') \<Rightarrow> k r s')"

section \<open>Strings and addresses\<close>

text \<open>\<open>strings.Split(s, ",")[0]\<close>, \<open>strings.TrimPrefix\<close>.\<close>

definition first_item :: "string \<Rightarrow> string" where
  "first_item s = takeWhile (\<lambda>c. c \<noteq> CHR '','') s"

definition TrimPrefix :: "string \<Rightarrow> string \<Rightarrow> string" where
  "TrimPrefix s p = (if take (length p) s = p then drop (length p) s else s)"

text \<open>The UTF-8 encodings of the characters \<open>unicode.IsSpace\<close> answers to.\<close>

definition space_encodings :: "string list" where
  "space_encodings =
     map (\<lambda>n. [char_of n]) [9, 10, 11, 12, 13, 32 :: nat] @
     map (map char_of) [[0xC2, 0x85], [0xC2, 0xA0], [0xE1, 0x9A, 0x80 :: nat]] @
     map (\<lambda>n. map char_of [0xE2, 0x80, n]) ([0x80 ..< 0x8B] @ [0xA8, 0xA9, 0xAF]) @
     map (map char_of) [[0xE2, 0x81, 0x9F], [0xE3, 0x80, 0x80 :: nat]]"

function trim_with :: "string list \<Rightarrow> string \<Rightarrow> string" where
  "trim_with ps s =
     (case find (\<lambda>p. p \<noteq> [] \<and> take (length p) s = p) ps of
        None \<Rightarrow> s | Some p \<Rightarrow> trim_with ps (drop (length p) s))"
  by pat_completeness auto

termination
proof (relation "measure (\<lambda>(ps, s). length s)", goal_cases)
  case (2 ps s p)
  then have "p \<noteq> []" and "take (length p) s = p" by (auto simp: find_Some_iff)
  then have "s \<noteq> []" by auto
  with \<open>p \<noteq> []\<close> show ?case by simp
qed simp

declare trim_with.simps [simp del]

definition TrimSpace :: "string \<Rightarrow> string" where
  "TrimSpace s = rev (trim_with (map rev space_encodings) (rev (trim_with space_encodings s)))"

text \<open>The host of \<open>net.SplitHostPort\<close>, \<open>None\<close> for its errors.\<close>

definition SplitHostPort :: "string \<Rightarrow> string option" where
  "SplitHostPort s =
     (if CHR '':'' \<notin> set s then None
      else
      let i = length s - length (takeWhile (\<lambda>c. c \<noteq> CHR '':'') (rev s)) - 1 in
      if hd s = CHR ''[''
      then let e = length (takeWhile (\<lambda>c. c \<noteq> CHR '']'') s) in
           if e = length s \<or> e + 1 \<noteq> i then None
           else if CHR ''['' \<in> set (drop 1 s) \<or> CHR '']'' \<in> set (drop (e + 1) s) then None
           else Some (take (e - 1) (drop 1 s))
      else if CHR '':'' \<in> set (take i s) \<or> CHR ''['' \<in> set s \<or> CHR '']'' \<in> set s then None
      else Some (take i s))"

section \<open>The limiter\<close>

text \<open>\<open>pkg/ratelimit\<close>: a limit names the constructor of \<open>redis_rate\<close> it is made with.\<close>

datatype Limit = PerSecond int | PerMinute int | PerHour int

record rate_result =
  rr_Allowed :: int
  rr_Remaining :: int
  rr_RetryAfter :: time

type_synonym 's rate_lib = "string \<Rightarrow> Limit \<Rightarrow> ('s, rate_result) comp"

record Result =
  Allowed :: bool
  Remaining :: int
  RetryAfter :: time

definition Check :: "'s rate_lib \<Rightarrow> string \<Rightarrow> Limit \<Rightarrow> ('s, Result) comp" where
  "Check rate key lim =
     bindE (rate key lim) (\<lambda>res.
       ret \<lparr>Allowed = rr_Allowed res > 0, Remaining = rr_Remaining res, RetryAfter = rr_RetryAfter res\<rparr>)"

section \<open>The interceptors\<close>

text \<open>\<open>metadata.MD.Get\<close>; the keys of incoming metadata are in lower case.\<close>

definition md_Get :: "(string \<times> string list) list \<Rightarrow> string \<Rightarrow> string list" where
  "md_Get md key = (case map_of md key of None \<Rightarrow> [] | Some vs \<Rightarrow> vs)"

definition AuthInterceptor ::
  "jwt_lib \<Rightarrow> tokenManager \<Rightarrow> (string \<times> bool) list \<Rightarrow> string \<Rightarrow>
   (('d, 'm, 'z) env_scheme, 'a) handler \<Rightarrow> (('d, 'm, 'z) env_scheme, 'a) handler" where
  "AuthInterceptor lib tokens publicMethods fullMethod handler ctx =
     (if map_of publicMethods fullMethod = Some True then handler ctx
      else case ctx_metadata ctx of
          None \<Rightarrow> returns (fail (StatusError Unauthenticated ''missing request metadata'' []))
        | Some md \<Rightarrow>
            (case md_Get md ''authorization'' of
               [] \<Rightarrow> returns (fail (StatusError Unauthenticated ''missing authorization token'' []))
             | v # _ \<Rightarrow>
                 andThen (tm_ParseAccessToken lib tokens (TrimPrefix v ''Bearer '')) (\<lambda>r. case r of
                     Inl err \<Rightarrow> returns (fail (StatusError Unauthenticated ''invalid or expired token'' []))
                   | Inr claims \<Rightarrow> handler (ContextWithClaims ctx claims))))"

text \<open>A panic passes through: the second reading of the clock and the log line are skipped.\<close>

definition LoggingInterceptor ::
  "(('d, 'm, 'z) env_scheme, 'a) handler \<Rightarrow> (('d, 'm, 'z) env_scheme, 'a) handler" where
  "LoggingInterceptor handler ctx =
     andThen time_Now (\<lambda>_ s. case handler ctx s of
         (Done r, s') \<Rightarrow> (Done r, snd (time_Now s'))
       | (Panic v, s') \<Rightarrow> (Panic v, s'))"

definition DefaultKeyFunc :: "reqctx \<Rightarrow> string" where
  "DefaultKeyFunc ctx =
     (let md = (case ctx_metadata ctx of None \<Rightarrow> [] | Some md \<Rightarrow> md);
          forwarded = md_Get md ''x-forwarded-for''; real_ip = md_Get md ''x-real-ip'' in
      if forwarded \<noteq> [] \<and> hd forwarded \<noteq> '''' then TrimSpace (first_item (hd forwarded))
      else if real_ip \<noteq> [] \<and> hd real_ip \<noteq> '''' then hd real_ip
      else case ctx_peer ctx of
          None \<Rightarrow> ''unknown''
        | Some addr \<Rightarrow> (case SplitHostPort addr of None \<Rightarrow> addr | Some host \<Rightarrow> host))"

record RateLimitRule =
  rule_Limit :: Limit

definition RateLimitInterceptor ::
  "'s rate_lib \<Rightarrow> (string \<times> RateLimitRule) list \<Rightarrow> (reqctx \<Rightarrow> string) option \<Rightarrow> string \<Rightarrow>
   ('s, 'a) handler \<Rightarrow> ('s, 'a) handler" where
  "RateLimitInterceptor rate rules keyFunc fullMethod handler ctx =
     (case map_of rules fullMethod of
        None \<Rightarrow> handler ctx
      | Some rule \<Rightarrow>
          let f = (case keyFunc of None \<Rightarrow> DefaultKeyFunc | Some g \<Rightarrow> g);
              key = ''ratelimit:'' @ fullMethod @ '':'' @ f ctx in
          andThen (Check rate key (rule_Limit rule)) (\<lambda>r. case r of
              Inl err \<Rightarrow> returns (fail (StatusError Internal ''rate limit service unavailable'' []))
            | Inr result \<Rightarrow>
                if \<not> Allowed result
                then returns (fail (StatusError ResourceExhausted
                        ''too many requests, please try again later'' []))
                else handler ctx))"

definition RecoveryInterceptor :: "('s, 'a) handler \<Rightarrow> reqctx \<Rightarrow> ('s, 'a) comp" where
  "RecoveryInterceptor handler ctx s =
     (case handler ctx s of
        (Done r, s') \<Rightarrow> (r, s')
      | (Panic _, s') \<Rightarrow> (Inl (StatusError Internal ''internal server error'' []), s'))"

section \<open>The servers\<close>

text \<open>
  \<open>NewServer\<close> of each service puts the same chain around its handlers; the services differ in the
  tables of \<open>routes.go\<close>.
\<close>

definition server_chain ::
  "(('d, 'm, 'z) env_scheme) rate_lib \<Rightarrow> (string \<times> RateLimitRule) list \<Rightarrow> jwt_lib \<Rightarrow> tokenManager \<Rightarrow>
   (string \<times> bool) list \<Rightarrow> string \<Rightarrow> (('d, 'm, 'z) env_scheme, 'a) handler \<Rightarrow> reqctx \<Rightarrow>
   (('d, 'm, 'z) env_scheme, 'a) comp" where
  "server_chain rate rules lib tokens publicMethods fullMethod handler =
     RecoveryInterceptor (LoggingInterceptor (RateLimitInterceptor rate rules None fullMethod
       (AuthInterceptor lib tokens publicMethods fullMethod handler)))"

definition user_PublicMethods :: "(string \<times> bool) list" where
  "user_PublicMethods =
     [(''/user.UserService/Register'', True), (''/user.UserService/PasswordLogin'', True),
      (''/user.UserService/OTPLogin'', True), (''/user.UserService/VerifyOTP'', True),
      (''/user.UserService/RefreshToken'', True)]"

definition user_RateLimitRules :: "(string \<times> RateLimitRule) list" where
  "user_RateLimitRules =
     [(''/user.UserService/Register'', \<lparr>rule_Limit = PerMinute 5\<rparr>),
      (''/user.UserService/PasswordLogin'', \<lparr>rule_Limit = PerMinute 5\<rparr>),
      (''/user.UserService/OTPLogin'', \<lparr>rule_Limit = PerMinute 3\<rparr>),
      (''/user.UserService/VerifyOTP'', \<lparr>rule_Limit = PerMinute 5\<rparr>),
      (''/user.UserService/RefreshToken'', \<lparr>rule_Limit = PerMinute 10\<rparr>),
      (''/user.UserService/GetUser'', \<lparr>rule_Limit = PerMinute 60\<rparr>),
      (''/user.UserService/Logout'', \<lparr>rule_Limit = PerMinute 10\<rparr>)]"

definition user_NewServer where
  "user_NewServer rate lib tokens = server_chain rate user_RateLimitRules lib tokens user_PublicMethods"

definition product_PublicMethods :: "(string \<times> bool) list" where
  "product_PublicMethods =
     [(''/product.ProductService/GetProduct'', True), (''/product.ProductService/SearchProducts'', True),
      (''/product.ProductService/GetProductsByIDs'', True), (''/product.ProductService/ReserveStock'', True),
      (''/product.ProductService/ReleaseStock'', True), (''/product.ProductService/ConfirmStock'', True)]"

definition product_RateLimitRules :: "(string \<times> RateLimitRule) list" where
  "product_RateLimitRules =
     [(''/product.ProductService/CreateProduct'', \<lparr>rule_Limit = PerMinute 10\<rparr>),
      (''/product.ProductService/UpdateProduct'', \<lparr>rule_Limit = PerMinute 30\<rparr>),
      (''/product.ProductService/DeleteProduct'', \<lparr>rule_Limit = PerMinute 10\<rparr>),
      (''/product.ProductService/GetProduct'', \<lparr>rule_Limit = PerMinute 80\<rparr>),
      (''/product.ProductService/SearchProducts'', \<lparr>rule_Limit = PerMinute 40\<rparr>)]"

definition product_NewServer where
  "product_NewServer rate lib tokens =
     server_chain rate product_RateLimitRules lib tokens product_PublicMethods"

definition order_PublicMethods :: "(string \<times> bool) list" where
  "order_PublicMethods = []"

definition order_RateLimitRules :: "(string \<times> RateLimitRule) list" where
  "order_RateLimitRules =
     [(''/order.OrderService/CreateOrder'', \<lparr>rule_Limit = PerMinute 5\<rparr>),
      (''/order.OrderService/GetOrder'', \<lparr>rule_Limit = PerMinute 30\<rparr>),
      (''/order.OrderService/ListMyOrders'', \<lparr>rule_Limit = PerMinute 30\<rparr>)]"

definition order_NewServer where
  "order_NewServer rate lib tokens = server_chain rate order_RateLimitRules lib tokens order_PublicMethods"

definition payment_PublicMethods :: "(string \<times> bool) list" where
  "payment_PublicMethods = [(''/payment.PaymentService/VerifyPayment'', True)]"

definition payment_RateLimitRules :: "(string \<times> RateLimitRule) list" where
  "payment_RateLimitRules =
     [(''/payment.PaymentService/GetPaymentByOrderID'', \<lparr>rule_Limit = PerMinute 30\<rparr>),
      (''/payment.PaymentService/VerifyPayment'', \<lparr>rule_Limit = PerMinute 60\<rparr>)]"

definition payment_NewServer where
  "payment_NewServer rate lib tokens =
     server_chain rate payment_RateLimitRules lib tokens payment_PublicMethods"

section \<open>Lemmas\<close>

lemma returns_eq: "returns m s = (x, s') \<longleftrightarrow> (\<exists>r. m s = (r, s') \<and> x = Done r)"
  by (auto simp: returns_def split: prod.splits)

lemma returns_fail [simp]: "returns (fail e) s = (Done (Inl e), s)"
  by (simp add: returns_def fail_def)

text \<open>A limit that is reached, or cannot be read, answers in place of every handler.\<close>

lemma RateLimitInterceptor_cases:
  "(\<exists>c msg s1. c \<in> {ResourceExhausted, Internal} \<and>
      (\<forall>g. RateLimitInterceptor rate rules kf m g ctx s = (Done (Inl (StatusError c msg [])), s1))) \<or>
   (\<exists>s1. \<forall>g. RateLimitInterceptor rate rules kf m g ctx s = g ctx s1)"
proof (cases "map_of rules m")
  case None
  then show ?thesis by (auto simp: RateLimitInterceptor_def)
next
  case (Some rule)
  obtain r s1 where chk: "Check rate (''ratelimit:'' @ m @ '':'' @
      (case kf of None \<Rightarrow> DefaultKeyFunc | Some g \<Rightarrow> g) ctx) (rule_Limit rule) s = (r, s1)"
    by fastforce
  have eq: "RateLimitInterceptor rate rules kf m g ctx s =
      (case r of
         Inl err \<Rightarrow> (Done (Inl (StatusError Internal ''rate limit service unavailable'' [])), s1)
       | Inr res \<Rightarrow>
           if \<not> Allowed res
           then (Done (Inl (StatusError ResourceExhausted ''too many requests, please try again later'' [])), s1)
           else g ctx s1)" for g
    using Some chk by (auto simp: RateLimitInterceptor_def andThen_def Let_def split: sum.splits)
  show ?thesis
    by (cases r; cases "\<forall>res. r = Inr res \<longrightarrow> Allowed res") (auto simp: eq)
qed

definition authorizes ::
  "jwt_lib \<Rightarrow> tokenManager \<Rightarrow> reqctx \<Rightarrow> AccessClaims \<Rightarrow> ('d, 'm, 'z) env_scheme \<Rightarrow>
   ('d, 'm, 'z) env_scheme \<Rightarrow> bool" where
  "authorizes lib tokens ctx claims s s' \<longleftrightarrow>
     (\<exists>md v vs. ctx_metadata ctx = Some md \<and> md_Get md ''authorization'' = v # vs \<and>
        tm_ParseAccessToken lib tokens (TrimPrefix v ''Bearer '') s = (Inr claims, s'))"

lemma AuthInterceptor_cases:
  assumes "map_of public m \<noteq> Some True"
  shows "(\<exists>msg s1. \<forall>g. AuthInterceptor lib tokens public m g ctx s =
      (Done (Inl (StatusError Unauthenticated msg [])), s1)) \<or>
    (\<exists>claims s1. authorizes lib tokens ctx claims s s1 \<and>
      (\<forall>g. AuthInterceptor lib tokens public m g ctx s = g (ContextWithClaims ctx claims) s1))"
proof (cases "\<exists>md v vs. ctx_metadata ctx = Some md \<and> md_Get md ''authorization'' = v # vs")
  case False
  then have "\<exists>msg. \<forall>g. AuthInterceptor lib tokens public m g ctx s =
      (Done (Inl (StatusError Unauthenticated msg [])), s)"
    using assms by (cases "ctx_metadata ctx") (auto simp: AuthInterceptor_def split: list.splits)
  then show ?thesis by blast
next
  case True
  then obtain md v vs where md: "ctx_metadata ctx = Some md" "md_Get md ''authorization'' = v # vs" by blast
  obtain r s1 where parse: "tm_ParseAccessToken lib tokens (TrimPrefix v ''Bearer '') s = (r, s1)" by fastforce
  have eq: "AuthInterceptor lib tokens public m g ctx s =
      (case r of
         Inl err \<Rightarrow> (Done (Inl (StatusError Unauthenticated ''invalid or expired token'' [])), s1)
       | Inr claims \<Rightarrow> g (ContextWithClaims ctx claims) s1)" for g
    using assms md parse by (auto simp: AuthInterceptor_def andThen_def split: sum.splits)
  show ?thesis using md parse by (cases r) (auto simp: eq authorizes_def)
qed

text \<open>What the outer interceptors make of the answer of a handler.\<close>

definition finished :: "'a outcome \<times> ('d, 'm, 'z) env_scheme \<Rightarrow> (goerr + 'a) \<times> ('d, 'm, 'z) env_scheme" where
  "finished out =
     (case out of
        (Done r, s) \<Rightarrow> (r, snd (time_Now s))
      | (Panic _, s) \<Rightarrow> (Inl (StatusError Internal ''internal server error'' []), s))"

lemma server_chain_eq:
  "server_chain rate rules lib tokens public m h ctx s =
     finished (RateLimitInterceptor rate rules None m (AuthInterceptor lib tokens public m h) ctx
       (snd (time_Now s)))"
  by (auto simp: server_chain_def RecoveryInterceptor_def LoggingInterceptor_def andThen_def finished_def
      split: prod.splits outcome.splits)

text \<open>
  A method that is not public runs for a valid token only. Either the chain answers for the handler, with
  the same refusal whatever the handler is, or the request's metadata holds a token from which the
  token manager read claims and the answer is the handler's under exactly these claims, its panic
  being an internal error.
\<close>

lemma valid_tokens_only:
  fixes h :: "(('d, 'm, 'z) env_scheme, 'a) handler"
  assumes "map_of public m \<noteq> Some True"
    and "server_chain rate rules lib tokens public m h ctx s = (r, s')"
  shows "(\<exists>c msg. c \<in> {Unauthenticated, ResourceExhausted, Internal} \<and> r = Inl (StatusError c msg []) \<and>
      (\<forall>h'. server_chain rate rules lib tokens public m h' ctx s = (r, s'))) \<or>
    (\<exists>claims s1 s2. authorizes lib tokens ctx claims s1 s2 \<and>
      (r, s') = finished (h (ContextWithClaims ctx claims) s2))"
proof -
  let ?s = "snd (time_Now s)"
  have out: "(r, s') = finished (RateLimitInterceptor rate rules None m
      (AuthInterceptor lib tokens public m h) ctx ?s)"
    using assms(2) by (simp add: server_chain_eq)
  show ?thesis
  proof (cases "\<exists>s1. \<forall>g :: (('d, 'm, 'z) env_scheme, 'a) handler.
      RateLimitInterceptor rate rules None m g ctx ?s = g ctx s1")
    case True
    then obtain s1 where pass: "RateLimitInterceptor rate rules None m g ctx ?s = g ctx s1"
      for g :: "(('d, 'm, 'z) env_scheme, 'a) handler" by blast
    from AuthInterceptor_cases [OF assms(1), of lib tokens ctx s1, where ?'d = 'a] show ?thesis
    proof (elim disjE exE conjE)
      fix msg s2
      assume refused: "\<forall>g. AuthInterceptor lib tokens public m g ctx s1 =
        (Done (Inl (StatusError Unauthenticated msg []) :: goerr + 'a), s2)"
      with out have "r = Inl (StatusError Unauthenticated msg [])"
        by (simp add: pass finished_def)
      with out refused show ?thesis by (auto simp: server_chain_eq pass)
    next
      fix claims s2
      assume "authorizes lib tokens ctx claims s1 s2" and
        "\<forall>g. AuthInterceptor lib tokens public m g ctx s1 = (g (ContextWithClaims ctx claims) s2 :: 'a outcome \<times> _)"
      moreover from this out have "(r, s') = finished (h (ContextWithClaims ctx claims) s2)"
        by (simp add: pass)
      ultimately show ?thesis by blast
    qed
  next
    case False
    then obtain c msg s1 where "c \<in> {ResourceExhausted, Internal}"
      and "RateLimitInterceptor rate rules None m g ctx ?s = (Done (Inl (StatusError c msg [])), s1)"
      for g :: "(('d, 'm, 'z) env_scheme, 'a) handler"
      using RateLimitInterceptor_cases [of rate rules None m ctx ?s] by blast
    with out show ?thesis by (auto simp: server_chain_eq finished_def)
  qed
qed

end
