(* ===== verification/User.thy ===== *)
theory User
  imports Events Cache
begin

text \<open>
  \<open>services/user-service/internal/model\<close> and \<open>internal/repository\<close>: the accounts and the refresh
  tokens in PostgreSQL, the challenges of the one-time codes in Redis. The tables' constraints are
  those of \<open>migrations/\<close>: an account's id, e-mail address (a \<open>citext\<close>: compared after folding the
  case) and phone number are unique, its role is one of four; a refresh token's id and hash are
  unique and its user is on file.

  \<open>users_cfg\<close> holds what PostgreSQL decides: the folding of \<open>citext\<close> and which of several matching rows
  comes first. The state \<open>uenv\<close> adds to a service with Redis the readings of \<open>crypto/rand\<close>.

  The lemmas show that the tables keep their constraints, and what the statements on refresh tokens
  and challenges do.
\<close>

section \<open>The model\<close>

definition RoleAdmin :: string where "RoleAdmin = ''admin''"
definition RoleMember :: string where "RoleMember = ''member''"
definition RoleViewer :: string where "RoleViewer = ''viewer''"
definition RoleUnspecified :: string where "RoleUnspecified = ''unspecified''"

lemmas role_defs = RoleAdmin_def RoleMember_def RoleViewer_def RoleUnspecified_def

definition Role_IsValid :: "string \<Rightarrow> bool" where
  "Role_IsValid r \<longleftrightarrow> r \<in> {RoleAdmin, RoleMember, RoleViewer, RoleUnspecified}"

record User =
  u_ID :: uuid
  u_Email :: string
  u_PhoneNumber :: string
  u_FullName :: string
  u_PasswordHash :: string
  u_Role :: string
  u_CreatedAt :: time
  u_UpdatedAt :: time

definition User_IsAdmin :: "User \<Rightarrow> bool" where
  "User_IsAdmin u \<longleftrightarrow> u_Role u = RoleAdmin"

record RefreshToken =
  t_ID :: uuid
  t_UserID :: uuid
  t_TokenHash :: string
  t_ExpiresAt :: time
  t_Revoked :: bool
  t_CreatedAt :: time

definition rt_IsValid :: "time \<Rightarrow> RefreshToken \<Rightarrow> bool" where
  "rt_IsValid now rt \<longleftrightarrow> \<not> t_Revoked rt \<and> now < t_ExpiresAt rt"

definition rt_Revoke_mem :: "RefreshToken \<Rightarrow> RefreshToken" where
  "rt_Revoke_mem rt = rt\<lparr>t_Revoked := True\<rparr>"

record OTPChallenge =
  ch_ID :: uuid
  ch_UserID :: uuid
  ch_PhoneNumber :: string
  ch_Code :: string
  ch_ExpiresAt :: time

definition ch_IsExpired :: "time \<Rightarrow> OTPChallenge \<Rightarrow> bool" where
  "ch_IsExpired now c \<longleftrightarrow> ch_ExpiresAt c < now"

section \<open>The tables\<close>

record users_cfg =
  citext_fold :: "string \<Rightarrow> string"
  row_order :: "User list \<Rightarrow> User list"

record user_db =
  users :: "User list"
  refresh_tokens :: "RefreshToken list"

definition user_row_err :: "User \<Rightarrow> goerr option" where
  "user_row_err r =
     first_err [pg_text None (u_Email r), pg_text (Some 20) (u_PhoneNumber r),
       pg_text (Some 255) (u_FullName r), pg_text None (u_PasswordHash r),
       check (Role_IsValid (u_Role r))]"

definition users_schema :: "users_cfg \<Rightarrow> User schema" where
  "users_schema cfg =
     \<lparr>row_err = user_row_err,
      uniq = (\<lambda>t. distinct (map u_ID t) \<and> distinct (map (citext_fold cfg \<circ> u_Email) t) \<and>
        distinct (map u_PhoneNumber t))\<rparr>"

definition tokens_schema :: "RefreshToken schema" where
  "tokens_schema =
     \<lparr>row_err = (\<lambda>r. pg_text None (t_TokenHash r)),
      uniq = (\<lambda>t. distinct (map t_ID t) \<and> distinct (map t_TokenHash t))\<rparr>"

definition user_db_ok :: "users_cfg \<Rightarrow> user_db \<Rightarrow> bool" where
  "user_db_ok cfg d \<longleftrightarrow>
     tbl_wf (users_schema cfg) (users d) \<and> tbl_wf tokens_schema (refresh_tokens d) \<and>
     (\<forall>t \<in> set (refresh_tokens d). t_UserID t \<in> u_ID ` set (users d))"

lemma users_schema_simps [simp]:
  "row_err (users_schema cfg) = user_row_err"
  "uniq (users_schema cfg) t \<longleftrightarrow> distinct (map u_ID t) \<and>
     distinct (map (citext_fold cfg \<circ> u_Email) t) \<and> distinct (map u_PhoneNumber t)"
  "row_err tokens_schema = (\<lambda>r. pg_text None (t_TokenHash r))"
  "uniq tokens_schema ts \<longleftrightarrow> distinct (map t_ID ts) \<and> distinct (map t_TokenHash ts)"
  by (simp_all add: users_schema_def tokens_schema_def)

definition on_users ::
  "(User list \<Rightarrow> (goerr + 'a) \<times> User list) \<Rightarrow> user_db \<Rightarrow> (goerr + 'a) \<times> user_db" where
  "on_users f d = (case f (users d) of (r, t) \<Rightarrow> (r, d\<lparr>users := t\<rparr>))"

definition on_tokens ::
  "(RefreshToken list \<Rightarrow> (goerr + 'a) \<times> RefreshToken list) \<Rightarrow> user_db \<Rightarrow> (goerr + 'a) \<times> user_db" where
  "on_tokens f d = (case f (refresh_tokens d) of (r, t) \<Rightarrow> (r, d\<lparr>refresh_tokens := t\<rparr>))"

text \<open>The foreign key of \<open>refresh_tokens\<close>.\<close>

definition insert_token :: "RefreshToken \<Rightarrow> user_db \<Rightarrow> (goerr + unit) \<times> user_db" where
  "insert_token row d =
     (if t_UserID row \<notin> u_ID ` set (users d) then (Inl (PgError ''23503''), d)
      else on_tokens (sql_insert tokens_schema row) d)"

text \<open>The zero value of \<open>time.Time\<close> is the first of January of the year 1.\<close>

definition zero_time :: time where
  "zero_time = - 62135596800 * second"

text \<open>A \<open>timestamptz\<close> holds microseconds.\<close>

definition pg_timestamptz :: "time \<Rightarrow> time" where
  "pg_timestamptz t = t div 1000 * 1000"

record ('d, 'm) uenv = "('d, 'm) cenv" +
  rand_bytes :: "nat \<Rightarrow> goerr + string"
  rand_ints :: "nat \<Rightarrow> nat \<Rightarrow> goerr + nat"
  draws :: nat

type_synonym ('z, 'a) user_comp = "((user_db, message, 'z) uenv_scheme, 'a) comp"

section \<open>The user repository\<close>

definition repo_user_Create :: "users_cfg \<Rightarrow> User option \<Rightarrow> ('z, User) user_comp" where
  "repo_user_Create cfg user =
     (case user of
        None \<Rightarrow> fail (New KindInvalidInput ''user cannot be nil'')
      | Some u \<Rightarrow>
          if u_PhoneNumber u = '''' then fail (New KindInvalidInput ''phone number is required'')
          else
          bindE time_Now (\<lambda>now. bindE uuid_New (\<lambda>uid.
          let row = u\<lparr>u_ID := uid, u_CreatedAt := now, u_UpdatedAt := now\<rparr> in
          bindS (query (on_users (sql_insert (users_schema cfg) row))) (\<lambda>r. case r of
              Inl err \<Rightarrow>
                if err = PgError ''23505''
                then fail (New KindAlreadyExists ''user with this email or phone number already exists'')
                else fail (Wrap KindInternal (Some err) ''failed to create user in database'')
            | Inr _ \<Rightarrow> ret row))))"

text \<open>The columns \<open>GetByID\<close> does not select keep the zero value.\<close>

definition repo_user_GetByID :: "uuid \<Rightarrow> ('z, User) user_comp" where
  "repo_user_GetByID uid =
     (if uid = uuid_Nil then fail (New KindInvalidInput ''user id cannot be empty'')
      else bindS (query (\<lambda>d. (case tbl_get u_ID (users d) uid of
              None \<Rightarrow> Inl ErrNoRows
            | Some u \<Rightarrow> Inr (u\<lparr>u_PasswordHash := '''', u_UpdatedAt := zero_time\<rparr>), d)))
        (\<lambda>r. case r of
           Inl err \<Rightarrow> if errors_Is err ErrNoRows then fail (New KindNotFound ''user not found'')
                      else fail (Wrap KindInternal (Some err) ''failed to get user by id'')
         | Inr u \<Rightarrow> ret u))"

text \<open>\<open>WHERE email = $1 OR phone_number = $1\<close>, of which \<open>QueryRow\<close> reads the first row.\<close>

definition answers_to :: "users_cfg \<Rightarrow> string \<Rightarrow> User \<Rightarrow> bool" where
  "answers_to cfg s u \<longleftrightarrow> citext_fold cfg (u_Email u) = citext_fold cfg s \<or> u_PhoneNumber u = s"

definition first_answering :: "users_cfg \<Rightarrow> string \<Rightarrow> User list \<Rightarrow> goerr + User" where
  "first_answering cfg s t =
     (case row_order cfg [u \<leftarrow> t. answers_to cfg s u] of [] \<Rightarrow> Inl ErrNoRows | u # _ \<Rightarrow> Inr u)"

definition repo_GetByEmailOrPhone :: "users_cfg \<Rightarrow> string \<Rightarrow> ('z, User) user_comp" where
  "repo_GetByEmailOrPhone cfg emailOrPhone =
     (if emailOrPhone = '''' then fail (New KindInvalidInput ''email or phone number cannot be empty'')
      else bindS (query (\<lambda>d. (first_answering cfg emailOrPhone (users d), d)))
        (\<lambda>r. case r of
           Inl err \<Rightarrow> if errors_Is err ErrNoRows then fail (New KindNotFound ''user not found'')
                      else fail (Wrap KindInternal (Some err) ''failed to get user by email or phone'')
         | Inr u \<Rightarrow> ret u))"

definition user_where :: "uuid \<Rightarrow> User \<Rightarrow> bool" where
  "user_where uid r \<longleftrightarrow> u_ID r = uid"

definition user_set :: "User \<Rightarrow> time \<Rightarrow> User \<Rightarrow> goerr + User" where
  "user_set u now r =
     Inr (r\<lparr>u_Email := u_Email u, u_PhoneNumber := u_PhoneNumber u, u_FullName := u_FullName u,
            u_Role := u_Role u, u_UpdatedAt := now\<rparr>)"

definition repo_user_Update :: "users_cfg \<Rightarrow> User option \<Rightarrow> ('z, unit) user_comp" where
  "repo_user_Update cfg user =
     (case user of
        None \<Rightarrow> fail (New KindInvalidInput ''user cannot be nil'')
      | Some u \<Rightarrow>
          if u_ID u = uuid_Nil then fail (New KindInvalidInput ''user id is required for update'')
          else bindE time_Now (\<lambda>now.
          bindS (query (on_users (sql_update (users_schema cfg) (user_where (u_ID u)) (user_set u now))))
            (\<lambda>r. case r of
              Inl err \<Rightarrow>
                if err = PgError ''23505''
                then fail (New KindAlreadyExists ''user with this email or phone number already exists'')
                else fail (Wrap KindInternal (Some err) ''failed to update user'')
            | Inr n \<Rightarrow> if n = 0 then fail (New KindNotFound ''user not found'') else ret ())))"


section \<open>The refresh token repository\<close>

definition rt_Create :: "RefreshToken option \<Rightarrow> ('z, RefreshToken) user_comp" where
  "rt_Create token =
     (case token of
        None \<Rightarrow> fail (New KindInvalidInput ''refresh token cannot be nil'')
      | Some rt \<Rightarrow>
          if t_UserID rt = uuid_Nil then fail (New KindInvalidInput ''user id cannot be empty'')
          else if t_TokenHash rt = '''' then fail (New KindInvalidInput ''token hash cannot be empty'')
          else bindE time_Now (\<lambda>now.
          if t_ExpiresAt rt = zero_time \<or> t_ExpiresAt rt < now
          then fail (New KindInvalidInput ''token expiration time must be in the future'')
          else
          bindE time_Now (\<lambda>created. bindE uuid_New (\<lambda>tid.
          let row = rt\<lparr>t_ID := tid, t_ExpiresAt := pg_timestamptz (t_ExpiresAt rt), t_Revoked := False,
                       t_CreatedAt := created\<rparr> in
          bindS (query (insert_token row)) (\<lambda>r. case r of
              Inl err \<Rightarrow>
                if err = PgError ''23505''
                then fail (New KindAlreadyExists ''refresh token already exists'')
                else fail (Wrap KindInternal (Some err) ''failed to create refresh token in database'')
            | Inr _ \<Rightarrow> ret (rt\<lparr>t_ID := tid, t_CreatedAt := created\<rparr>))))))"

definition rt_GetByTokenHash :: "string \<Rightarrow> ('z, RefreshToken) user_comp" where
  "rt_GetByTokenHash tokenHash =
     (if tokenHash = '''' then fail (New KindInvalidInput ''token hash cannot be empty'')
      else bindS (query (\<lambda>d. (case tbl_get t_TokenHash (refresh_tokens d) tokenHash of
              None \<Rightarrow> Inl ErrNoRows | Some rt \<Rightarrow> Inr rt, d)))
        (\<lambda>r. case r of
           Inl err \<Rightarrow> if errors_Is err ErrNoRows then fail (New KindNotFound ''refresh token not found'')
                      else fail (Wrap KindInternal (Some err) ''failed to get refresh token by hash'')
         | Inr rt \<Rightarrow> ret rt))"

definition revoke_where :: "uuid \<Rightarrow> RefreshToken \<Rightarrow> bool" where
  "revoke_where tid r \<longleftrightarrow> t_ID r = tid \<and> \<not> t_Revoked r"

definition revoke_set :: "RefreshToken \<Rightarrow> goerr + RefreshToken" where
  "revoke_set r = Inr (r\<lparr>t_Revoked := True\<rparr>)"

definition rt_Revoke :: "uuid \<Rightarrow> ('z, unit) user_comp" where
  "rt_Revoke tid =
     (if tid = uuid_Nil then fail (New KindInvalidInput ''token id cannot be empty'')
      else bindE (wrapE KindInternal ''failed to revoke refresh token''
          (query (on_tokens (sql_update tokens_schema (revoke_where tid) revoke_set))))
        (\<lambda>n. if n = 0 then fail (New KindNotFound ''refresh token not found or already revoked'')
             else ret ()))"

section \<open>The one-time codes\<close>

text \<open>\<open>DEL\<close> answers with the number of keys it removed; a key that has expired is not counted.\<close>

definition redis_DelCount :: "string \<Rightarrow> (('d, 'm, 'z) cenv_scheme, nat) comp" where
  "redis_DelCount key = extern (\<lambda>s.
     (Inr (case redis s key of
         Some (_, expiry) \<Rightarrow> if clock s (ticks s) < expiry then 1 else 0
       | None \<Rightarrow> 0),
      s\<lparr>ticks := ticks s + 1, redis := (redis s)(key := None)\<rparr>))"

record otp_repo =
  otp_Marshal :: "OTPChallenge \<Rightarrow> goerr + string"
  otp_Unmarshal :: "string \<Rightarrow> goerr + OTPChallenge"
  otp_ul :: uuid_lib

definition otp_key :: "otp_repo \<Rightarrow> uuid \<Rightarrow> string" where
  "otp_key c i = Build (NewKeyBuilder ''user-service'') [''otp'', uuid_String (otp_ul c) i]"

definition SaveChallenge ::
  "otp_repo \<Rightarrow> OTPChallenge option \<Rightarrow> time \<Rightarrow> (('d, 'm, 'z) cenv_scheme, unit) comp" where
  "SaveChallenge c challenge ttl =
     (case challenge of
        None \<Rightarrow> fail (New KindInvalidInput ''challenge cannot be nil'')
      | Some ch \<Rightarrow>
          if ch_ID ch = uuid_Nil then fail (New KindInvalidInput ''challenge id cannot be empty'')
          else if ch_PhoneNumber ch = ''''
            then fail (New KindInvalidInput ''phone number cannot be empty'')
          else if ch_UserID ch = uuid_Nil then fail (New KindInvalidInput ''user id cannot be empty'')
          else if ch_Code ch = '''' then fail (New KindInvalidInput ''otp code cannot be empty'')
          else if ttl \<le> 0 then fail (New KindInvalidInput ''TTL must be greater than zero'')
          else case otp_Marshal c ch of
              Inl err \<Rightarrow> fail (Wrap KindInternal (Some err) ''failed to marshal OTP challenge'')
            | Inr data \<Rightarrow>
                wrapE KindInternal ''failed to save OTP challenge in Redis''
                  (redis_Set (otp_key c (ch_ID ch)) data ttl))"

definition GetChallenge :: "otp_repo \<Rightarrow> uuid \<Rightarrow> (('d, 'm, 'z) cenv_scheme, OTPChallenge) comp" where
  "GetChallenge c challengeID =
     (if challengeID = uuid_Nil then fail (New KindInvalidInput ''challenge id cannot be empty'')
      else bindS (redis_Get (otp_key c challengeID)) (\<lambda>r. case r of
          Inl err \<Rightarrow>
            if errors_Is err RedisNil
            then fail (New KindNotFound ''OTP challenge not found or expired'')
            else fail (Wrap KindInternal (Some err) ''failed to get OTP challenge from Redis'')
        | Inr data \<Rightarrow>
            (case otp_Unmarshal c data of
               Inl err \<Rightarrow> fail (Wrap KindInternal (Some err) ''failed to unmarshal OTP challenge'')
             | Inr ch \<Rightarrow> ret ch)))"

definition DeleteChallenge :: "otp_repo \<Rightarrow> uuid \<Rightarrow> (('d, 'm, 'z) cenv_scheme, unit) comp" where
  "DeleteChallenge c challengeID =
     (if challengeID = uuid_Nil then fail (New KindInvalidInput ''challenge id cannot be empty'')
      else bindE (wrapE KindInternal ''failed to consume otp challenge''
          (redis_DelCount (otp_key c challengeID)))
        (\<lambda>deletedCount.
          if deletedCount = 0
          then fail (New KindInvalidInput ''otp challenge is invalid, expired, or already consumed'')
          else ret ()))"


lemma keeps_redis_DelCount [keeps_rules]: "keeps_db J (redis_DelCount key)"
  unfolding redis_DelCount_def by (rule keeps_db_extern) (simp add: keeps_def)

lemma keeps_challenges [keeps_rules]:
  "keeps_db J (SaveChallenge c ch ttl)" "keeps_db J (GetChallenge c i)" "keeps_db J (DeleteChallenge c i)"
  unfolding SaveChallenge_def GetChallenge_def DeleteChallenge_def by (intro keeps_rules)+

section \<open>What the statements keep\<close>

text \<open>
  An invariant of the tables: the statements of the service (adding an account that is a member, adding
  a token, revoking one) keep it.
\<close>

locale user_db_invariant =
  fixes cfg :: users_cfg
    and J :: "user_db \<Rightarrow> bool"
  assumes new_user: "J d \<Longrightarrow> u_Role row = RoleMember \<Longrightarrow>
      J (snd (on_users (sql_insert (users_schema cfg) row) d))"
    and new_token: "J d \<Longrightarrow> \<not> t_Revoked rt \<Longrightarrow> J (snd (insert_token rt d))"
    and revoked: "J d \<Longrightarrow> J (snd (on_tokens (sql_update tokens_schema (revoke_where tid) revoke_set) d))"
begin

lemma keeps_user_Create: "u_Role u = RoleMember \<Longrightarrow> keeps_db J (repo_user_Create cfg (Some u))"
  unfolding repo_user_Create_def by (auto intro!: keeps_rules keeps_query new_user simp: Let_def)

lemma keeps_rt_Create: "keeps_db J (rt_Create t)"
  unfolding rt_Create_def by (auto intro!: keeps_rules keeps_query new_token simp: Let_def split: option.splits)

lemma keeps_rt_Revoke: "keeps_db J (rt_Revoke tid)"
  unfolding rt_Revoke_def by (auto intro!: keeps_rules keeps_query revoked)

end

lemma keeps_user_reads [keeps_rules]:
  "keeps_db J (repo_user_GetByID uid)" "keeps_db J (repo_GetByEmailOrPhone cfg s)"
  "keeps_db J (rt_GetByTokenHash h)"
  unfolding repo_user_GetByID_def repo_GetByEmailOrPhone_def rt_GetByTokenHash_def
  by (auto intro!: keeps_rules keeps_query)

lemma revoke_update_map:
  assumes "\<And>r. h (r\<lparr>t_Revoked := True\<rparr>) = h r"
  shows "map h (snd (sql_update tokens_schema (revoke_where tid) revoke_set t)) = map h t"
  by (rule sql_update_map) (auto simp: revoke_set_def assms)

lemma revoke_update_owners:
  "t_UserID ` set (snd (sql_update tokens_schema (revoke_where tid) revoke_set t)) = t_UserID ` set t"
proof -
  have "map t_UserID (snd (sql_update tokens_schema (revoke_where tid) revoke_set t)) = map t_UserID t"
    by (rule revoke_update_map) simp
  then show ?thesis by (metis list.set_map)
qed

lemma on_users_simps [simp]:
  "users (snd (on_users f d)) = snd (f (users d))"
  "refresh_tokens (snd (on_users f d)) = refresh_tokens d"
  "users (snd (on_tokens g d)) = users d"
  "refresh_tokens (snd (on_tokens g d)) = snd (g (refresh_tokens d))"
  by (auto simp: on_users_def on_tokens_def split: prod.splits)

text \<open>The tables' own constraints.\<close>

interpretation constraints: user_db_invariant cfg "user_db_ok cfg" for cfg
proof unfold_locales
  fix d :: user_db and row :: User
  assume ok: "user_db_ok cfg d"
  have "u_ID ` set (users d) \<subseteq> u_ID ` set (snd (sql_insert (users_schema cfg) row (users d)))"
    using sql_insert_superset by (intro image_mono)
  with ok show "user_db_ok cfg (snd (on_users (sql_insert (users_schema cfg) row) d))"
    by (auto simp: user_db_ok_def sql_insert_wf)
next
  fix d :: user_db and row :: RefreshToken
  assume "user_db_ok cfg d"
  then show "user_db_ok cfg (snd (insert_token row d))"
    by (auto simp: user_db_ok_def insert_token_def sql_insert_wf)
      (auto simp: sql_insert_def split: option.splits if_splits)
next
  fix d :: user_db and tid
  assume ok: "user_db_ok cfg d"
  have "t_UserID ` set (refresh_tokens d) \<subseteq> u_ID ` set (users d)"
    using ok by (auto simp: user_db_ok_def)
  then have "t_UserID ` set (snd (sql_update tokens_schema (revoke_where tid) revoke_set (refresh_tokens d)))
      \<subseteq> u_ID ` set (users d)"
    by (simp add: revoke_update_owners)
  with ok show "user_db_ok cfg (snd (on_tokens (sql_update tokens_schema (revoke_where tid) revoke_set) d))"
    by (auto simp: user_db_ok_def sql_update_wf)
qed

end
