(* ===== verification/UserService.thy ===== *)
theory UserService
  imports User Auth Rpc Broker
begin

text \<open>
  \<open>services/user-service/internal/service\<close>, \<open>internal/messaging/publisher.go\<close> and
  \<open>internal/handler/user.go\<close>: registration, the two ways to log in, the exchange of refresh tokens, the
  profile and the logout, with the gRPC handlers around them. JWT, bcrypt, SHA-256, JSON and the random
  source are arguments.
\<close>

section \<open>Messages of the API\<close>

datatype pb_Role = ROLE_UNSPECIFIED | ROLE_ADMIN | ROLE_MEMBER | ROLE_VIEWER

record pb_User =
  pbu_Id :: string
  pbu_Email :: string
  pbu_PhoneNumber :: string
  pbu_FullName :: string
  pbu_Role :: pb_Role
  pbu_CreatedAt :: "time option"
  pbu_UpdatedAt :: "time option"

record pb_AuthResponse =
  AccessToken :: string
  RefreshTokenText :: string
  ExpiresIn :: int
  auth_User :: pb_User

record RegisterRequest =
  rg_PhoneNumber :: string
  rg_Email :: string
  rg_Password :: string
  rg_FullName :: string

definition toProtoRole :: "string \<Rightarrow> pb_Role" where
  "toProtoRole r =
     (if r = RoleAdmin then ROLE_ADMIN else if r = RoleMember then ROLE_MEMBER
      else if r = RoleViewer then ROLE_VIEWER else ROLE_UNSPECIFIED)"

definition toProtoUser :: "uuid_lib \<Rightarrow> User \<Rightarrow> pb_User" where
  "toProtoUser ul u =
     \<lparr>pbu_Id = uuid_String ul (u_ID u), pbu_Email = u_Email u, pbu_PhoneNumber = u_PhoneNumber u,
      pbu_FullName = u_FullName u, pbu_Role = toProtoRole (u_Role u), pbu_CreatedAt = Some (u_CreatedAt u),
      pbu_UpdatedAt = None\<rparr>"

definition toProtoAuth :: "uuid_lib \<Rightarrow> User \<Rightarrow> string \<times> string \<times> int \<Rightarrow> pb_AuthResponse" where
  "toProtoAuth ul u tokens =
     (case tokens of (accessToken, refreshToken, expiresIn) \<Rightarrow>
        \<lparr>AccessToken = accessToken, RefreshTokenText = refreshToken, ExpiresIn = expiresIn,
         auth_User = toProtoUser ul u\<rparr>)"

section \<open>The service\<close>

record user_svc =
  us_ul :: uuid_lib
  us_status :: status_lib
  us_json :: event_json
  us_publisher :: "Publisher option"
  us_cfg :: users_cfg
  us_otp :: otp_repo
  us_bcrypt :: bcrypt_lib
  us_jwt :: jwt_lib
  us_tokens :: tokenManager
  us_Sum256 :: "string \<Rightarrow> string"
  us_refreshTokenTTL :: time

definition otpTTL :: time where
  "otpTTL = 2 * minute"

definition dummyPasswordHash :: string where
  "dummyPasswordHash = ''$2a$10$e8T.A0N1E8a1O5r.O4M6e.J9V2O1K1E8a1O5r.O4M6e.J9V2O1K1E''"

text \<open>A reading of the random source.\<close>

definition rand_Read :: "('z, string) user_comp" where
  "rand_Read s = (rand_bytes s (draws s), s\<lparr>draws := draws s + 1\<rparr>)"

definition tokens_GenerateRefreshToken :: "('z, string) user_comp" where
  "tokens_GenerateRefreshToken = bindS rand_Read (\<lambda>b. of_sum (GenerateRefreshToken b))"

definition draw_otp :: "('z, string) user_comp" where
  "draw_otp s = (GenerateOTP (rand_ints s (draws s)), s\<lparr>draws := draws s + 1\<rparr>)"

definition PublishUserOTPRequested ::
  "user_svc \<Rightarrow> uuid \<Rightarrow> string \<Rightarrow> string \<Rightarrow> (('d, message, 'z) env_scheme, unit) comp" where
  "PublishUserOTPRequested c userID phoneNumber code =
     bindE uuid_New (\<lambda>eid. bindE time_Now (\<lambda>now.
       Publish (us_json c) (us_publisher c) RoutingKeyUserOTPRequested (EvUserOTP
         \<lparr>uo_EventID = eid, uo_UserID = userID, uo_PhoneNumber = phoneNumber, uo_Code = code,
          uo_RequestedAt = now\<rparr>)))"

definition issueTokens :: "user_svc \<Rightarrow> User \<Rightarrow> ('z, string \<times> string \<times> int) user_comp" where
  "issueTokens c user =
     bindE (tm_GenerateAccessToken (us_jwt c) (us_tokens c) (uuid_String (us_ul c) (u_ID user)) (u_Role user))
       (\<lambda>accessToken.
     bindE tokens_GenerateRefreshToken (\<lambda>refreshToken.
     bindE time_Now (\<lambda>now.
     let rt = \<lparr>t_ID = uuid_Nil, t_UserID = u_ID user,
               t_TokenHash = HashRefreshToken (us_Sum256 c) refreshToken,
               t_ExpiresAt = now + us_refreshTokenTTL c, t_Revoked = False, t_CreatedAt = zero_time\<rparr> in
     bindE (rt_Create (Some rt)) (\<lambda>_.
       ret (accessToken, refreshToken, accessTokenTTL (us_tokens c) div second)))))"

definition svc_Register :: "user_svc \<Rightarrow> RegisterRequest option \<Rightarrow> ('z, pb_AuthResponse) user_comp" where
  "svc_Register c req =
     (case req of
        None \<Rightarrow> fail (New KindInvalidInput ''register request is nil'')
      | Some rq \<Rightarrow>
          if rg_Email rq = '''' \<or> rg_PhoneNumber rq = '''' \<or> rg_Password rq = ''''
          then fail (New KindInvalidInput ''email, phone number, and password are required'')
          else bindE (of_sum (HashPassword (us_bcrypt c) (rg_Password rq))) (\<lambda>hashedPassword.
          let newUser = \<lparr>u_ID = uuid_Nil, u_Email = rg_Email rq, u_PhoneNumber = rg_PhoneNumber rq,
                u_FullName = rg_FullName rq, u_PasswordHash = hashedPassword, u_Role = RoleMember,
                u_CreatedAt = zero_time, u_UpdatedAt = zero_time\<rparr> in
          bindE (repo_user_Create (us_cfg c) (Some newUser)) (\<lambda>user.
          bindE (issueTokens c user) (\<lambda>tokens. ret (toProtoAuth (us_ul c) user tokens)))))"

text \<open>
  \<open>PasswordLogin\<close> compares a password in every case: with a fixed hash when there is no such user.
\<close>

definition check_password ::
  "user_svc \<Rightarrow> User option \<Rightarrow> string \<Rightarrow> ('z, pb_AuthResponse) user_comp" where
  "check_password c user password =
     (let passwordHashToCompare = (case user of None \<Rightarrow> dummyPasswordHash | Some u \<Rightarrow> u_PasswordHash u);
          compareErr = ComparePassword (us_bcrypt c) passwordHashToCompare password in
      case user of
        None \<Rightarrow> fail (New KindUnauthenticated ''invalid phone number, email, or password'')
      | Some u \<Rightarrow>
          if compareErr \<noteq> None
          then fail (New KindUnauthenticated ''invalid phone number, email, or password'')
          else bindE (issueTokens c u) (\<lambda>tokens. ret (toProtoAuth (us_ul c) u tokens)))"

definition svc_PasswordLogin ::
  "user_svc \<Rightarrow> (string \<times> string) option \<Rightarrow> ('z, pb_AuthResponse) user_comp" where
  "svc_PasswordLogin c req =
     (case req of
        None \<Rightarrow> fail (New KindInvalidInput ''login request cannot be nil'')
      | Some (identifier, password) \<Rightarrow>
          if identifier = '''' then fail (New KindInvalidInput ''phone number or email address is required'')
          else if password = '''' then fail (New KindInvalidInput ''password is required'')
          else bindS (repo_GetByEmailOrPhone (us_cfg c) identifier) (\<lambda>found. case found of
              Inl err \<Rightarrow>
                if GetKind (Some err) = KindNotFound then check_password c None password else fail err
            | Inr user \<Rightarrow> check_password c (Some user) password))"

record OTPLoginResponse =
  ChallengeId :: string
  ExpiresInSeconds :: int

text \<open>The code is also written to the log; a failure to publish it is only logged.\<close>

definition svc_OTPLogin :: "user_svc \<Rightarrow> string option \<Rightarrow> ('z, OTPLoginResponse) user_comp" where
  "svc_OTPLogin c req =
     (case req of
        None \<Rightarrow> fail (New KindInvalidInput ''login request cannot be nil'')
      | Some phone \<Rightarrow>
          if phone = '''' then fail (New KindInvalidInput ''phone number is required'')
          else bindS (repo_GetByEmailOrPhone (us_cfg c) phone) (\<lambda>found. case found of
              Inl err \<Rightarrow>
                if GetKind (Some err) = KindNotFound
                then fail (New KindUnauthenticated ''invalid phone number or email'')
                else fail err
            | Inr user \<Rightarrow>
                bindE draw_otp (\<lambda>code.
                bindE uuid_New (\<lambda>cid.
                bindE time_Now (\<lambda>now.
                let challenge = \<lparr>ch_ID = cid, ch_UserID = u_ID user, ch_PhoneNumber = u_PhoneNumber user,
                                 ch_Code = code, ch_ExpiresAt = now + otpTTL\<rparr> in
                bindE (SaveChallenge (us_otp c) (Some challenge) otpTTL) (\<lambda>_.
                bindS (PublishUserOTPRequested c (u_ID user) (u_PhoneNumber user) code) (\<lambda>_.
                  ret \<lparr>ChallengeId = uuid_String (us_ul c) cid,
                       ExpiresInSeconds = otpTTL div second\<rparr>)))))))"

definition svc_VerifyOTP ::
  "user_svc \<Rightarrow> (string \<times> string) option \<Rightarrow> ('z, pb_AuthResponse) user_comp" where
  "svc_VerifyOTP c req =
     (case req of
        None \<Rightarrow> fail (New KindInvalidInput ''verify otp request cannot be nil'')
      | Some (challenge_id, code) \<Rightarrow>
          if challenge_id = '''' then fail (New KindInvalidInput ''challenge id is required'')
          else if code = '''' then fail (New KindInvalidInput ''code is required'')
          else case uuid_Parse (us_ul c) challenge_id of
              None \<Rightarrow> fail (New KindInvalidInput ''invalid challenge id format'')
            | Some challengeID \<Rightarrow>
                bindE (GetChallenge (us_otp c) challengeID) (\<lambda>challenge.
                if ch_Code challenge \<noteq> code then fail (New KindInvalidInput ''invalid otp code'')
                else
                bindE (DeleteChallenge (us_otp c) challengeID) (\<lambda>_.
                bindE (repo_user_GetByID (ch_UserID challenge)) (\<lambda>user.
                bindE (issueTokens c user) (\<lambda>tokens. ret (toProtoAuth (us_ul c) user tokens))))))"

definition svc_RefreshToken :: "user_svc \<Rightarrow> string option \<Rightarrow> ('z, pb_AuthResponse) user_comp" where
  "svc_RefreshToken c req =
     (case req of
        None \<Rightarrow> fail (New KindInvalidInput ''refresh token request cannot be nil'')
      | Some token \<Rightarrow>
          if token = '''' then fail (New KindInvalidInput ''refresh token is required'')
          else bindS (rt_GetByTokenHash (HashRefreshToken (us_Sum256 c) token)) (\<lambda>found. case found of
              Inl err \<Rightarrow>
                if GetKind (Some err) = KindNotFound
                then fail (New KindUnauthenticated ''refresh token is invalid, expired, or already used'')
                else fail err
            | Inr rt \<Rightarrow>
                bindE time_Now (\<lambda>now.
                if \<not> rt_IsValid now rt
                then fail (New KindUnauthenticated ''refresh token is invalid, expired, or revoked'')
                else
                bindE (rt_Revoke (t_ID rt)) (\<lambda>_.
                bindE (repo_user_GetByID (t_UserID rt)) (\<lambda>user.
                bindE (issueTokens c user) (\<lambda>tokens. ret (toProtoAuth (us_ul c) user tokens)))))))"

definition svc_GetUser :: "user_svc \<Rightarrow> reqctx \<Rightarrow> string option \<Rightarrow> ('z, pb_User) user_comp" where
  "svc_GetUser c ctx req =
     (case req of
        None \<Rightarrow> fail (New KindInvalidInput ''user id is required'')
      | Some req_Id \<Rightarrow>
          if req_Id = '''' then fail (New KindInvalidInput ''user id is required'')
          else case uuid_Parse (us_ul c) req_Id of
              None \<Rightarrow> fail (New KindInvalidInput ''invalid user id format'')
            | Some targetUserID \<Rightarrow>
                (case ClaimsFromContext ctx of
                   None \<Rightarrow> fail (New KindUnauthenticated ''authentication required'')
                 | Some claims \<Rightarrow>
                     if UserID claims \<noteq> req_Id \<and> Role claims \<noteq> RoleAdmin
                     then fail (New KindPermissionDenied ''you are not allowed to view this user's profile'')
                     else bindE (repo_user_GetByID targetUserID) (\<lambda>user.
                       ret (toProtoUser (us_ul c) user))))"

definition svc_Logout :: "user_svc \<Rightarrow> string option \<Rightarrow> ('z, unit) user_comp" where
  "svc_Logout c req =
     (case req of
        None \<Rightarrow> ret ()
      | Some token \<Rightarrow>
          if token = '''' then ret ()
          else bindS (rt_GetByTokenHash (HashRefreshToken (us_Sum256 c) token)) (\<lambda>found. case found of
              Inl err \<Rightarrow> if GetKind (Some err) = KindNotFound then ret () else fail err
            | Inr rt \<Rightarrow> bindS (rt_Revoke (t_ID rt)) (\<lambda>_. ret ())))"

section \<open>The gRPC handlers\<close>

definition user_domain :: string where
  "user_domain = ''user-service''"

definition grpc_Register where
  "grpc_Register c req = grpc_answer (us_status c) user_domain (svc_Register c req)"

definition grpc_PasswordLogin where
  "grpc_PasswordLogin c req = grpc_answer (us_status c) user_domain (svc_PasswordLogin c req)"

definition grpc_OTPLogin where
  "grpc_OTPLogin c req = grpc_answer (us_status c) user_domain (svc_OTPLogin c req)"

definition grpc_VerifyOTP where
  "grpc_VerifyOTP c req = grpc_answer (us_status c) user_domain (svc_VerifyOTP c req)"

definition grpc_RefreshToken where
  "grpc_RefreshToken c req = grpc_answer (us_status c) user_domain (svc_RefreshToken c req)"

definition grpc_GetUser where
  "grpc_GetUser c ctx req = grpc_answer (us_status c) user_domain (svc_GetUser c ctx req)"

definition grpc_Logout where
  "grpc_Logout c req = grpc_answer (us_status c) user_domain (svc_Logout c req)"

end
