(* ===== verification/Settings.thy ===== *)
theory Settings
  imports Prelude
begin

text \<open>
  The configuration of the processes: \<open>pkg/env\<close>, \<open>pkg/config\<close>, the
  \<open>config/config.go\<close> of each service and \<open>api/config/config.go\<close>.

  The environment of a process is a map from names to values. \<open>strconv.Atoi\<close>, \<open>strconv.ParseBool\<close> and
  \<open>time.ParseDuration\<close> are written out, but for the floating point arithmetic of a fraction as in
  \<open>1.5h\<close>, which is the argument \<open>frac\<close>.

  What the settings mean for the running system is in \<open>SettingsProps\<close>.
\<close>

section \<open>Values of variables\<close>

datatype setting_error =
    InvalidValue string string      \<comment> \<open>key, value\<close>
  | RequiredNotSet string

definition onward :: "'e + 'a \<Rightarrow> ('a \<Rightarrow> 'e + 'b) \<Rightarrow> 'e + 'b" where
  "onward m k = (case m of Inl e \<Rightarrow> Inl e | Inr a \<Rightarrow> k a)"

definition is_digit :: "char \<Rightarrow> bool" where
  "is_digit c \<longleftrightarrow> of_char c \<ge> (48 :: nat) \<and> of_char c \<le> (57 :: nat)"

text \<open>\<open>strconv.Atoi\<close> for 64-bit integers.\<close>

definition Atoi :: "string \<Rightarrow> int option" where
  "Atoi s =
     (let neg = (s \<noteq> '''' \<and> hd s = CHR ''-'');
          ds = (if s \<noteq> '''' \<and> (hd s = CHR ''-'' \<or> hd s = CHR ''+'') then tl s else s);
          v = int (dec_value ds); n = (if neg then - v else v) in
      if ds = '''' \<or> \<not> list_all is_digit ds \<or> \<not> fits64 n then None else Some n)"

definition ParseBool :: "string \<Rightarrow> bool option" where
  "ParseBool s =
     (if s \<in> {''1'', ''t'', ''T'', ''TRUE'', ''true'', ''True''} then Some True
      else if s \<in> {''0'', ''f'', ''F'', ''FALSE'', ''false'', ''False''} then Some False
      else None)"

subsection \<open>\<open>time.ParseDuration\<close>\<close>

definition leadingInt :: "string \<Rightarrow> (nat \<times> string) option" where
  "leadingInt s =
     (let v = dec_value (takeWhile is_digit s) in
      if v > 2 ^ 63 then None else Some (v, dropWhile is_digit s))"

text \<open>The digits of a fraction that fit, with their number.\<close>

fun fraction_digits :: "nat \<Rightarrow> nat \<Rightarrow> string \<Rightarrow> nat \<times> nat" where
  "fraction_digits x n [] = (x, n)"
| "fraction_digits x n (c # cs) =
     (if x > (2 ^ 63 - 1) div 10 then (x, n)
      else let y = x * 10 + (of_char c - 48) in
           if y > 2 ^ 63 then (x, n) else fraction_digits y (n + 1) cs)"

definition leadingFraction :: "string \<Rightarrow> nat \<times> nat \<times> string" where
  "leadingFraction s =
     (case fraction_digits 0 0 (takeWhile is_digit s) of (x, n) \<Rightarrow> (x, n, dropWhile is_digit s))"

definition unitMap :: "(string \<times> nat) list" where
  "unitMap =
     [(''ns'', 1), (''us'', 1000), (map char_of [0xC2, 0xB5 :: nat] @ ''s'', 1000),
      (map char_of [0xCE, 0xBC :: nat] @ ''s'', 1000), (''ms'', 1000000), (''s'', 1000000000),
      (''m'', 60000000000), (''h'', 3600000000000)]"

text \<open>One number with its unit: its nanoseconds and the rest of the text.\<close>

definition duration_term :: "(nat \<Rightarrow> nat \<Rightarrow> nat \<Rightarrow> nat) \<Rightarrow> string \<Rightarrow> (nat \<times> string) option" where
  "duration_term frac s =
     (if s = '''' \<or> \<not> (hd s = CHR ''.'' \<or> is_digit (hd s)) then None
      else case leadingInt s of
        None \<Rightarrow> None
      | Some (v, s1) \<Rightarrow>
          let pre = (length s1 \<noteq> length s);
              dot = (s1 \<noteq> '''' \<and> hd s1 = CHR ''.'');
              (f, n, s2) = (if dot then leadingFraction (tl s1) else (0, 0, s1));
              post = (dot \<and> length s2 \<noteq> length (tl s1)) in
          if \<not> pre \<and> \<not> post then None
          else
          let u = takeWhile (\<lambda>c. c \<noteq> CHR ''.'' \<and> \<not> is_digit c) s2 in
          if u = '''' then None
          else case map_of unitMap u of
            None \<Rightarrow> None
          | Some unit \<Rightarrow>
              if v > 2 ^ 63 div unit then None
              else let w = (if f > 0 then v * unit + frac f n unit else v * unit) in
                   if f > 0 \<and> w > 2 ^ 63 then None else Some (w, drop (length u) s2))"

lemma duration_term_shorter:
  assumes "duration_term frac s = Some (v, rest)"
  shows "length rest < length s"
proof -
  have drop: "length (dropWhile P xs) \<le> length xs" for P and xs :: string
    by (rule length_dropWhile_le)
  from assms obtain v0 s1 where s1: "leadingInt s = Some (v0, s1)" and "s \<noteq> ''''"
    by (auto simp: duration_term_def split: if_splits option.splits)
  then have len: "length s1 \<le> length s"
    using drop [of is_digit s] by (auto simp: leadingInt_def Let_def split: if_splits)
  let ?dot = "s1 \<noteq> '''' \<and> hd s1 = CHR ''.''"
  obtain f n s2 where f: "(if ?dot then leadingFraction (tl s1) else (0, 0, s1)) = (f, n, s2)"
    by (metis prod_cases3)
  have "length s2 \<le> length s1"
    using f drop [of is_digit "tl s1"]
    by (auto simp: leadingFraction_def split: if_splits prod.splits)
  moreover have "rest = drop (length (takeWhile (\<lambda>c. c \<noteq> CHR ''.'' \<and> \<not> is_digit c) s2)) s2"
    and "takeWhile (\<lambda>c. c \<noteq> CHR ''.'' \<and> \<not> is_digit c) s2 \<noteq> ''''"
    using assms s1 f by (auto simp: duration_term_def Let_def split: if_splits option.splits)
  ultimately show ?thesis
    using len by (cases s2) (auto split: if_splits)
qed

text \<open>The sum of the terms is a 64-bit unsigned integer.\<close>

function duration_terms :: "(nat \<Rightarrow> nat \<Rightarrow> nat \<Rightarrow> nat) \<Rightarrow> nat \<Rightarrow> string \<Rightarrow> nat option" where
  "duration_terms frac d s =
     (if s = '''' then Some d
      else case duration_term frac s of
        None \<Rightarrow> None
      | Some (v, rest) \<Rightarrow>
          let d' = (d + v) mod 2 ^ 64 in if d' > 2 ^ 63 then None else duration_terms frac d' rest)"
  by pat_completeness auto

termination
  by (relation "measure (\<lambda>(frac, d, s). length s)") (auto dest: duration_term_shorter)

declare duration_terms.simps [simp del]

definition ParseDuration :: "(nat \<Rightarrow> nat \<Rightarrow> nat \<Rightarrow> nat) \<Rightarrow> string \<Rightarrow> time option" where
  "ParseDuration frac str =
     (let neg = (str \<noteq> '''' \<and> hd str = CHR ''-'');
          s = (if str \<noteq> '''' \<and> (hd str = CHR ''-'' \<or> hd str = CHR ''+'') then tl str else str) in
      if s = ''0'' then Some 0
      else if s = '''' then None
      else case duration_terms frac 0 s of
        None \<Rightarrow> None
      | Some d \<Rightarrow>
          if neg then Some (- int d)
          else if d > 2 ^ 63 - 1 then None else Some (int d))"

section \<open>\<open>pkg/env\<close>\<close>

type_synonym environ = "string \<Rightarrow> string option"

text \<open>\<open>godotenv.Load\<close> sets what is not set; no file leaves the environment as it is.\<close>

definition env_Load :: "environ option \<Rightarrow> environ \<Rightarrow> environ" where
  "env_Load file env = (case file of None \<Rightarrow> env | Some f \<Rightarrow> f ++ env)"

definition Getenv :: "environ \<Rightarrow> string \<Rightarrow> string" where
  "Getenv env key = (case env key of None \<Rightarrow> '''' | Some v \<Rightarrow> v)"

definition env_String :: "environ \<Rightarrow> string \<Rightarrow> string \<Rightarrow> string" where
  "env_String env key fallback = (let v = Getenv env key in if v \<noteq> '''' then v else fallback)"

definition env_Int :: "environ \<Rightarrow> string \<Rightarrow> int \<Rightarrow> setting_error + int" where
  "env_Int env key fallback =
     (let v = Getenv env key in
      if v = '''' then Inr fallback
      else case Atoi v of None \<Rightarrow> Inl (InvalidValue key v) | Some n \<Rightarrow> Inr n)"

definition env_Bool :: "environ \<Rightarrow> string \<Rightarrow> bool \<Rightarrow> setting_error + bool" where
  "env_Bool env key fallback =
     (let v = Getenv env key in
      if v = '''' then Inr fallback
      else case ParseBool v of None \<Rightarrow> Inl (InvalidValue key v) | Some b \<Rightarrow> Inr b)"

definition env_Duration ::
  "(nat \<Rightarrow> nat \<Rightarrow> nat \<Rightarrow> nat) \<Rightarrow> environ \<Rightarrow> string \<Rightarrow> time \<Rightarrow> setting_error + time" where
  "env_Duration frac env key fallback =
     (let v = Getenv env key in
      if v = '''' then Inr fallback
      else case ParseDuration frac v of None \<Rightarrow> Inl (InvalidValue key v) | Some d \<Rightarrow> Inr d)"

definition env_Require :: "environ \<Rightarrow> string \<Rightarrow> setting_error + string" where
  "env_Require env key =
     (let v = Getenv env key in if v = '''' then Inl (RequiredNotSet key) else Inr v)"

section \<open>\<open>pkg/config\<close>\<close>

record PostgresConfig =
  pg_Host :: string
  pg_Port :: string
  pg_User :: string
  pg_Password :: string
  pg_DBName :: string
  pg_SSLMode :: string

definition DSN :: "PostgresConfig \<Rightarrow> string" where
  "DSN c = ''postgres://'' @ pg_User c @ '':'' @ pg_Password c @ ''@'' @ pg_Host c @ '':'' @ pg_Port c @ ''/'' @
     pg_DBName c @ ''?sslmode='' @ pg_SSLMode c"

record RabbitMQConfig =
  mq_Host :: string
  mq_Port :: string
  mq_User :: string
  mq_Password :: string
  mq_VHost :: string

definition URL :: "RabbitMQConfig \<Rightarrow> string" where
  "URL c = ''amqp://'' @ mq_User c @ '':'' @ mq_Password c @ ''@'' @ mq_Host c @ '':'' @ mq_Port c @ ''/'' @ mq_VHost c"

record RedisConfig =
  rd_Addr :: string
  rd_Password :: string
  rd_DB :: int
  rd_PoolSize :: int
  rd_MinIdleConns :: int
  rd_ConnMaxIdle :: time

record JWTConfig =
  jc_Secret :: string
  jc_AccessTokenTTL :: time

record ZarinpalConfig =
  zc_MerchantID :: string
  zc_IsSandbox :: bool
  zc_PaymentCallbackURL :: string

section \<open>The settings of the services\<close>

text \<open>The structures that all services read from the same variables.\<close>

definition postgres_settings :: "environ \<Rightarrow> string \<Rightarrow> string \<Rightarrow> string \<Rightarrow> PostgresConfig" where
  "postgres_settings env dbUser dbName dbPassword =
     \<lparr>pg_Host = env_String env ''DB_HOST'' ''localhost'', pg_Port = env_String env ''DB_PORT'' ''5432'',
      pg_User = env_String env ''DB_USER'' dbUser, pg_Password = dbPassword,
      pg_DBName = env_String env ''DB_NAME'' dbName, pg_SSLMode = env_String env ''DB_SSLMODE'' ''disable''\<rparr>"

definition redis_settings :: "environ \<Rightarrow> int \<Rightarrow> int \<Rightarrow> int \<Rightarrow> time \<Rightarrow> RedisConfig" where
  "redis_settings env redisDB redisPoolSize redisMinIdleConns redisConnMaxIdle =
     \<lparr>rd_Addr = env_String env ''REDIS_ADDR'' ''localhost:6379'',
      rd_Password = env_String env ''REDIS_PASSWORD'' '''', rd_DB = redisDB, rd_PoolSize = redisPoolSize,
      rd_MinIdleConns = redisMinIdleConns, rd_ConnMaxIdle = redisConnMaxIdle\<rparr>"

definition rabbitmq_settings :: "environ \<Rightarrow> string \<Rightarrow> string \<Rightarrow> RabbitMQConfig" where
  "rabbitmq_settings env vhost rabbitPassword =
     \<lparr>mq_Host = env_String env ''RABBITMQ_HOST'' ''localhost'',
      mq_Port = env_String env ''RABBITMQ_PORT'' ''5672'', mq_User = env_String env ''RABBITMQ_USER'' ''guest'',
      mq_Password = rabbitPassword, mq_VHost = env_String env ''RABBITMQ_VHOST'' vhost\<rparr>"

record user_Config =
  uc_GRPCPort :: string
  uc_Postgres :: PostgresConfig
  uc_Redis :: RedisConfig
  uc_RabbitMQ :: RabbitMQConfig
  uc_JWT :: JWTConfig
  uc_RefreshTokenTTL :: time

definition user_Load ::
  "(nat \<Rightarrow> nat \<Rightarrow> nat \<Rightarrow> nat) \<Rightarrow> environ option \<Rightarrow> environ \<Rightarrow> setting_error + user_Config" where
  "user_Load frac file env0 =
     (let env = env_Load file env0 in
      onward (env_Require env ''DB_PASSWORD'') (\<lambda>dbPassword.
      onward (env_Require env ''JWT_SECRET'') (\<lambda>jwtSecret.
      onward (env_Require env ''RABBITMQ_PASSWORD'') (\<lambda>rabbitmqPassword.
      onward (env_Duration frac env ''JWT_ACCESS_TTL'' (15 * minute)) (\<lambda>accessTTL.
      onward (env_Duration frac env ''JWT_REFRESH_TTL'' (7 * 24 * (60 * minute))) (\<lambda>refreshTTL.
      onward (env_Int env ''REDIS_DB'' 0) (\<lambda>redisDB.
      onward (env_Int env ''REDIS_POOL_SIZE'' 10) (\<lambda>redisPoolSize.
      onward (env_Int env ''REDIS_MIN_IDLE_CONNS'' 2) (\<lambda>redisMinIdleConns.
      onward (env_Duration frac env ''REDIS_CONN_MAX_IDLE'' (5 * minute)) (\<lambda>redisConnMaxIdle.
      Inr \<lparr>uc_GRPCPort = env_String env ''GRPC_PORT'' ''50051'',
           uc_Postgres = postgres_settings env ''user_service'' ''user_service_db'' dbPassword,
           uc_Redis = redis_settings env redisDB redisPoolSize redisMinIdleConns redisConnMaxIdle,
           uc_RabbitMQ = rabbitmq_settings env ''/'' rabbitmqPassword,
           uc_JWT = \<lparr>jc_Secret = jwtSecret, jc_AccessTokenTTL = accessTTL\<rparr>,
           uc_RefreshTokenTTL = refreshTTL\<rparr>))))))))))"

record product_Config =
  pc_GRPCPort :: string
  pc_Postgres :: PostgresConfig
  pc_Redis :: RedisConfig
  pc_RabbitMQ :: RabbitMQConfig
  pc_JWT :: JWTConfig
  pc_ProductTTL :: time
  pc_SearchTTL :: time

definition product_Load ::
  "(nat \<Rightarrow> nat \<Rightarrow> nat \<Rightarrow> nat) \<Rightarrow> environ option \<Rightarrow> environ \<Rightarrow> setting_error + product_Config" where
  "product_Load frac file env0 =
     (let env = env_Load file env0 in
      onward (env_Require env ''DB_PASSWORD'') (\<lambda>dbPassword.
      onward (env_Require env ''JWT_SECRET'') (\<lambda>jwtSecret.
      onward (env_Duration frac env ''JWT_ACCESS_TTL'' (15 * minute)) (\<lambda>accessTTL.
      onward (env_Int env ''REDIS_DB'' 0) (\<lambda>redisDB.
      onward (env_Int env ''REDIS_POOL_SIZE'' 10) (\<lambda>redisPoolSize.
      onward (env_Int env ''REDIS_MIN_IDLE_CONNS'' 2) (\<lambda>redisMinIdleConns.
      onward (env_Duration frac env ''REDIS_CONN_MAX_IDLE'' 0) (\<lambda>redisConnMaxIdle.
      onward (env_Duration frac env ''PRODUCT_CACHE_TTL'' (5 * minute)) (\<lambda>productCacheTTL.
      onward (env_Require env ''RABBITMQ_PASSWORD'') (\<lambda>rabbitmqPassword.
      onward (env_Duration frac env ''SEARCH_CACHE_TTL'' minute) (\<lambda>searchCacheTTL.
      Inr \<lparr>pc_GRPCPort = env_String env ''GRPC_PORT'' ''50052'',
           pc_Postgres = postgres_settings env ''product_service'' ''product_service_db'' dbPassword,
           pc_Redis = redis_settings env redisDB redisPoolSize redisMinIdleConns redisConnMaxIdle,
           pc_RabbitMQ = rabbitmq_settings env ''/'' rabbitmqPassword,
           pc_JWT = \<lparr>jc_Secret = jwtSecret, jc_AccessTokenTTL = accessTTL\<rparr>,
           pc_ProductTTL = productCacheTTL, pc_SearchTTL = searchCacheTTL\<rparr>)))))))))))"

record order_Config =
  oc_GRPCPort :: string
  oc_Postgres :: PostgresConfig
  oc_Redis :: RedisConfig
  oc_RabbitMQ :: RabbitMQConfig
  oc_JWT :: JWTConfig
  oc_ProductServiceAddr :: string

definition order_Load ::
  "(nat \<Rightarrow> nat \<Rightarrow> nat \<Rightarrow> nat) \<Rightarrow> environ option \<Rightarrow> environ \<Rightarrow> setting_error + order_Config" where
  "order_Load frac file env0 =
     (let env = env_Load file env0 in
      onward (env_Require env ''DB_PASSWORD'') (\<lambda>dbPassword.
      onward (env_Require env ''JWT_SECRET'') (\<lambda>jwtSecret.
      onward (env_Duration frac env ''JWT_ACCESS_TTL'' (15 * minute)) (\<lambda>accessTTL.
      onward (env_Int env ''REDIS_DB'' 0) (\<lambda>redisDB.
      onward (env_Int env ''REDIS_POOL_SIZE'' 10) (\<lambda>redisPoolSize.
      onward (env_Int env ''REDIS_MIN_IDLE_CONNS'' 2) (\<lambda>redisMinIdleConns.
      onward (env_Duration frac env ''REDIS_CONN_MAX_IDLE'' 0) (\<lambda>redisConnMaxIdle.
      onward (env_Require env ''RABBITMQ_PASSWORD'') (\<lambda>rabbitPassword.
      Inr \<lparr>oc_GRPCPort = env_String env ''GRPC_PORT'' ''50053'',
           oc_Postgres = postgres_settings env ''order_service'' ''order_service_db'' dbPassword,
           oc_Redis = redis_settings env redisDB redisPoolSize redisMinIdleConns redisConnMaxIdle,
           oc_RabbitMQ = rabbitmq_settings env '''' rabbitPassword,
           oc_JWT = \<lparr>jc_Secret = jwtSecret, jc_AccessTokenTTL = accessTTL\<rparr>,
           oc_ProductServiceAddr = env_String env ''PRODUCT_SERVICE_ADDR'' ''localhost:50052''\<rparr>)))))))))"

record payment_Config =
  yc_GRPCPort :: string
  yc_Postgres :: PostgresConfig
  yc_Redis :: RedisConfig
  yc_RabbitMQ :: RabbitMQConfig
  yc_JWT :: JWTConfig
  yc_ZarinPal :: ZarinpalConfig

definition payment_Load ::
  "(nat \<Rightarrow> nat \<Rightarrow> nat \<Rightarrow> nat) \<Rightarrow> environ option \<Rightarrow> environ \<Rightarrow> setting_error + payment_Config" where
  "payment_Load frac file env0 =
     (let env = env_Load file env0 in
      onward (env_Require env ''DB_PASSWORD'') (\<lambda>dbPassword.
      onward (env_Require env ''JWT_SECRET'') (\<lambda>jwtSecret.
      onward (env_Duration frac env ''JWT_ACCESS_TTL'' (15 * minute)) (\<lambda>accessTTL.
      onward (env_Int env ''REDIS_DB'' 0) (\<lambda>redisDB.
      onward (env_Int env ''REDIS_POOL_SIZE'' 10) (\<lambda>redisPoolSize.
      onward (env_Int env ''REDIS_MIN_IDLE_CONNS'' 2) (\<lambda>redisMinIdleConns.
      onward (env_Duration frac env ''REDIS_CONN_MAX_IDLE'' (5 * minute)) (\<lambda>redisConnMaxIdle.
      onward (env_Require env ''RABBITMQ_PASSWORD'') (\<lambda>rabbitPassword.
      onward (env_Require env ''MERCHANT_ID'') (\<lambda>merchantID.
      onward (env_Bool env ''IS_SANDBOX'' True) (\<lambda>isSandbox.
      onward (env_Require env ''PAYMENT_CALLBACK_URL'') (\<lambda>paymentCallbackURL.
      Inr \<lparr>yc_GRPCPort = env_String env ''GRPC_PORT'' ''50054'',
           yc_Postgres = postgres_settings env ''payment_service'' ''payment_service_db'' dbPassword,
           yc_Redis = redis_settings env redisDB redisPoolSize redisMinIdleConns redisConnMaxIdle,
           yc_RabbitMQ = rabbitmq_settings env '''' rabbitPassword,
           yc_JWT = \<lparr>jc_Secret = jwtSecret, jc_AccessTokenTTL = accessTTL\<rparr>,
           yc_ZarinPal = \<lparr>zc_MerchantID = merchantID, zc_IsSandbox = isSandbox,
             zc_PaymentCallbackURL = paymentCallbackURL\<rparr>\<rparr>))))))))))))"

section \<open>The settings of the gateway\<close>

record CookieConfig =
  ck_cfg_Domain :: string
  ck_cfg_Secure :: bool
  RefreshMaxAgeSeconds :: int

record api_Config =
  ac_HTTPPort :: string
  ac_UserServiceAddr :: string
  ac_Redis :: RedisConfig
  ac_Cookie :: CookieConfig

text \<open>\<open>app.New\<close> reads the file before \<open>Load\<close> reads the variables.\<close>

definition api_Load ::
  "(nat \<Rightarrow> nat \<Rightarrow> nat \<Rightarrow> nat) \<Rightarrow> environ \<Rightarrow> setting_error + api_Config" where
  "api_Load frac env =
     onward (env_Int env ''REDIS_DB'' 0) (\<lambda>redisDB.
     onward (env_Int env ''REDIS_POOL_SIZE'' 10) (\<lambda>redisPoolSize.
     onward (env_Int env ''REDIS_MIN_IDLE_CONNS'' 2) (\<lambda>redisMinIdleConns.
     onward (env_Duration frac env ''REDIS_CONN_MAX_IDLE'' (5 * minute)) (\<lambda>redisConnMaxIdle.
     onward (env_Bool env ''COOKIE_SECURE'' True) (\<lambda>cookieSecure.
     onward (env_Int env ''REFRESH_COOKIE_MAX_AGE_SECONDS'' (7 * 24 * 60 * 60)) (\<lambda>refreshMaxAge.
     Inr \<lparr>ac_HTTPPort = env_String env ''HTTP_PORT'' ''8080'',
          ac_UserServiceAddr = env_String env ''USER_SERVICE_ADDR'' ''localhost:50051'',
          ac_Redis = redis_settings env redisDB redisPoolSize redisMinIdleConns redisConnMaxIdle,
          ac_Cookie = \<lparr>ck_cfg_Domain = env_String env ''COOKIE_DOMAIN'' ''localhost'',
            ck_cfg_Secure = cookieSecure, RefreshMaxAgeSeconds = refreshMaxAge\<rparr>\<rparr>))))))"

end
