(* ===== verification/Gateway.thy ===== *)
theory Gateway
  imports Middleware UserService Settings
begin

text \<open>
  The API gateway (\<open>api/internal\<close>) in front of the user service: the JSON bodies (\<open>handler/auth/dto.go\<close>),
  the cookie of the refresh token (\<open>handler.go\<close>), the endpoints (\<open>endpoints.go\<close>), the forwarded
  authorization (\<open>client/forward.go\<close>), the limit on the gateway (\<open>middleware/ratelimit.go\<close>) and the
  routes (\<open>router/router.go\<close>). A call of the user service goes over the network to its server with the
  interceptors of \<open>Middleware\<close>.

  Arguments of the model are what gin reads off a request (\<open>http_req\<close>), the JSON decoder, the text of a
  protobuf timestamp, the metadata grpc-go adds to every call, and the address the gateway calls from.

  The lemmas follow a request through both processes.
\<close>

section \<open>Requests and answers\<close>

text \<open>
  What the handlers read of \<open>*gin.Context\<close>: \<open>Cookie\<close> (\<open>None\<close> for its error), \<open>GetHeader\<close>,
  \<open>Param("id")\<close>, \<open>ClientIP\<close> and the body.
\<close>

record http_req =
  rq_Cookie :: "string \<Rightarrow> string option"
  rq_GetHeader :: "string \<Rightarrow> string"
  rq_id :: string
  rq_ClientIP :: string
  rq_body :: string

record userBody =
  ub_ID :: string
  ub_Email :: string
  ub_PhoneNumber :: string
  ub_FullName :: string
  ub_Role :: string
  ub_CreatedAt :: string
  ub_UpdatedAt :: string

record authResponseBody =
  ab_AccessToken :: string
  ab_ExpiresIn :: int
  ab_User :: "userBody option"

record registerRequestBody =
  rb_PhoneNumber :: string
  rb_Email :: string
  rb_Password :: string
  rb_FullName :: string

record passwordLoginRequestBody =
  pl_Identifier :: string
  pl_Password :: string

record verifyOTPRequestBody =
  vb_ChallengeID :: string
  vb_Code :: string

record otpLoginResponseBody =
  ob_ChallengeID :: string
  ob_ExpiresInSeconds :: int

datatype http_body =
    errorResponse string
  | messageResponse string
  | AuthBody authResponseBody
  | UserBody "userBody option"
  | OTPBody otpLoginResponseBody
  | ErrorBody Body
  | HealthBody string

text \<open>A cookie as \<open>gin.Context.SetCookie\<close> writes it, with \<open>SameSite=Strict\<close>.\<close>

record cookie =
  ck_Name :: string
  ck_Value :: string
  ck_MaxAge :: int
  ck_Path :: string
  ck_Domain :: string
  ck_Secure :: bool
  ck_HttpOnly :: bool
  ck_SameSiteStrict :: bool

record http_reply =
  rp_cookies :: "cookie list"
  rp_status :: nat
  rp_body :: http_body

definition JSON :: "nat \<Rightarrow> http_body \<Rightarrow> http_reply" where
  "JSON code body = \<lparr>rp_cookies = [], rp_status = code, rp_body = body\<rparr>"

type_synonym 's gw_act = "'s \<Rightarrow> http_reply \<times> 's"

definition answer :: "http_reply \<Rightarrow> 's gw_act" where
  "answer rp s = (rp, s)"

text \<open>A call, and the answer made from its result.\<close>

definition after_call :: "('s, 'a) comp \<Rightarrow> (goerr + 'a \<Rightarrow> http_reply) \<Rightarrow> 's gw_act" where
  "after_call m k s = (case m s of (r, s') \<Rightarrow> (k r, s'))"

section \<open>The gateway\<close>

record body_json =
  json_register :: "string \<Rightarrow> registerRequestBody option"
  json_password :: "string \<Rightarrow> passwordLoginRequestBody option"
  json_otp :: "string \<Rightarrow> string option"
  json_verify :: "string \<Rightarrow> verifyOTPRequestBody option"

text \<open>
  The gateway's handler with what its user client talks to: the user service, its limiter, the
  metadata that comes with every call and the address of the gateway.
\<close>

record 'u gateway =
  gw_status :: status_lib
  gw_cookieCfg :: CookieConfig
  gw_json :: body_json
  gw_ts_String :: "time option \<Rightarrow> string"
  gw_user :: user_svc
  gw_user_rate :: "'u rate_lib"
  gw_transport :: "(string \<times> string list) list"
  gw_addr :: string

text \<open>\<open>ShouldBindJSON\<close>: the decoder, then the fields bound as required.\<close>

definition bind_register :: "'u gateway \<Rightarrow> string \<Rightarrow> registerRequestBody option" where
  "bind_register g raw =
     (case json_register (gw_json g) raw of
        None \<Rightarrow> None
      | Some b \<Rightarrow> if rb_PhoneNumber b = '''' \<or> rb_Password b = '''' then None else Some b)"

definition bind_password :: "'u gateway \<Rightarrow> string \<Rightarrow> passwordLoginRequestBody option" where
  "bind_password g raw =
     (case json_password (gw_json g) raw of
        None \<Rightarrow> None
      | Some b \<Rightarrow> if pl_Identifier b = '''' \<or> pl_Password b = '''' then None else Some b)"

definition bind_otp :: "'u gateway \<Rightarrow> string \<Rightarrow> string option" where
  "bind_otp g raw =
     (case json_otp (gw_json g) raw of None \<Rightarrow> None | Some b \<Rightarrow> if b = '''' then None else Some b)"

definition bind_verify :: "'u gateway \<Rightarrow> string \<Rightarrow> verifyOTPRequestBody option" where
  "bind_verify g raw =
     (case json_verify (gw_json g) raw of
        None \<Rightarrow> None
      | Some b \<Rightarrow> if vb_ChallengeID b = '''' \<or> vb_Code b = '''' then None else Some b)"

fun role_String :: "pb_Role \<Rightarrow> string" where
  "role_String ROLE_UNSPECIFIED = ''ROLE_UNSPECIFIED''"
| "role_String ROLE_ADMIN = ''ROLE_ADMIN''"
| "role_String ROLE_MEMBER = ''ROLE_MEMBER''"
| "role_String ROLE_VIEWER = ''ROLE_VIEWER''"

definition toUserBody :: "'u gateway \<Rightarrow> pb_User option \<Rightarrow> userBody option" where
  "toUserBody g u =
     (case u of
        None \<Rightarrow> None
      | Some p \<Rightarrow> Some
          \<lparr>ub_ID = pbu_Id p, ub_Email = pbu_Email p, ub_PhoneNumber = pbu_PhoneNumber p,
           ub_FullName = pbu_FullName p, ub_Role = role_String (pbu_Role p),
           ub_CreatedAt = gw_ts_String g (pbu_CreatedAt p), ub_UpdatedAt = gw_ts_String g (pbu_UpdatedAt p)\<rparr>)"

definition refreshCookieName :: string where
  "refreshCookieName = ''refresh_token''"

definition refreshCookiePath :: string where
  "refreshCookiePath = ''/api/v1/auth''"

definition setRefreshCookie :: "'u gateway \<Rightarrow> string \<Rightarrow> http_reply \<Rightarrow> http_reply" where
  "setRefreshCookie g token rp = rp\<lparr>rp_cookies := rp_cookies rp @
     [\<lparr>ck_Name = refreshCookieName, ck_Value = token, ck_MaxAge = RefreshMaxAgeSeconds (gw_cookieCfg g),
       ck_Path = refreshCookiePath, ck_Domain = ck_cfg_Domain (gw_cookieCfg g),
       ck_Secure = ck_cfg_Secure (gw_cookieCfg g), ck_HttpOnly = True, ck_SameSiteStrict = True\<rparr>]\<rparr>"

definition clearRefreshCookie :: "'u gateway \<Rightarrow> http_reply \<Rightarrow> http_reply" where
  "clearRefreshCookie g rp = rp\<lparr>rp_cookies := rp_cookies rp @
     [\<lparr>ck_Name = refreshCookieName, ck_Value = '''', ck_MaxAge = -1,
       ck_Path = refreshCookiePath, ck_Domain = ck_cfg_Domain (gw_cookieCfg g),
       ck_Secure = ck_cfg_Secure (gw_cookieCfg g), ck_HttpOnly = True, ck_SameSiteStrict = True\<rparr>]\<rparr>"

definition respondWithAuth :: "'u gateway \<Rightarrow> pb_AuthResponse \<Rightarrow> http_reply" where
  "respondWithAuth g auth =
     setRefreshCookie g (RefreshTokenText auth)
       (JSON 200 (AuthBody \<lparr>ab_AccessToken = AccessToken auth, ab_ExpiresIn = ExpiresIn auth,
          ab_User = toUserBody g (Some (auth_User auth))\<rparr>))"

definition httperrors_Respond :: "'u gateway \<Rightarrow> goerr \<Rightarrow> http_reply" where
  "httperrors_Respond g err =
     (case Respond (gw_status g) err of (code, body) \<Rightarrow> JSON code (ErrorBody body))"

section \<open>Calls of the user service\<close>

text \<open>\<open>client.ForwardAuth\<close> on the outgoing metadata.\<close>

definition ForwardAuth :: "(string \<times> string list) list \<Rightarrow> string \<Rightarrow> (string \<times> string list) list" where
  "ForwardAuth md authHeader = (if authHeader = '''' then md else md @ [(''authorization'', [authHeader])])"

definition incoming :: "'u gateway \<Rightarrow> (string \<times> string list) list \<Rightarrow> reqctx" where
  "incoming g md =
     \<lparr>ctx_claims = None, ctx_metadata = Some (md @ gw_transport g), ctx_peer = Some (gw_addr g)\<rparr>"

type_synonym ('d, 'm, 'z, 'y) gw_state = "('d, 'm, (user_db, message, 'z) uenv_scheme, 'y) renv_scheme"

definition call_user ::
  "(user_db, message, 'z) uenv_scheme gateway \<Rightarrow> (string \<times> string list) list \<Rightarrow> string \<Rightarrow>
   (reqctx \<Rightarrow> ('z, 'a) user_comp) \<Rightarrow> (('d, 'm, 'z, 'y) gw_state, 'a) comp" where
  "call_user g md fullMethod h =
     extern (on_remote (user_NewServer (gw_user_rate g) (us_jwt (gw_user g)) (us_tokens (gw_user g)) fullMethod
       (\<lambda>ctx. returns (h ctx)) (incoming g md)))"

definition userClient_Register where
  "userClient_Register g md req =
     call_user g md ''/user.UserService/Register'' (\<lambda>_. grpc_Register (gw_user g) (Some req))"

definition userClient_PasswordLogin where
  "userClient_PasswordLogin g md identifier password =
     call_user g md ''/user.UserService/PasswordLogin''
       (\<lambda>_. grpc_PasswordLogin (gw_user g) (Some (identifier, password)))"

definition userClient_OTPLogin where
  "userClient_OTPLogin g md phone =
     call_user g md ''/user.UserService/OTPLogin'' (\<lambda>_. grpc_OTPLogin (gw_user g) (Some phone))"

definition userClient_VerifyOTP where
  "userClient_VerifyOTP g md challengeID code =
     call_user g md ''/user.UserService/VerifyOTP''
       (\<lambda>_. grpc_VerifyOTP (gw_user g) (Some (challengeID, code)))"

definition userClient_RefreshToken where
  "userClient_RefreshToken g md token =
     call_user g md ''/user.UserService/RefreshToken'' (\<lambda>_. grpc_RefreshToken (gw_user g) (Some token))"

definition userClient_GetUser where
  "userClient_GetUser g md uid =
     call_user g md ''/user.UserService/GetUser'' (\<lambda>ctx. grpc_GetUser (gw_user g) ctx (Some uid))"

definition userClient_Logout where
  "userClient_Logout g md token =
     call_user g md ''/user.UserService/Logout'' (\<lambda>_. grpc_Logout (gw_user g) (Some token))"

section \<open>The endpoints\<close>

definition gw_Register ::
  "(user_db, message, 'z) uenv_scheme gateway \<Rightarrow> http_req \<Rightarrow> ('d, 'm, 'z, 'y) gw_state gw_act" where
  "gw_Register g rq =
     (case bind_register g (rq_body rq) of
        None \<Rightarrow> answer (JSON 400 (errorResponse ''invalid request body''))
      | Some body \<Rightarrow>
          after_call (userClient_Register g [] \<lparr>rg_PhoneNumber = rb_PhoneNumber body,
              rg_Email = rb_Email body, rg_Password = rb_Password body, rg_FullName = rb_FullName body\<rparr>)
            (\<lambda>r. case r of Inl err \<Rightarrow> httperrors_Respond g err | Inr resp \<Rightarrow> respondWithAuth g resp))"

definition gw_PasswordLogin ::
  "(user_db, message, 'z) uenv_scheme gateway \<Rightarrow> http_req \<Rightarrow> ('d, 'm, 'z, 'y) gw_state gw_act" where
  "gw_PasswordLogin g rq =
     (case bind_password g (rq_body rq) of
        None \<Rightarrow> answer (JSON 400 (errorResponse ''invalid request body''))
      | Some body \<Rightarrow>
          after_call (userClient_PasswordLogin g [] (pl_Identifier body) (pl_Password body))
            (\<lambda>r. case r of Inl err \<Rightarrow> httperrors_Respond g err | Inr resp \<Rightarrow> respondWithAuth g resp))"

definition gw_OTPLogin ::
  "(user_db, message, 'z) uenv_scheme gateway \<Rightarrow> http_req \<Rightarrow> ('d, 'm, 'z, 'y) gw_state gw_act" where
  "gw_OTPLogin g rq =
     (case bind_otp g (rq_body rq) of
        None \<Rightarrow> answer (JSON 400 (errorResponse ''invalid request body''))
      | Some phone \<Rightarrow>
          after_call (userClient_OTPLogin g [] phone)
            (\<lambda>r. case r of
               Inl err \<Rightarrow> httperrors_Respond g err
             | Inr resp \<Rightarrow> JSON 200 (OTPBody \<lparr>ob_ChallengeID = ChallengeId resp,
                 ob_ExpiresInSeconds = ExpiresInSeconds resp\<rparr>)))"

definition gw_VerifyOTP ::
  "(user_db, message, 'z) uenv_scheme gateway \<Rightarrow> http_req \<Rightarrow> ('d, 'm, 'z, 'y) gw_state gw_act" where
  "gw_VerifyOTP g rq =
     (case bind_verify g (rq_body rq) of
        None \<Rightarrow> answer (JSON 400 (errorResponse ''invalid request body''))
      | Some body \<Rightarrow>
          after_call (userClient_VerifyOTP g [] (vb_ChallengeID body) (vb_Code body))
            (\<lambda>r. case r of Inl err \<Rightarrow> httperrors_Respond g err | Inr resp \<Rightarrow> respondWithAuth g resp))"

definition gw_RefreshToken ::
  "(user_db, message, 'z) uenv_scheme gateway \<Rightarrow> http_req \<Rightarrow> ('d, 'm, 'z, 'y) gw_state gw_act" where
  "gw_RefreshToken g rq =
     (case rq_Cookie rq refreshCookieName of
        None \<Rightarrow> answer (JSON 401 (errorResponse ''missing refresh token''))
      | Some refreshToken \<Rightarrow>
          if refreshToken = '''' then answer (JSON 401 (errorResponse ''missing refresh token''))
          else after_call (userClient_RefreshToken g [] refreshToken)
            (\<lambda>r. case r of
               Inl err \<Rightarrow> clearRefreshCookie g (httperrors_Respond g err)
             | Inr resp \<Rightarrow> respondWithAuth g resp))"

definition gw_Logout ::
  "(user_db, message, 'z) uenv_scheme gateway \<Rightarrow> http_req \<Rightarrow> ('d, 'm, 'z, 'y) gw_state gw_act" where
  "gw_Logout g rq =
     (let refreshToken = (case rq_Cookie rq refreshCookieName of None \<Rightarrow> '''' | Some token \<Rightarrow> token);
          done = clearRefreshCookie g (JSON 200 (messageResponse ''logged out'')) in
      if refreshToken = '''' then answer done
      else after_call (userClient_Logout g [] refreshToken)
        (\<lambda>r. case r of Inl err \<Rightarrow> clearRefreshCookie g (httperrors_Respond g err) | Inr _ \<Rightarrow> done))"

definition gw_GetUser ::
  "(user_db, message, 'z) uenv_scheme gateway \<Rightarrow> http_req \<Rightarrow> ('d, 'm, 'z, 'y) gw_state gw_act" where
  "gw_GetUser g rq =
     after_call (userClient_GetUser g (ForwardAuth [] (rq_GetHeader rq ''Authorization'')) (rq_id rq))
       (\<lambda>r. case r of
          Inl err \<Rightarrow> httperrors_Respond g err
        | Inr resp \<Rightarrow> JSON 200 (UserBody (toUserBody g (Some resp))))"

section \<open>The limit and the routes\<close>

definition RateLimit :: "'s rate_lib \<Rightarrow> Limit \<Rightarrow> string \<Rightarrow> (http_req \<Rightarrow> 's gw_act) \<Rightarrow> http_req \<Rightarrow> 's gw_act" where
  "RateLimit rate lim keyPrefix handler rq s =
     (case Check rate (keyPrefix @ '':'' @ rq_ClientIP rq) lim s of
        (Inl err, s') \<Rightarrow> handler rq s'
      | (Inr allowed, s') \<Rightarrow>
          if \<not> Allowed allowed
          then answer (JSON 429 (errorResponse ''too many requests, please try again later'')) s'
          else handler rq s')"

definition registerAuthRoutes ::
  "('d, 'm, 'z, 'y) gw_state rate_lib \<Rightarrow> (user_db, message, 'z) uenv_scheme gateway \<Rightarrow>
   ((string \<times> string) \<times> (http_req \<Rightarrow> ('d, 'm, 'z, 'y) gw_state gw_act)) list" where
  "registerAuthRoutes rate g =
     (let limited = RateLimit rate (PerMinute 10) ''auth'' in
      [((''POST'', ''/api/v1/auth/register''), limited (gw_Register g)),
       ((''POST'', ''/api/v1/auth/login/password''), limited (gw_PasswordLogin g)),
       ((''POST'', ''/api/v1/auth/login/otp''), limited (gw_OTPLogin g)),
       ((''POST'', ''/api/v1/auth/login/otp/verify''), limited (gw_VerifyOTP g)),
       ((''POST'', ''/api/v1/auth/refresh''), limited (gw_RefreshToken g)),
       ((''POST'', ''/api/v1/auth/logout''), limited (gw_Logout g)),
       ((''GET'', ''/api/v1/users/:id''), gw_GetUser g)])"

text \<open>The router finds the registered pattern a request matches; the handler of the Swagger pages is a library's.\<close>

definition Setup where
  "Setup rate g swagger =
     ((''GET'', ''/swagger/*any''), swagger) #
     ((''GET'', ''/health''), \<lambda>_. answer (JSON 200 (HealthBody ''ok''))) # registerAuthRoutes rate g"

end
