(* ===== verification/UserProps.thy ===== *)
theory UserProps
  imports UserService
begin

text \<open>
  What the user service guarantees: who can log in and with what, that refresh tokens and one-time
  codes are exchanged once, that no request makes an administrator, whose profile is shown to whom,
  and which code reaches which phone.
\<close>

section \<open>The operations of the service\<close>

datatype user_op =
    URegister "RegisterRequest option"
  | UPasswordLogin "(string \<times> string) option"
  | UOTPLogin "string option"
  | UVerifyOTP "(string \<times> string) option"
  | URefreshToken "string option"
  | UGetUser reqctx "string option"
  | ULogout "string option"

text \<open>An operation answers with tokens, or with something else.\<close>

definition tokens_of :: "('s, pb_AuthResponse) comp \<Rightarrow> ('s, pb_AuthResponse option) comp" where
  "tokens_of m = bindE m (\<lambda>a. ret (Some a))"

definition no_tokens :: "('s, 'a) comp \<Rightarrow> ('s, pb_AuthResponse option) comp" where
  "no_tokens m = bindE m (\<lambda>_. ret None)"

fun user_step :: "user_svc \<Rightarrow> user_op \<Rightarrow> ('z, pb_AuthResponse option) user_comp" where
  "user_step c (URegister req) = tokens_of (svc_Register c req)"
| "user_step c (UPasswordLogin req) = tokens_of (svc_PasswordLogin c req)"
| "user_step c (UOTPLogin req) = no_tokens (svc_OTPLogin c req)"
| "user_step c (UVerifyOTP req) = tokens_of (svc_VerifyOTP c req)"
| "user_step c (URefreshToken req) = tokens_of (svc_RefreshToken c req)"
| "user_step c (UGetUser ctx req) = no_tokens (svc_GetUser c ctx req)"
| "user_step c (ULogout req) = no_tokens (svc_Logout c req)"

lemma keeps_wrappers [keeps_rules]: "keeps I m \<Longrightarrow> keeps I (tokens_of m)" "keeps I n \<Longrightarrow> keeps I (no_tokens n)"
  unfolding tokens_of_def no_tokens_def by (intro keeps_rules; assumption)+

lemma tokens_of_Inr: "tokens_of m s = (Inr x, s') \<longleftrightarrow> (\<exists>a. m s = (Inr a, s') \<and> x = Some a)"
  by (auto simp: tokens_of_def bindE_Inr ret_eq)

lemma no_tokens_Inr: "no_tokens m s = (Inr x, s') \<longleftrightarrow> (\<exists>a. m s = (Inr a, s') \<and> x = None)"
  by (auto simp: no_tokens_def bindE_Inr ret_eq)

section \<open>What every operation keeps of the tables\<close>

lemma keeps_user_primitives [keeps_rules]:
  "keeps_db J rand_Read" "keeps_db J draw_otp"
  "keeps_db J (tm_GenerateAccessToken lib m uid role)" "keeps_db J (PublishUserOTPRequested c u p code)"
proof -
  show "keeps_db J rand_Read" "keeps_db J draw_otp"
    by (simp_all add: keeps_def rand_Read_def draw_otp_def)
  show "keeps_db J (tm_GenerateAccessToken lib m uid role)"
    unfolding tm_GenerateAccessToken_def GenerateAccessToken_def by (intro keeps_rules)
  show "keeps_db J (PublishUserOTPRequested c u p code)"
    unfolding PublishUserOTPRequested_def by (intro keeps_rules)
qed

context user_db_invariant
begin

lemma keeps_issueTokens: "keeps_db J (issueTokens c u)"
  unfolding issueTokens_def tokens_GenerateRefreshToken_def
  by (intro keeps_rules keeps_rt_Create)

lemma keeps_user_step:
  assumes "us_cfg c = cfg"
  shows "keeps_db J (user_step c opn)"
proof (cases opn)
  case (URegister req)
  then show ?thesis
    by (auto simp: svc_Register_def assms intro!: keeps_rules keeps_user_Create keeps_issueTokens)
next
  case (UPasswordLogin req)
  then show ?thesis
    by (auto simp: svc_PasswordLogin_def check_password_def Let_def
        intro!: keeps_rules keeps_issueTokens)
next
  case (UOTPLogin req)
  then show ?thesis
    by (auto simp: svc_OTPLogin_def intro!: keeps_rules)
next
  case (UVerifyOTP req)
  then show ?thesis
    by (auto simp: svc_VerifyOTP_def intro!: keeps_rules keeps_issueTokens)
next
  case (URefreshToken req)
  then show ?thesis
    by (auto simp: svc_RefreshToken_def intro!: keeps_rules keeps_issueTokens keeps_rt_Revoke)
next
  case (UGetUser ctx req)
  then show ?thesis
    by (auto simp: svc_GetUser_def intro!: keeps_rules)
next
  case (ULogout req)
  then show ?thesis
    by (auto simp: svc_Logout_def intro!: keeps_rules keeps_rt_Revoke)
qed

end


section \<open>Refresh tokens are exchanged once\<close>

definition token_spent :: "string \<Rightarrow> user_db \<Rightarrow> bool" where
  "token_spent h d \<longleftrightarrow> (\<exists>rt \<in> set (refresh_tokens d). t_TokenHash rt = h \<and> t_Revoked rt)"

interpretation spent: user_db_invariant cfg "token_spent h" for cfg h
proof unfold_locales
  fix d :: user_db and row :: User
  assume "token_spent h d"
  then show "token_spent h (snd (on_users (sql_insert (users_schema cfg) row) d))"
    by (simp add: token_spent_def)
next
  fix d :: user_db and rt :: RefreshToken
  assume "token_spent h d"
  then show "token_spent h (snd (insert_token rt d))"
    using sql_insert_superset [of "refresh_tokens d" tokens_schema rt]
    by (auto simp: token_spent_def insert_token_def)
next
  fix d :: user_db and tid
  assume "token_spent h d"
  then obtain rt where rt: "rt \<in> set (refresh_tokens d)" "t_TokenHash rt = h" "t_Revoked rt"
    by (auto simp: token_spent_def)
  from sql_update_image [OF rt(1), of tokens_schema "revoke_where tid" revoke_set] obtain r' where
    "r' \<in> set (snd (sql_update tokens_schema (revoke_where tid) revoke_set (refresh_tokens d)))"
    "t_TokenHash r' = h" "t_Revoked r'"
    using rt by (auto simp: revoke_set_def)
  then show "token_spent h (snd (on_tokens (sql_update tokens_schema (revoke_where tid) revoke_set) d))"
    by (auto simp: token_spent_def)
qed

lemma rt_GetByTokenHash_Inr:
  assumes "rt_GetByTokenHash h s = (Inr rt, s')"
  shows "rt \<in> set (refresh_tokens (db s)) \<and> t_TokenHash rt = h \<and> db s' = db s"
  using assms
  by (auto simp: rt_GetByTokenHash_def bindS_sum_iff ret_eq fail_eq dest!: query_Inr
      split: if_splits option.splits dest: tbl_get_SomeD)

lemma rt_Revoke_Inr:
  assumes "rt_Revoke tid s = (Inr (), s')"
  shows "\<exists>rt \<in> set (refresh_tokens (db s)). t_ID rt = tid \<and> \<not> t_Revoked rt \<and>
    rt\<lparr>t_Revoked := True\<rparr> \<in> set (refresh_tokens (db s'))"
proof -
  from assms obtain n s1 where
    q: "query (on_tokens (sql_update tokens_schema (revoke_where tid) revoke_set)) s = (Inr n, s1)"
    and n: "n \<noteq> 0" and s1: "s' = s1"
    by (auto simp: rt_Revoke_def bindE_Inr wrapE_Inr ret_eq fail_eq split: if_splits)
  from query_Inr [OF q] have "sql_update tokens_schema (revoke_where tid) revoke_set (refresh_tokens (db s)) =
      (Inr n, refresh_tokens (db s'))"
    by (auto simp: on_tokens_def s1 split: prod.splits)
      (metis user_db.select_convs(2) user_db.surjective user_db.update_convs(2))
  from sql_update_hit [OF this n] show ?thesis by (auto simp: revoke_where_def revoke_set_def)
qed

lemma RefreshToken_spends:
  assumes "user_db_ok (us_cfg c) (db s)" and "svc_RefreshToken c (Some tok) s = (Inr a, s')"
  defines "h \<equiv> HashRefreshToken (us_Sum256 c) tok"
  shows "\<not> token_spent h (db s) \<and> token_spent h (db s')"
proof -
  from assms(2) obtain rt s1 s2 s3 s4 u s5 tks s6 where
    get: "rt_GetByTokenHash h s = (Inr rt, s1)" and now: "time_Now s1 = (Inr (clock s1 (ticks s1)), s2)" and
    valid: "rt_IsValid (clock s1 (ticks s1)) rt" and
    revoke: "rt_Revoke (t_ID rt) s2 = (Inr (), s3)" and
    user: "repo_user_GetByID (t_UserID rt) s3 = (Inr u, s4)" and
    issue: "issueTokens c u s4 = (Inr tks, s')"
    by (auto simp: svc_RefreshToken_def h_def bindE_Inr bindS_sum_iff time_Now_def fail_eq ret_eq
        split: if_splits)
  note rt = rt_GetByTokenHash_Inr [OF get]
  have db2: "db s2 = db s" using now rt by (auto simp: time_Now_def)
  have keys: "distinct (map t_TokenHash (refresh_tokens (db s)))" "distinct (map t_ID (refresh_tokens (db s)))"
    using assms(1) by (auto simp: user_db_ok_def tbl_wf_def)
  have "\<not> t_Revoked rt" using valid by (simp add: rt_IsValid_def)
  then have before: "\<not> token_spent h (db s)"
    using rt keys(1) by (auto simp: token_spent_def distinct_map inj_on_def)
  from rt_Revoke_Inr [OF revoke] obtain r where
    r: "r \<in> set (refresh_tokens (db s))" "t_ID r = t_ID rt"
      "r\<lparr>t_Revoked := True\<rparr> \<in> set (refresh_tokens (db s3))"
    unfolding db2 by blast
  with rt keys(2) have "r = rt" by (auto simp: distinct_map inj_on_def)
  with r have "rt\<lparr>t_Revoked := True\<rparr> \<in> set (refresh_tokens (db s3))" by simp
  then have "token_spent h (db s3)" unfolding token_spent_def by (rule bexI [rotated]) (simp add: rt)
  then have "token_spent h (db s4)"
    using keepsD [OF keeps_user_reads(1) [where J = "token_spent h"] _ user] by blast
  then have "token_spent h (db s')"
    using keepsD [OF spent.keeps_issueTokens _ issue] by blast
  with before show ?thesis by blast
qed

interpretation rotation: one_shot "\<lambda>s. user_db_ok (us_cfg c) (db s)" "\<lambda>_. True"
    "\<lambda>s. token_spent (HashRefreshToken (us_Sum256 c) tok) (db s)" "user_step c"
    "\<lambda>opn. opn = URefreshToken (Some tok)" for c tok
proof unfold_locales
  fix s :: "(user_db, message, 'a) uenv_scheme" and opn
  assume "user_db_ok (us_cfg c) (db s)"
  then show "user_db_ok (us_cfg c) (db (snd (user_step c opn s)))"
    by (rule keepsI_snd [OF constraints.keeps_user_step [OF refl]])
next
  fix s s' :: "(user_db, message, 'a) uenv_scheme" and opn a
  assume "user_db_ok (us_cfg c) (db s)" "opn = URefreshToken (Some tok)" "user_step c opn s = (Inr a, s')"
  then show "\<not> token_spent (HashRefreshToken (us_Sum256 c) tok) (db s) \<and>
      token_spent (HashRefreshToken (us_Sum256 c) tok) (db s')"
    using RefreshToken_spends [of c s tok] by (simp add: tokens_of_Inr) blast
next
  fix s :: "(user_db, message, 'a) uenv_scheme" and opn
  assume "token_spent (HashRefreshToken (us_Sum256 c) tok) (db s)"
  then show "token_spent (HashRefreshToken (us_Sum256 c) tok) (db (snd (user_step c opn s)))"
    by (rule keepsI_snd [OF spent.keeps_user_step [OF refl]])
qed simp


section \<open>Who is handed tokens\<close>

definition row_order_ok :: "users_cfg \<Rightarrow> bool" where
  "row_order_ok cfg \<longleftrightarrow> (\<forall>us. set (row_order cfg us) = set us)"

lemma repo_user_Create_Inr:
  assumes "repo_user_Create cfg (Some u) s = (Inr row, s')"
  shows "row \<in> set (users (db s')) \<and> users (db s') = users (db s) @ [row] \<and> u_Role row = u_Role u \<and>
    u_Email row = u_Email u \<and> u_PhoneNumber row = u_PhoneNumber u \<and> u_PasswordHash row = u_PasswordHash u"
proof -
  from assms obtain now uid s1 where
    q: "query (on_users (sql_insert (users_schema cfg) (u\<lparr>u_ID := uid, u_CreatedAt := now, u_UpdatedAt := now\<rparr>)))
        s1 = (Inr (), s')" and row: "row = u\<lparr>u_ID := uid, u_CreatedAt := now, u_UpdatedAt := now\<rparr>"
    and s1: "db s1 = db s"
    by (auto simp: repo_user_Create_def bindE_Inr bindS_sum_iff time_Now_def uuid_New_def ret_eq fail_eq Let_def
        split: if_splits)
  from query_Inr [OF q] have
    ins: "sql_insert (users_schema cfg) row (users (db s)) = (Inr (), users (db s'))"
    by (auto simp: on_users_def s1 row split: prod.splits)
      (metis user_db.select_convs(1) user_db.surjective user_db.update_convs(1))
  have "users (db s') = users (db s) @ [row]" using sql_insert_cases [OF ins] by simp
  with row show ?thesis by simp
qed

lemma repo_user_GetByID_Inr:
  assumes "repo_user_GetByID uid s = (Inr u, s')"
  shows "\<exists>u0 \<in> set (users (db s)). u_ID u0 = uid \<and> u = u0\<lparr>u_PasswordHash := '''', u_UpdatedAt := zero_time\<rparr> \<and> db s' = db s"
proof -
  from assms have "(case tbl_get u_ID (users (db s)) uid of None \<Rightarrow> Inl ErrNoRows
      | Some u \<Rightarrow> Inr (u\<lparr>u_PasswordHash := '''', u_UpdatedAt := zero_time\<rparr>)) = Inr u" and "db s' = db s"
    by (auto simp: repo_user_GetByID_def bindS_sum_iff ret_eq fail_eq dest!: query_Inr split: if_splits)
  then show ?thesis
    by (cases "tbl_get u_ID (users (db s)) uid") (auto dest: tbl_get_SomeD intro!: bexI)
qed

lemma repo_GetByEmailOrPhone_Inr:
  assumes "repo_GetByEmailOrPhone cfg ident s = (Inr u, s')" and "row_order_ok cfg"
  shows "u \<in> set (users (db s)) \<and> answers_to cfg ident u \<and> db s' = db s \<and>
    first_answering cfg ident (users (db s)) = Inr u"
proof -
  from assms(1) have q: "first_answering cfg ident (users (db s)) = Inr u" "db s' = db s"
    by (auto simp: repo_GetByEmailOrPhone_def bindS_sum_iff ret_eq fail_eq dest!: query_Inr split: if_splits)
  then have "u \<in> set (row_order cfg [u \<leftarrow> users (db s). answers_to cfg ident u])"
    by (auto simp: first_answering_def split: list.splits)
  with assms(2) q show ?thesis by (auto simp: row_order_ok_def)
qed

text \<open>What \<open>issueTokens\<close> leaves behind: a signed access token and a refresh token on file.\<close>

lemma rt_Create_Inr:
  assumes "rt_Create (Some rt) s = (Inr rt', s')"
  shows "users (db s') = users (db s) \<and> t_UserID rt \<in> u_ID ` set (users (db s)) \<and>
    (\<exists>row \<in> set (refresh_tokens (db s')). t_TokenHash row = t_TokenHash rt \<and> t_UserID row = t_UserID rt \<and>
      \<not> t_Revoked row)"
proof -
  from assms obtain row s1 where
    q: "query (insert_token row) s1 = (Inr (), s')" and s1: "db s1 = db s"
    and row: "t_TokenHash row = t_TokenHash rt" "t_UserID row = t_UserID rt" "\<not> t_Revoked row"
    by (auto simp: rt_Create_def bindE_Inr bindS_sum_iff time_Now_def uuid_New_def ret_eq fail_eq Let_def
        split: if_splits)
  from query_Inr [OF q] have "t_UserID row \<in> u_ID ` set (users (db s))"
    and ins: "on_tokens (sql_insert tokens_schema row) (db s) = (Inr (), db s')"
    by (auto simp: insert_token_def s1 split: if_splits)
  obtain t where t: "sql_insert tokens_schema row (refresh_tokens (db s)) = (Inr (), t)"
    and db: "db s' = (db s)\<lparr>refresh_tokens := t\<rparr>"
    using ins by (auto simp: on_tokens_def split: prod.splits)
  have "row \<in> set t" using sql_insert_cases [OF t] by auto
  with db row \<open>t_UserID row \<in> _\<close> show ?thesis by auto
qed

lemma tokens_GenerateRefreshToken_Inr:
  "tokens_GenerateRefreshToken s = (Inr r, s') \<Longrightarrow> s' = s\<lparr>draws := draws s + 1\<rparr>"
  by (auto simp: tokens_GenerateRefreshToken_def rand_Read_def bindS_iff of_sum_Inr)

lemma issueTokens_Inr:
  assumes "issueTokens c u s = (Inr (access, refresh, expires), s')"
  shows "users (db s') = users (db s) \<and> u_ID u \<in> u_ID ` set (users (db s)) \<and> secret (us_tokens c) \<noteq> '''' \<and>
    (\<exists>row \<in> set (refresh_tokens (db s')). t_UserID row = u_ID u \<and> \<not> t_Revoked row \<and>
       t_TokenHash row = HashRefreshToken (us_Sum256 c) refresh) \<and>
    (\<exists>iat expiry. SignedString (us_jwt c) (secret (us_tokens c))
       \<lparr>UserID = uuid_String (us_ul c) (u_ID u), Role = u_Role u, IssuedAt = iat, ExpiresAt = expiry\<rparr> = Inr access)"
proof -
  from assms obtain s1 rt where
    sgn: "tm_GenerateAccessToken (us_jwt c) (us_tokens c) (uuid_String (us_ul c) (u_ID u)) (u_Role u) s =
      (Inr access, s1)" and
    rt: "rt_Create (Some \<lparr>t_ID = uuid_Nil, t_UserID = u_ID u,
        t_TokenHash = HashRefreshToken (us_Sum256 c) refresh,
        t_ExpiresAt = clock s1 (ticks s1) + us_refreshTokenTTL c,
        t_Revoked = False, t_CreatedAt = zero_time\<rparr>) (s1\<lparr>draws := draws s1 + 1, ticks := ticks s1 + 1\<rparr>) = (Inr rt, s')"
    by (auto simp: issueTokens_def bindE_Inr time_Now_def ret_eq Let_def
        dest!: tokens_GenerateRefreshToken_Inr)
  note g = tm_GenerateAccessToken_Inr [OF sgn]
  then have "db s1 = db s" by simp
  with rt_Create_Inr [OF rt] g show ?thesis by auto
qed


text \<open>
  Every operation that answers with tokens ends by issuing them for an account on file.
\<close>

lemma toProtoAuth_zeroed [simp]:
  "toProtoAuth ul (u\<lparr>u_PasswordHash := h, u_UpdatedAt := t\<rparr>) tks = toProtoAuth ul u tks"
  by (simp add: toProtoAuth_def toProtoUser_def)

lemma issueTokens_zeroed [simp]:
  "issueTokens c (u\<lparr>u_PasswordHash := h, u_UpdatedAt := t\<rparr>) = issueTokens c u"
  by (simp add: issueTokens_def)

lemma user_step_issues:
  assumes "user_step c opn s = (Inr (Some auth), s')" and "row_order_ok (us_cfg c)"
  shows "\<exists>u s1 tks. u \<in> set (users (db s1)) \<and> issueTokens c u s1 = (Inr tks, s') \<and>
    auth = toProtoAuth (us_ul c) u tks"
proof (cases opn)
  case (URegister req)
  with assms(1) show ?thesis
    by (auto simp: tokens_of_Inr svc_Register_def bindE_Inr of_sum_Inr fail_eq ret_eq Let_def
        split: option.splits if_splits dest!: repo_user_Create_Inr) (metis in_set_conv_decomp)
next
  case (UPasswordLogin req)
  with assms(1) show ?thesis
    by (auto simp: tokens_of_Inr svc_PasswordLogin_def check_password_def bindE_Inr bindS_sum_iff fail_eq
        ret_eq Let_def split: option.splits if_splits dest!: repo_GetByEmailOrPhone_Inr [OF _ assms(2)]) metis
next
  case (UOTPLogin req)
  with assms(1) show ?thesis by (simp add: no_tokens_Inr)
next
  case (UVerifyOTP req)
  with assms(1) show ?thesis
    by (auto simp: tokens_of_Inr svc_VerifyOTP_def bindE_Inr fail_eq ret_eq Let_def
        split: option.splits if_splits dest!: repo_user_GetByID_Inr) metis
next
  case (URefreshToken req)
  with assms(1) show ?thesis
    by (auto simp: tokens_of_Inr svc_RefreshToken_def bindE_Inr bindS_sum_iff fail_eq ret_eq Let_def
        split: option.splits if_splits dest!: repo_user_GetByID_Inr) metis
next
  case (UGetUser ctx req)
  with assms(1) show ?thesis by (simp add: no_tokens_Inr)
next
  case (ULogout req)
  with assms(1) show ?thesis by (simp add: no_tokens_Inr)
qed


text \<open>
  C19: tokens are handed out for an account on file only. The access token reads, as long as it lives,
  as that account's id and role, the answer shows that account, and the refresh token is on file under
  its hash, belongs to that account and is not revoked.
\<close>

theorem tokens_name_an_account:
  assumes "user_step c opn s = (Inr (Some auth), s')" and "row_order_ok (us_cfg c)" and "jwt_ok (us_jwt c)"
    and "AccessToken auth \<noteq> ''''"
  shows "\<exists>u \<in> set (users (db s')). auth_User auth = toProtoUser (us_ul c) u \<and>
    (\<exists>claims. UserID claims = uuid_String (us_ul c) (u_ID u) \<and> Role claims = u_Role u \<and>
      (\<forall>t :: (user_db, message, 'z) uenv_scheme. clock t (ticks t) < ExpiresAt claims * second \<longrightarrow>
        fst (tm_ParseAccessToken (us_jwt c) (us_tokens c) (AccessToken auth) t) = Inr claims)) \<and>
    (\<exists>row \<in> set (refresh_tokens (db s')). t_UserID row = u_ID u \<and> \<not> t_Revoked row \<and>
      t_TokenHash row = HashRefreshToken (us_Sum256 c) (RefreshTokenText auth))"
proof -
  from user_step_issues [OF assms(1,2)] obtain u s1 acc rfr ex where
    u: "u \<in> set (users (db s1))" and issue: "issueTokens c u s1 = (Inr (acc, rfr, ex), s')" and
    auth: "auth = toProtoAuth (us_ul c) u (acc, rfr, ex)"
    by (metis prod_cases3)
  from issueTokens_Inr [OF issue] obtain iat expiry where
    users: "users (db s') = users (db s1)" and sec: "secret (us_tokens c) \<noteq> ''''" and
    sgn: "SignedString (us_jwt c) (secret (us_tokens c))
       \<lparr>UserID = uuid_String (us_ul c) (u_ID u), Role = u_Role u, IssuedAt = iat, ExpiresAt = expiry\<rparr> = Inr acc"
    by blast
  have "acc \<noteq> ''''" using assms(4) auth by (simp add: toProtoAuth_def)
  note parse = tm_ParseAccessToken_signed [OF assms(3) sgn sec this]
  have "\<exists>claims. UserID claims = uuid_String (us_ul c) (u_ID u) \<and> Role claims = u_Role u \<and>
      (\<forall>t :: (user_db, message, 'z) uenv_scheme. clock t (ticks t) < ExpiresAt claims * second \<longrightarrow>
        fst (tm_ParseAccessToken (us_jwt c) (us_tokens c) acc t) = Inr claims)"
    by (rule exI [where x = "\<lparr>UserID = uuid_String (us_ul c) (u_ID u), Role = u_Role u, IssuedAt = iat,
          ExpiresAt = expiry\<rparr>"]) (simp add: parse)
  with issueTokens_Inr [OF issue] u users auth show ?thesis
    by (intro bexI [where x = u]) (auto simp: toProtoAuth_def)
qed

section \<open>No request makes an administrator\<close>

definition admins_among :: "uuid set \<Rightarrow> user_db \<Rightarrow> bool" where
  "admins_among A d \<longleftrightarrow> (\<forall>u \<in> set (users d). User_IsAdmin u \<longrightarrow> u_ID u \<in> A)"

interpretation admins: user_db_invariant cfg "admins_among A" for cfg A
proof unfold_locales
  fix d :: user_db and row :: User
  assume "admins_among A d" "u_Role row = RoleMember"
  then show "admins_among A (snd (on_users (sql_insert (users_schema cfg) row) d))"
    by (auto simp: admins_among_def User_IsAdmin_def role_defs sql_insert_def split: option.splits if_splits)
qed (auto simp: admins_among_def insert_token_def)

text \<open>
  C18: no sequence of requests makes an administrator. Whatever is asked of the service, every account
  that is an administrator's afterwards was one before, and an answer with tokens, or the profile that
  is then asked for, shows the administrator's role for such an account only.
\<close>

theorem no_request_makes_an_administrator:
  assumes "run_ops (user_step c) ops s = (rs, s')" and "row_order_ok (us_cfg c)"
  defines "admins \<equiv> u_ID ` {u \<in> set (users (db s)). User_IsAdmin u}"
  shows "(\<forall>u \<in> set (users (db s')). User_IsAdmin u \<longrightarrow> u_ID u \<in> admins) \<and>
    (\<forall>opn auth. (opn, Inr (Some auth)) \<in> set rs \<longrightarrow> pbu_Role (auth_User auth) = ROLE_ADMIN \<longrightarrow>
      (\<exists>i \<in> admins. pbu_Id (auth_User auth) = uuid_String (us_ul c) i)) \<and>
    (\<forall>pb s''. svc_GetUser c ctx req s' = (Inr pb, s'') \<longrightarrow> pbu_Role pb = ROLE_ADMIN \<longrightarrow>
      (\<exists>i \<in> admins. pbu_Id pb = uuid_String (us_ul c) i))"
proof -
  have step: "admins_among admins (db (snd (user_step c opn t)))" if "admins_among admins (db t)" for opn t
    using keepsI_snd [OF admins.keeps_user_step [OF refl]] that by blast
  have start: "admins_among admins (db s)" by (auto simp: admins_among_def admins_def)
  have answers: "\<exists>i \<in> admins. pbu_Id (auth_User auth) = uuid_String (us_ul c) i"
    if "admins_among admins (db t)" "user_step c opn t = (Inr (Some auth), t')"
      "pbu_Role (auth_User auth) = ROLE_ADMIN" for t t' :: "(user_db, message, 'a) uenv_scheme" and opn auth
  proof -
    from user_step_issues [OF that(2) assms(2)] obtain u s1 acc rfr ex where
      u: "u \<in> set (users (db s1))" and issue: "issueTokens c u s1 = (Inr (acc, rfr, ex), t')" and
      auth: "auth = toProtoAuth (us_ul c) u (acc, rfr, ex)"
      by (metis prod_cases3)
    have "User_IsAdmin u"
      using that(3) by (auto simp: auth toProtoAuth_def toProtoUser_def toProtoRole_def User_IsAdmin_def
          split: if_splits)
    moreover have "admins_among admins (db t')" using step [OF that(1), of opn] that(2) by simp
    ultimately have "u_ID u \<in> admins"
      using u issueTokens_Inr [OF issue] by (auto simp: admins_among_def)
    then show ?thesis by (auto simp: auth toProtoAuth_def toProtoUser_def)
  qed
  have "\<exists>i \<in> admins. pbu_Id (auth_User auth) = uuid_String (us_ul c) i"
    if "(opn, Inr (Some auth)) \<in> set rs" "pbu_Role (auth_User auth) = ROLE_ADMIN" for opn auth
    using run_ops_answer [of "\<lambda>t. admins_among admins (db t)" "user_step c", OF step start] that answers
    by (metis assms(1) fst_conv)
  moreover have after: "admins_among admins (db s')"
    using run_ops_keeps [of "\<lambda>t. admins_among admins (db t)" "user_step c", OF step start] assms(1)
    by (metis snd_conv)
  moreover have "\<exists>i \<in> admins. pbu_Id pb = uuid_String (us_ul c) i"
    if "svc_GetUser c ctx req s' = (Inr pb, s'')" "pbu_Role pb = ROLE_ADMIN" for pb s''
  proof -
    from that(1) obtain i u where "repo_user_GetByID i s' = (Inr u, s'')" "pb = toProtoUser (us_ul c) u"
      by (auto simp: svc_GetUser_def bindE_Inr ret_eq fail_eq split: option.splits if_splits)
    with repo_user_GetByID_Inr [OF this(1)] that(2) obtain u0 where
      "u0 \<in> set (users (db s'))" "User_IsAdmin u0" "pbu_Id pb = uuid_String (us_ul c) (u_ID u0)"
      by (auto simp: toProtoUser_def toProtoRole_def User_IsAdmin_def split: if_splits)
    with after show ?thesis by (auto simp: admins_among_def)
  qed
  ultimately show ?thesis by (auto simp: admins_among_def)
qed


section \<open>Refresh tokens\<close>

interpretation rev: keyed_where t_ID tokens_schema tid "revoke_where tid" revoke_set for tid
  by unfold_locales (auto simp: revoke_where_def revoke_set_def)

text \<open>Revoking a token on file leaves it revoked, whether it was before or not.\<close>

lemma revoke_spends:
  assumes "user_db_ok cfg d" and "rt \<in> set (refresh_tokens d)"
  shows "token_spent (t_TokenHash rt)
    (snd (on_tokens (sql_update tokens_schema (revoke_where (t_ID rt)) revoke_set) d))"
proof (cases "t_Revoked rt")
  case True
  with assms(2) have "token_spent (t_TokenHash rt) d" by (auto simp: token_spent_def)
  then show ?thesis by (rule spent.revoked)
next
  case False
  let ?t = "refresh_tokens d"
  from assms(1) have wf: "distinct (map t_ID ?t)" "distinct (map t_TokenHash ?t)"
    "pg_text None (t_TokenHash rt) = None"
    using assms(2) by (auto simp: user_db_ok_def tbl_wf_def)
  have get: "tbl_get t_ID ?t (t_ID rt) = Some rt" using tbl_get_in_set [OF wf(1) assms(2)] .
  let ?new = "tbl_set t_ID ?t (t_ID rt) (rt\<lparr>t_Revoked := True\<rparr>)"
  have upd: "upd_rows tokens_schema (revoke_where (t_ID rt)) revoke_set ?t = Inr (1, ?new)"
    using rev.upd_rows_key [OF wf(1), of "t_ID rt"] get False wf(3)
    by (simp add: revoke_where_def revoke_set_def)
  have "map t_TokenHash ?new = map t_TokenHash ?t"
    by (rule upd_rows_map [OF _ upd]) (auto simp: revoke_set_def)
  then have "uniq tokens_schema ?new" using wf by (simp add: map_key_tbl_set)
  then have "snd (sql_update tokens_schema (revoke_where (t_ID rt)) revoke_set ?t) = ?new"
    using upd by (simp add: sql_update_def)
  moreover have "rt\<lparr>t_Revoked := True\<rparr> \<in> set ?new"
    using assms(2) by (auto simp: tbl_set_def image_iff intro!: bexI [where x = rt])
  ultimately show ?thesis
    unfolding token_spent_def on_users_simps by (intro bexI [where x = "rt\<lparr>t_Revoked := True\<rparr>"]) auto
qed

lemma logout_spends:
  assumes "user_db_ok (us_cfg c) (db s)" and "healthy s" and "rt \<in> set (refresh_tokens (db s))"
    and "t_TokenHash rt = HashRefreshToken (us_Sum256 c) tok" and "t_ID rt \<noteq> uuid_Nil" and "tok \<noteq> ''''"
    and "svc_Logout c (Some tok) s = (Inr (), s')"
  shows "token_spent (HashRefreshToken (us_Sum256 c) tok) (db s')"
proof -
  let ?h = "HashRefreshToken (us_Sum256 c) tok" and ?s1 = "s\<lparr>calls := calls s + 1\<rparr>"
  have get: "tbl_get t_TokenHash (refresh_tokens (db s)) ?h = Some rt"
    using tbl_get_in_set [of t_TokenHash, OF _ assms(3)] assms(1,4) by (simp add: user_db_ok_def tbl_wf_def)
  have found: "rt_GetByTokenHash ?h s = (if ?h = '''' then (Inl (New KindInvalidInput ''token hash cannot be empty''), s)
      else (Inr rt, ?s1))"
    using assms(2) get
    by (simp add: rt_GetByTokenHash_def query_def extern_healthy on_db_def bindS_def ret_def fail_def)
  have "?h \<noteq> ''''"
    using assms(6,7) found by (auto simp: svc_Logout_def bindS_def fail_def New_def)
  with found assms(6,7) have s': "s' = snd (rt_Revoke (t_ID rt) ?s1)"
    by (simp add: svc_Logout_def bindS_def ret_def split: prod.splits)
  have "db s' = snd (on_tokens (sql_update tokens_schema (revoke_where (t_ID rt)) revoke_set) (db s))"
    using assms(2,5)
    by (auto simp: s' rt_Revoke_def query_def extern_healthy on_db_def bindE_def bindS_def wrapE_def ret_def
        fail_def split: sum.splits prod.splits)
  with revoke_spends [OF assms(1,3)] show ?thesis by (simp add: assms(4))
qed

text \<open>The successful exchanges of a token in a sequence of requests.\<close>

definition exchanges ::
  "user_svc \<Rightarrow> string \<Rightarrow> user_op list \<Rightarrow> (user_db, message, 'z) uenv_scheme \<Rightarrow> nat" where
  "exchanges c tok ops s = length [x \<leftarrow> fst (run_ops (user_step c) ops s).
     fst x = URefreshToken (Some tok) \<and> (\<exists>auth. snd x = Inr auth)]"

text \<open>
  C10: a refresh token is exchanged at most once. In any sequence of requests, with whatever failures,
  at most one exchange of it succeeds; and none does after a logout with it that met no failure.
\<close>

theorem refresh_token_single_use:
  assumes "user_db_ok (us_cfg c) (db s)"
  shows "exchanges c tok ops s \<le> 1 \<and>
    (\<forall>rt s'. healthy s \<and> rt \<in> set (refresh_tokens (db s)) \<and> t_ID rt \<noteq> uuid_Nil \<and> tok \<noteq> '''' \<and>
       t_TokenHash rt = HashRefreshToken (us_Sum256 c) tok \<and> svc_Logout c (Some tok) s = (Inr (), s') \<longrightarrow>
       exchanges c tok ops s' = 0)"
proof (intro conjI allI impI)
  show "exchanges c tok ops s \<le> 1"
    using rotation.at_most_once [OF assms(1) TrueI, where tok = tok and ops = ops]
    unfolding exchanges_def by (auto split: if_splits)
next
  fix rt s'
  assume h: "healthy s \<and> rt \<in> set (refresh_tokens (db s)) \<and> t_ID rt \<noteq> uuid_Nil \<and> tok \<noteq> '''' \<and>
       t_TokenHash rt = HashRefreshToken (us_Sum256 c) tok \<and> svc_Logout c (Some tok) s = (Inr (), s')"
  then have "token_spent (HashRefreshToken (us_Sum256 c) tok) (db s')"
    using logout_spends [OF assms(1)] by blast
  moreover have "user_db_ok (us_cfg c) (db s')"
    using keepsI_snd [OF constraints.keeps_user_step [OF refl], of c s "ULogout (Some tok)"] h assms(1)
    by (auto simp: no_tokens_def bindE_def bindS_def ret_def)
  ultimately show "exchanges c tok ops s' = 0"
    using rotation.at_most_once [where c = c and s = s' and tok = tok and ops = ops, OF _ TrueI]
    unfolding exchanges_def by simp
qed

section \<open>Passwords\<close>

text \<open>
  C23: a password login succeeds for an account that answers to the identifier and whose stored hash
  matches the password; and a wrong password is answered like an identifier nobody has: with the same
  error, and nothing stored or sent.
\<close>

theorem password_login_needs_password:
  assumes "row_order_ok (us_cfg c)" and "ident \<noteq> ''''" and "pwd \<noteq> ''''"
    and "svc_PasswordLogin c (Some (ident, pwd)) s = (r, s')"
  defines "refused \<equiv> Inl (New KindUnauthenticated ''invalid phone number, email, or password'')"
  shows "(\<forall>auth. r = Inr auth \<longrightarrow> (\<exists>u \<in> set (users (db s)). answers_to (us_cfg c) ident u \<and>
      ComparePassword (us_bcrypt c) (u_PasswordHash u) pwd = None \<and> auth_User auth = toProtoUser (us_ul c) u))
    \<and> (faults s (calls s) = None \<longrightarrow>
        (\<forall>u \<in> set (users (db s)). answers_to (us_cfg c) ident u \<longrightarrow>
           ComparePassword (us_bcrypt c) (u_PasswordHash u) pwd \<noteq> None) \<longrightarrow>
        r = refused \<and> db s' = db s \<and> redis s' = redis s \<and> bus s' = bus s)"
proof (intro conjI impI allI)
  fix auth assume "r = Inr auth"
  with assms(2-4) obtain u s1 tks where find: "repo_GetByEmailOrPhone (us_cfg c) ident s = (Inr u, s1)"
    and cmp: "ComparePassword (us_bcrypt c) (u_PasswordHash u) pwd = None"
    and auth: "auth = toProtoAuth (us_ul c) u tks"
    by (auto simp: svc_PasswordLogin_def check_password_def bindE_Inr bindS_sum_iff fail_eq ret_eq Let_def
        split: if_splits)
  from repo_GetByEmailOrPhone_Inr [OF find assms(1)] cmp auth
  show "\<exists>u \<in> set (users (db s)). answers_to (us_cfg c) ident u \<and>
      ComparePassword (us_bcrypt c) (u_PasswordHash u) pwd = None \<and> auth_User auth = toProtoUser (us_ul c) u"
    by (auto simp: toProtoAuth_def split: prod.splits)
next
  assume ok: "faults s (calls s) = None" and wrong: "\<forall>u \<in> set (users (db s)). answers_to (us_cfg c) ident u \<longrightarrow>
           ComparePassword (us_bcrypt c) (u_PasswordHash u) pwd \<noteq> None"
  have find: "repo_GetByEmailOrPhone (us_cfg c) ident s =
      (case first_answering (us_cfg c) ident (users (db s)) of
         Inl _ \<Rightarrow> (Inl (New KindNotFound ''user not found''), s\<lparr>calls := calls s + 1\<rparr>)
       | Inr u \<Rightarrow> (Inr u, s\<lparr>calls := calls s + 1\<rparr>))"
    using ok assms(2)
    by (auto simp: repo_GetByEmailOrPhone_def query_def extern_def on_db_def bindS_def ret_def fail_def
        first_answering_def errors_Is.simps Let_def split: list.splits)
  have "r = refused \<and> s' = s\<lparr>calls := calls s + 1\<rparr>"
  proof (cases "first_answering (us_cfg c) ident (users (db s))")
    case (Inl e)
    with find assms(2-4) show ?thesis
      by (simp add: svc_PasswordLogin_def bindS_def check_password_def Let_def fail_def refused_def New_def)
  next
    case (Inr u)
    with find have "repo_GetByEmailOrPhone (us_cfg c) ident s = (Inr u, s\<lparr>calls := calls s + 1\<rparr>)" by simp
    from repo_GetByEmailOrPhone_Inr [OF this assms(1)] wrong
    have "ComparePassword (us_bcrypt c) (u_PasswordHash u) pwd \<noteq> None" by blast
    with Inr find assms(2-4) show ?thesis
      by (simp add: svc_PasswordLogin_def bindS_def check_password_def Let_def fail_def refused_def)
  qed
  then show "r = refused" "db s' = db s" "redis s' = redis s" "bus s' = bus s" by simp_all
qed

section \<open>Profiles\<close>

lemma keeps_db_svc_GetUser: "keeps_db J (svc_GetUser c ctx req)"
  unfolding svc_GetUser_def by (intro keeps_rules)

lemma svc_GetUser_Inr:
  assumes "svc_GetUser c ctx (Some uid) s = (Inr p, s')"
  shows "\<exists>claims u. ClaimsFromContext ctx = Some claims \<and> (UserID claims = uid \<or> Role claims = RoleAdmin) \<and>
    u \<in> set (users (db s)) \<and> uuid_Parse (us_ul c) uid = Some (u_ID u) \<and> p = toProtoUser (us_ul c) u"
proof -
  from assms obtain claims i u' where
    "ClaimsFromContext ctx = Some claims" "UserID claims = uid \<or> Role claims = RoleAdmin"
    "uuid_Parse (us_ul c) uid = Some i" and p: "p = toProtoUser (us_ul c) u'"
    and get: "repo_user_GetByID i s = (Inr u', s')"
    by (auto simp: svc_GetUser_def fail_eq bindE_Inr ret_eq split: if_splits option.splits)
  with repo_user_GetByID_Inr [OF get] show ?thesis by (auto simp: toProtoUser_def)
qed

section \<open>One-time codes are exchanged once\<close>

text \<open>
  An invariant of the challenges in Redis and the ids drawn so far: drawing an id, storing a challenge
  under the id just drawn and deleting a challenge keep it.
\<close>

locale challenge_invariant =
  fixes c :: user_svc
    and J :: "(nat \<Rightarrow> time) \<Rightarrow> (nat \<Rightarrow> uuid) \<Rightarrow> nat \<Rightarrow> keyspace \<Rightarrow> bool"
  assumes later: "J t g n m \<Longrightarrow> J t g (Suc n) m"
    and stored: "J t g n m \<Longrightarrow> J t g (Suc n) (m(otp_key (us_otp c) (g n) \<mapsto> v))"
    and deleted: "J t g n m \<Longrightarrow> J t g n (m(k := None))"
begin

abbreviation (input) K :: "('d, 'm, 'z) cenv_scheme \<Rightarrow> bool" where
  "K s \<equiv> J (clock s) (gen s) (gens s) (redis s)"

lemma keeps_prims:
  "keeps K (time_Now :: (('d, 'm, 'z) cenv_scheme, time) comp)"
  "keeps K (uuid_New :: (('d, 'm, 'z) cenv_scheme, uuid) comp)"
  "keeps K (query f :: (('d, 'm, 'z) cenv_scheme, 'a) comp)"
  "keeps K (send msg :: (('d, 'm, 'z) cenv_scheme, unit) comp)"
  "keeps K (extern (ret x) :: (('d, 'm, 'z) cenv_scheme, 'b) comp)"
  "keeps K (redis_Get key :: (('d, 'm, 'z) cenv_scheme, string) comp)"
  by (auto simp: keeps_def time_Now_def uuid_New_def query_def send_def extern_def on_db_def ret_def
      redis_Get_def Let_def later split: option.splits fault.splits prod.splits sum.splits)

lemma keeps_DelCount: "keeps K (redis_DelCount key :: (('d, 'm, 'z) cenv_scheme, nat) comp)"
  by (auto simp: keeps_def extern_def redis_DelCount_def Let_def deleted split: option.splits fault.splits)

lemma keeps_rand:
  "keeps K (rand_Read :: ('z, string) user_comp)" "keeps K (draw_otp :: ('z, string) user_comp)"
  by (auto simp: keeps_def rand_Read_def draw_otp_def)

end

lemma SaveChallenge_state:
  assumes "SaveChallenge o1 (Some ch) ttl s = (r, s')"
  shows "clock s' = clock s \<and> gen s' = gen s \<and> gens s' = gens s \<and> (redis s' = redis s \<or>
    (\<exists>data. otp_Marshal o1 ch = Inr data \<and> redis s' = (redis s)(otp_key o1 (ch_ID ch) \<mapsto> (data, clock s (ticks s) + ttl))))"
  using assms
  by (auto simp: SaveChallenge_def redis_Set_def wrapE_def bindS_def extern_def ret_def fail_def Let_def
      split: if_splits option.splits fault.splits sum.splits)

context challenge_invariant
begin

lemma keeps_save:
  fixes rest :: "uuid \<Rightarrow> (('d, 'm, 'z) cenv_scheme, 'a) comp"
  assumes "\<And>cid now. ch_ID (mk cid now) = cid" and "\<And>cid. keeps K (rest cid)"
  shows "keeps K (bindE uuid_New (\<lambda>cid. bindE time_Now (\<lambda>now.
    bindE (SaveChallenge (us_otp c) (Some (mk cid now)) ttl) (\<lambda>_. rest cid))))"
proof (rule keepsI)
  fix s :: "('d, 'm, 'z) cenv_scheme"
  let ?cid = "gen s (gens s)" and ?now = "clock s (ticks s)"
  let ?s2 = "s\<lparr>gens := Suc (gens s), ticks := Suc (ticks s)\<rparr>"
  assume K: "K s"
  obtain r s3 where save: "SaveChallenge (us_otp c) (Some (mk ?cid ?now)) ttl ?s2 = (r, s3)"
    by (cases "SaveChallenge (us_otp c) (Some (mk ?cid ?now)) ttl ?s2")
  have K3: "K s3"
    using SaveChallenge_state [OF save] K later stored by (auto simp: assms(1))
  have "bindE uuid_New (\<lambda>cid. bindE time_Now (\<lambda>now.
      bindE (SaveChallenge (us_otp c) (Some (mk cid now)) ttl) (\<lambda>_. rest cid))) s =
    (case r of Inl e \<Rightarrow> (Inl e, s3) | Inr _ \<Rightarrow> rest ?cid s3)"
    by (simp add: bindE_def bindS_def uuid_New_def time_Now_def save fail_def split: sum.splits)
  then show "K (snd (bindE uuid_New (\<lambda>cid. bindE time_Now (\<lambda>now.
      bindE (SaveChallenge (us_otp c) (Some (mk cid now)) ttl) (\<lambda>_. rest cid))) s))"
    using K3 keepsI_snd [OF assms(2) K3] by (simp split: sum.splits)
qed

lemmas keeps_all = keeps_rules keeps_prims keeps_DelCount keeps_rand

lemma keeps_challenge_ops:
  "keeps K (GetChallenge o1 i :: (('d, 'm, 'z) cenv_scheme, OTPChallenge) comp)"
  "keeps K (DeleteChallenge o1 i :: (('d, 'm, 'z) cenv_scheme, unit) comp)"
  unfolding GetChallenge_def DeleteChallenge_def by (intro keeps_all)+

lemma keeps_Publish: "keeps K (Publish js p rk ev :: (('d, message, 'z) cenv_scheme, unit) comp)"
  unfolding Publish_def by (intro keeps_all | simp add: keeps_all)+

lemma keeps_repo:
  "keeps K (repo_user_Create cfg uo :: ('z, User) user_comp)"
  "keeps K (repo_user_GetByID uid :: ('z, User) user_comp)"
  "keeps K (repo_GetByEmailOrPhone cfg ident :: ('z, User) user_comp)"
  "keeps K (rt_GetByTokenHash h :: ('z, RefreshToken) user_comp)"
  "keeps K (rt_Revoke tid :: ('z, unit) user_comp)"
  "keeps K (issueTokens c1 u :: ('z, string \<times> string \<times> int) user_comp)"
  "keeps K (tm_GenerateAccessToken lib tm subject role :: ('z, string) user_comp)"
  unfolding repo_user_Create_def repo_user_GetByID_def repo_GetByEmailOrPhone_def rt_GetByTokenHash_def
    rt_Revoke_def issueTokens_def rt_Create_def tokens_GenerateRefreshToken_def tm_GenerateAccessToken_def
    GenerateAccessToken_def
  by (intro keeps_all)+

lemma keeps_otp_step: "keeps K (user_step c opn :: ('z, pb_AuthResponse option) user_comp)"
proof (cases opn)
  case (UOTPLogin req)
  show ?thesis
    unfolding UOTPLogin user_step.simps svc_OTPLogin_def PublishUserOTPRequested_def Let_def
    by (intro keeps_all keeps_repo keeps_Publish keeps_save) simp
qed (auto simp: svc_Register_def svc_PasswordLogin_def check_password_def svc_VerifyOTP_def
    svc_RefreshToken_def svc_GetUser_def svc_Logout_def Let_def
    intro!: keeps_all keeps_repo keeps_challenge_ops)

end


text \<open>Every challenge in Redis has an id that was drawn.\<close>

definition ids_drawn :: "user_svc \<Rightarrow> (nat \<Rightarrow> uuid) \<Rightarrow> nat \<Rightarrow> keyspace \<Rightarrow> bool" where
  "ids_drawn c g n m \<longleftrightarrow> uuid_ok (otp_ul (us_otp c)) \<and>
     (\<forall>i. m (otp_key (us_otp c) i) \<noteq> None \<longrightarrow> i \<in> g ` {..<n})"

definition challenge_spent :: "user_svc \<Rightarrow> uuid \<Rightarrow> (nat \<Rightarrow> uuid) \<Rightarrow> nat \<Rightarrow> keyspace \<Rightarrow> bool" where
  "challenge_spent c i g n m \<longleftrightarrow> i \<in> g ` {..<n} \<and> m (otp_key (us_otp c) i) = None"

lemma otp_key_inj: "uuid_ok (otp_ul o1) \<Longrightarrow> otp_key o1 i = otp_key o1 j \<Longrightarrow> i = j"
  by (auto simp: otp_key_def Build_def NewKeyBuilder_def join_def uuid_ok_def) (metis option.inject)

interpretation drawn: challenge_invariant c "\<lambda>_. ids_drawn c" for c
proof unfold_locales
  fix g :: "nat \<Rightarrow> uuid" and n and m :: keyspace and v and k
  assume d: "ids_drawn c g n m"
  then show "ids_drawn c g (Suc n) m"
    by (auto simp: ids_drawn_def lessThan_Suc)
  show "ids_drawn c g (Suc n) (m(otp_key (us_otp c) (g n) \<mapsto> v))"
    using d otp_key_inj [of "us_otp c"] by (auto simp: ids_drawn_def lessThan_Suc)
  show "ids_drawn c g n (m(k := None))"
    using d by (auto simp: ids_drawn_def)
qed

text \<open>A spent challenge stays spent as long as no id is drawn twice.\<close>

definition challenge_gone :: "user_svc \<Rightarrow> uuid \<Rightarrow> (nat \<Rightarrow> uuid) \<Rightarrow> nat \<Rightarrow> keyspace \<Rightarrow> bool" where
  "challenge_gone c i g n m \<longleftrightarrow> ids_drawn c g n m \<and> (inj_on g {..<n} \<longrightarrow> challenge_spent c i g n m)"

interpretation gone: challenge_invariant c "\<lambda>_. challenge_gone c i" for c i
proof unfold_locales
  fix g :: "nat \<Rightarrow> uuid" and n and m :: keyspace and v and k
  assume d: "challenge_gone c i g n m"
  have inj: "inj_on g {..<Suc n} \<Longrightarrow> inj_on g {..<n}" by (rule inj_on_subset) auto
  show "challenge_gone c i g (Suc n) m"
    using d drawn.later inj by (auto simp: challenge_gone_def challenge_spent_def)
  have "g n \<noteq> i" if sn: "inj_on g {..<Suc n}"
  proof
    assume "g n = i"
    moreover obtain j where "j < n" "i = g j"
      using d inj [OF sn] by (auto simp: challenge_gone_def challenge_spent_def)
    ultimately show False using inj_onD [OF sn, of n j] by auto
  qed
  then show "challenge_gone c i g (Suc n) (m(otp_key (us_otp c) (g n) \<mapsto> v))"
    using d drawn.stored [of c g n m v] otp_key_inj [of "us_otp c" i "g n"] inj
    by (auto simp: challenge_gone_def challenge_spent_def ids_drawn_def)
  show "challenge_gone c i g n (m(k := None))"
    using d drawn.deleted [of c g n m k] by (auto simp: challenge_gone_def challenge_spent_def)
qed

interpretation draws_on: challenge_invariant c "\<lambda>_ g n m. g = G \<and> N \<le> n" for c G N
  by unfold_locales auto

interpretation same_clock: challenge_invariant c "\<lambda>t _ _ _. t = T" for c T
  by unfold_locales auto

lemma GetChallenge_Inr:
  assumes "GetChallenge o1 i s = (Inr ch, s')"
  shows "gen s' = gen s \<and> gens s' = gens s \<and> redis s' = redis s \<and> db s' = db s \<and>
    (\<exists>data expiry. redis s (otp_key o1 i) = Some (data, expiry) \<and> clock s (ticks s) < expiry \<and>
       otp_Unmarshal o1 data = Inr ch)"
  using assms
  by (auto simp: GetChallenge_def redis_Get_def bindS_def extern_def ret_def fail_def Let_def
      split: if_splits option.splits fault.splits sum.splits prod.splits)

lemma DeleteChallenge_Inr:
  assumes "DeleteChallenge o1 i s = (Inr (), s')"
  shows "gen s' = gen s \<and> gens s' = gens s \<and> db s' = db s \<and> redis s' = (redis s)(otp_key o1 i := None) \<and>
    redis s (otp_key o1 i) \<noteq> None"
  using assms
  by (auto simp: DeleteChallenge_def redis_DelCount_def bindE_def wrapE_def bindS_def extern_def ret_def fail_def
      Let_def split: if_splits option.splits fault.splits sum.splits prod.splits)

lemma VerifyOTP_Inr:
  assumes "svc_VerifyOTP c (Some (cid, code)) s = (Inr auth, s')"
  shows "\<exists>i data expiry ch u u0 s1 tks. uuid_Parse (us_ul c) cid = Some i \<and>
    redis s (otp_key (us_otp c) i) = Some (data, expiry) \<and> clock s (ticks s) < expiry \<and>
    otp_Unmarshal (us_otp c) data = Inr ch \<and> ch_Code ch = code \<and> u0 \<in> set (users (db s)) \<and>
    u_ID u0 = ch_UserID ch \<and> auth_User auth = toProtoUser (us_ul c) u0 \<and>
    issueTokens c u s1 = (Inr tks, s') \<and> gen s1 = gen s \<and> gens s1 = gens s \<and>
    redis s1 = (redis s)(otp_key (us_otp c) i := None)"
proof -
  from assms obtain i ch s2 s3 u s4 tks where parse: "uuid_Parse (us_ul c) cid = Some i" and
    get: "GetChallenge (us_otp c) i s = (Inr ch, s2)" and code: "ch_Code ch = code" and
    del: "DeleteChallenge (us_otp c) i s2 = (Inr (), s3)" and
    user: "repo_user_GetByID (ch_UserID ch) s3 = (Inr u, s4)" and
    issue: "issueTokens c u s4 = (Inr tks, s')" and auth: "auth = toProtoAuth (us_ul c) u tks"
    by (auto simp: svc_VerifyOTP_def bindE_Inr fail_eq ret_eq split: option.splits if_splits)
  note g = GetChallenge_Inr [OF get] and d = DeleteChallenge_Inr [OF del]
  from repo_user_GetByID_Inr [OF user] obtain u0 where
    u0: "u0 \<in> set (users (db s))" "u_ID u0 = ch_UserID ch" "u = u0\<lparr>u_PasswordHash := '''', u_UpdatedAt := zero_time\<rparr>"
    using g d by auto
  have "keeps (\<lambda>t. gen t = gen s3 \<and> gens t = gens s3 \<and> redis t = redis s3) (repo_user_GetByID (ch_UserID ch))"
    unfolding repo_user_GetByID_def
    by (intro keeps_rules)
      (auto simp: keeps_def query_def extern_def on_db_def Let_def split: option.splits fault.splits prod.splits sum.splits)
  from keepsD [OF this _ user] have s4: "gen s4 = gen s3 \<and> gens s4 = gens s3 \<and> redis s4 = redis s3" by simp
  have "auth_User auth = toProtoUser (us_ul c) u0"
    by (auto simp: auth u0(3) toProtoAuth_def toProtoUser_def split: prod.splits)
  moreover obtain data expiry where "redis s (otp_key (us_otp c) i) = Some (data, expiry)"
    "clock s (ticks s) < expiry" "otp_Unmarshal (us_otp c) data = Inr ch"
    using g by blast
  moreover have "gen s4 = gen s" "gens s4 = gens s" "redis s4 = (redis s)(otp_key (us_otp c) i := None)"
    using s4 g d by simp_all
  ultimately show ?thesis using parse code u0(1,2) issue by blast
qed


definition ids_distinct :: "(user_db, message, 'z) uenv_scheme \<Rightarrow> bool" where
  "ids_distinct s \<longleftrightarrow> inj_on (gen s) {..<gens s}"

lemma VerifyOTP_spends:
  assumes "ids_drawn c (gen s) (gens s) (redis s)" and "uuid_Parse (us_ul c) cid = Some i"
    and "svc_VerifyOTP c (Some (cid, code)) s = (Inr auth, s')" and "ids_distinct s'"
  shows "\<not> challenge_spent c i (gen s) (gens s) (redis s) \<and> challenge_spent c i (gen s') (gens s') (redis s')"
proof -
  from VerifyOTP_Inr [OF assms(3)] assms(2) obtain u s1 tks where
    live: "redis s (otp_key (us_otp c) i) \<noteq> None" and issue: "issueTokens c u s1 = (Inr tks, s')" and
    s1: "gen s1 = gen s" "gens s1 = gens s" "redis s1 = (redis s)(otp_key (us_otp c) i := None)"
    by auto
  have "i \<in> gen s ` {..<gens s}" using assms(1) live by (auto simp: ids_drawn_def)
  then have "challenge_gone c i (gen s1) (gens s1) (redis s1)"
    using drawn.deleted [OF assms(1)] by (simp add: challenge_gone_def challenge_spent_def s1)
  then have "challenge_gone c i (gen s') (gens s') (redis s')"
    using keepsD [OF gone.keeps_repo(6) _ issue] by blast
  with live assms(4) show ?thesis by (simp add: challenge_spent_def challenge_gone_def ids_distinct_def)
qed

interpretation one_time: one_shot "\<lambda>s. ids_drawn c (gen s) (gens s) (redis s)" ids_distinct
    "\<lambda>s. challenge_spent c i (gen s) (gens s) (redis s)" "user_step c"
    "\<lambda>opn. \<exists>cid code. opn = UVerifyOTP (Some (cid, code)) \<and> uuid_Parse (us_ul c) cid = Some i" for c i
proof unfold_locales
  fix s :: "(user_db, message, 'a) uenv_scheme" and opn
  let ?s' = "snd (user_step c opn s)"
  have more: "gen ?s' = gen s \<and> gens s \<le> gens ?s'"
    using keepsI_snd [OF draws_on.keeps_otp_step [where G = "gen s" and N = "gens s" and opn = opn]] by blast
  then show "ids_distinct ?s' \<Longrightarrow> ids_distinct s"
    by (auto simp: ids_distinct_def elim: inj_on_subset)
  assume d: "ids_drawn c (gen s) (gens s) (redis s)"
  then show "ids_drawn c (gen ?s') (gens ?s') (redis ?s')"
    by (rule keepsI_snd [OF drawn.keeps_otp_step])
  assume "ids_distinct ?s'" and "challenge_spent c i (gen s) (gens s) (redis s)"
  moreover from this d have "challenge_gone c i (gen s) (gens s) (redis s)"
    by (simp add: challenge_gone_def)
  from keepsI_snd [OF gone.keeps_otp_step this] have "challenge_gone c i (gen ?s') (gens ?s') (redis ?s')" .
  ultimately show "challenge_spent c i (gen ?s') (gens ?s') (redis ?s')"
    by (simp add: challenge_gone_def ids_distinct_def)
next
  fix s s' :: "(user_db, message, 'a) uenv_scheme" and opn a
  assume "ids_drawn c (gen s) (gens s) (redis s)" "ids_distinct s'"
    "\<exists>cid code. opn = UVerifyOTP (Some (cid, code)) \<and> uuid_Parse (us_ul c) cid = Some i"
    "user_step c opn s = (Inr a, s')"
  then show "\<not> challenge_spent c i (gen s) (gens s) (redis s) \<and> challenge_spent c i (gen s') (gens s') (redis s')"
    using VerifyOTP_spends [of c s] by (auto simp: tokens_of_Inr)
qed

text \<open>The successful logins with a challenge in a sequence of requests.\<close>

definition otp_logins ::
  "user_svc \<Rightarrow> uuid \<Rightarrow> user_op list \<Rightarrow> (user_db, message, 'z) uenv_scheme \<Rightarrow> nat" where
  "otp_logins c i ops s = length [x \<leftarrow> fst (run_ops (user_step c) ops s).
     (\<exists>cid code. fst x = UVerifyOTP (Some (cid, code)) \<and> uuid_Parse (us_ul c) cid = Some i) \<and>
     (\<exists>a. snd x = Inr a)]"

text \<open>
  C11: a challenge logs in at most once. From a Redis without challenges on, in any sequence of requests and
  with whatever failures, at most one verification with a challenge's id succeeds, provided that the
  ids drawn until its end are distinct.
\<close>

theorem otp_single_use:
  assumes "uuid_ok (otp_ul (us_otp c))" and "\<forall>j. redis s (otp_key (us_otp c) j) = None"
    and "ids_distinct (snd (run_ops (user_step c) ops s))"
  shows "otp_logins c i ops s \<le> 1"
proof -
  have "ids_drawn c (gen s) (gens s) (redis s)" using assms by (simp add: ids_drawn_def)
  from one_time.at_most_once [OF this assms(3), of i] show ?thesis
    unfolding otp_logins_def by (simp split: if_splits)
qed

text \<open>
  A verification succeeds only with the code of a challenge that is live, and logs in the account the
  challenge was made for. A wrong code is answered with an error and leaves the challenge as it is:
  the service itself does not count the attempts.
\<close>

theorem otp_login_needs_code:
  assumes "svc_VerifyOTP c (Some (cid, code)) s = (r, s')"
  shows "(\<forall>auth. r = Inr auth \<longrightarrow> (\<exists>i data expiry ch u. uuid_Parse (us_ul c) cid = Some i \<and>
      redis s (otp_key (us_otp c) i) = Some (data, expiry) \<and> clock s (ticks s) < expiry \<and>
      otp_Unmarshal (us_otp c) data = Inr ch \<and> ch_Code ch = code \<and> u \<in> set (users (db s)) \<and>
      u_ID u = ch_UserID ch \<and> auth_User auth = toProtoUser (us_ul c) u)) \<and>
    (\<forall>i data expiry ch. uuid_Parse (us_ul c) cid = Some i \<and> redis s (otp_key (us_otp c) i) = Some (data, expiry) \<and>
      otp_Unmarshal (us_otp c) data = Inr ch \<and> ch_Code ch \<noteq> code \<longrightarrow>
      (\<exists>e. r = Inl e) \<and> redis s' = redis s \<and> db s' = db s)"
proof (intro conjI allI impI)
  fix auth assume "r = Inr auth"
  with VerifyOTP_Inr [of c cid code s auth s'] assms
  show "\<exists>i data expiry ch u. uuid_Parse (us_ul c) cid = Some i \<and>
      redis s (otp_key (us_otp c) i) = Some (data, expiry) \<and> clock s (ticks s) < expiry \<and>
      otp_Unmarshal (us_otp c) data = Inr ch \<and> ch_Code ch = code \<and> u \<in> set (users (db s)) \<and>
      u_ID u = ch_UserID ch \<and> auth_User auth = toProtoUser (us_ul c) u"
    by blast
next
  fix i data expiry ch
  assume w: "uuid_Parse (us_ul c) cid = Some i \<and> redis s (otp_key (us_otp c) i) = Some (data, expiry) \<and>
      otp_Unmarshal (us_otp c) data = Inr ch \<and> ch_Code ch \<noteq> code"
  show "\<exists>e. r = Inl e"
  proof (cases r)
    case (Inr auth)
    with VerifyOTP_Inr [of c cid code s auth s'] assms w show ?thesis by auto
  qed simp
  have "redis s' = redis s \<and> db s' = db s"
    using assms w
    by (auto simp: svc_VerifyOTP_def bindE_def bindS_def GetChallenge_def redis_Get_def extern_def Let_def
        ret_def fail_def split: if_splits option.splits fault.splits sum.splits prod.splits)
  then show "redis s' = redis s" "db s' = db s" by auto
qed


section \<open>A concrete service\<close>

text \<open>
  One account registers; its libraries behave as the code relies on. The clock stands still, so the
  token it is handed is the same at every login.
\<close>

definition demo_claims :: AccessClaims where
  "demo_claims = \<lparr>UserID = ''1'', Role = ''member'', IssuedAt = 0, ExpiresAt = 900\<rparr>"

definition demo_user_jwt :: jwt_lib where
  "demo_user_jwt =
     \<lparr>SignedString = (\<lambda>key c. if key = ''k'' \<and> c = demo_claims then Inr ''tok''
        else Inl (StdError ''unsupported'' None)),
      ParseWithClaims = (\<lambda>kf now tok. case kf (if tok = ''tok'' then HMAC ''HS256'' else OtherAlg ''none'') of
          Inl e \<Rightarrow> Inl (TokenInvalid e)
        | Inr key \<Rightarrow> if tok = ''tok'' \<and> key = ''k''
            then (if now < 900 * second then Inr (demo_claims, True) else Inl TokenExpired)
            else Inl (TokenInvalid (StdError ''signature is invalid'' None))),
      AlgOf = (\<lambda>tok. if tok = ''tok'' then HMAC ''HS256'' else OtherAlg ''none'')\<rparr>"

lemma demo_user_jwt_ok: "jwt_ok demo_user_jwt"
  by (auto simp: jwt_ok_def demo_user_jwt_def demo_claims_def split: if_splits)

definition demo_bcrypt :: bcrypt_lib where
  "demo_bcrypt =
     \<lparr>GenerateFromPassword = (\<lambda>p. if length p \<le> 72 then Inr (''h'' @ p) else Inl (StdError ''too long'' None)),
      CompareHashAndPassword = (\<lambda>h p. if h = ''h'' @ p then None else Some MismatchedHashAndPassword)\<rparr>"

definition demo_otp :: otp_repo where
  "demo_otp =
     \<lparr>otp_Marshal = (\<lambda>ch. Inr (ch_Code ch)),
      otp_Unmarshal = (\<lambda>code. Inr \<lparr>ch_ID = 3, ch_UserID = 1, ch_PhoneNumber = ''0912'', ch_Code = code,
        ch_ExpiresAt = otpTTL\<rparr>),
      otp_ul = plain_uuid\<rparr>"

definition demo_user_json :: event_json where
  "demo_user_json =
     \<lparr>Marshal = (\<lambda>_. Inr ''''), UnmarshalStockRelease = (\<lambda>_. Inl RedisNil),
      UnmarshalStockConfirm = (\<lambda>_. Inl RedisNil), UnmarshalOrderCreated = (\<lambda>_. Inl RedisNil),
      UnmarshalPaymentCompleted = (\<lambda>_. Inl RedisNil), UnmarshalPaymentFailed = (\<lambda>_. Inl RedisNil)\<rparr>"

definition demo_user_svc :: user_svc where
  "demo_user_svc =
     \<lparr>us_ul = plain_uuid, us_status = plain_status_lib, us_json = demo_user_json,
      us_publisher = Some \<lparr>channel_ok = True, exchange = ''payment_events''\<rparr>,
      us_cfg = \<lparr>citext_fold = (\<lambda>s. s), row_order = (\<lambda>us. us)\<rparr>,
      us_otp = demo_otp, us_bcrypt = demo_bcrypt, us_jwt = demo_user_jwt,
      us_tokens = NewTokenManager ''k'' (15 * minute), us_Sum256 = (\<lambda>b. b),
      us_refreshTokenTTL = 60 * minute\<rparr>"

definition demo_users_start :: "(user_db, message) uenv" where
  "demo_users_start =
     \<lparr>faults = (\<lambda>_. None), calls = 0, clock = (\<lambda>_. 0), ticks = 0, gen = (\<lambda>i. of_nat (i + 1)), gens = 0,
      db = \<lparr>users = [], refresh_tokens = []\<rparr>, bus = [], redis = Map.empty,
      rand_bytes = (\<lambda>i. Inr [char_of (65 + i)]), rand_ints = (\<lambda>i bound. Inr 7), draws = 0\<rparr>"

definition demo_register :: RegisterRequest where
  "demo_register = \<lparr>rg_PhoneNumber = ''0912'', rg_Email = ''ann@shop'', rg_Password = ''12345678'',
     rg_FullName = ''Ann''\<rparr>"

definition demo_registered :: "(goerr + pb_AuthResponse option) \<times> (user_db, message) uenv" where
  "demo_registered = user_step demo_user_svc (URegister (Some demo_register)) demo_users_start"

definition demo_auth :: pb_AuthResponse where
  "demo_auth = \<lparr>AccessToken = ''tok'', RefreshTokenText = ''41'', ExpiresIn = 900,
     auth_User = \<lparr>pbu_Id = ''1'', pbu_Email = ''ann@shop'', pbu_PhoneNumber = ''0912'', pbu_FullName = ''Ann'',
       pbu_Role = ROLE_MEMBER, pbu_CreatedAt = Some 0, pbu_UpdatedAt = None\<rparr>\<rparr>"

lemma demo_registered_answer: "fst demo_registered = Inr (Some demo_auth)"
  by code_simp

lemma demo_registered_users: "map u_ID (users (db (snd demo_registered))) = [1]"
  by code_simp

lemma demo_row_order: "row_order_ok (us_cfg demo_user_svc)"
  by (simp add: row_order_ok_def demo_user_svc_def)

lemma demo_run: "user_step demo_user_svc (URegister (Some demo_register)) demo_users_start =
    (Inr (Some demo_auth), snd demo_registered)"
  using demo_registered_answer by (metis demo_registered_def prod.collapse)

theorem tokens_name_an_account_witness:
  "fst (tm_ParseAccessToken demo_user_jwt (NewTokenManager ''k'' (15 * minute)) ''tok'' demo_users_start) =
     Inr demo_claims \<and> (\<exists>row \<in> set (refresh_tokens (db (snd demo_registered))). t_UserID row = 1)"
proof -
  have fields: "us_jwt demo_user_svc = demo_user_jwt" "us_tokens demo_user_svc = NewTokenManager ''k'' (15 * minute)"
    "AccessToken demo_auth = ''tok''" "us_ul demo_user_svc = plain_uuid"
    by (simp_all add: demo_user_svc_def demo_auth_def)
  from tokens_name_an_account [OF demo_run demo_row_order] demo_user_jwt_ok fields obtain u where
    u: "u \<in> set (users (db (snd demo_registered)))"
      "\<exists>row \<in> set (refresh_tokens (db (snd demo_registered))). t_UserID row = u_ID u"
    by (auto simp: demo_auth_def)
  have "u_ID u \<in> set (map u_ID (users (db (snd demo_registered))))" using u(1) by simp
  then have "u_ID u = 1" unfolding demo_registered_users by simp
  with u(2) have "\<exists>row \<in> set (refresh_tokens (db (snd demo_registered))). t_UserID row = 1" by simp
  moreover have "fst (tm_ParseAccessToken demo_user_jwt (NewTokenManager ''k'' (15 * minute)) ''tok'' demo_users_start) =
     Inr demo_claims"
    by code_simp
  ultimately show ?thesis by blast
qed


theorem no_request_makes_an_administrator_witness:
  "filter User_IsAdmin (users (db (snd (run_ops (user_step demo_user_svc)
     [URegister (Some demo_register), UPasswordLogin (Some (''0912'', ''12345678''))] demo_users_start)))) = []"
proof -
  let ?run = "run_ops (user_step demo_user_svc)
     [URegister (Some demo_register), UPasswordLogin (Some (''0912'', ''12345678''))] demo_users_start"
  have "?run = (fst ?run, snd ?run)" by simp
  from no_request_makes_an_administrator [OF this demo_row_order]
  show ?thesis by (simp add: demo_users_start_def filter_empty_conv)
qed

lemma demo_users_ok: "user_db_ok (us_cfg demo_user_svc) (db (snd demo_registered))"
proof -
  have "user_db_ok (us_cfg demo_user_svc) (db demo_users_start)"
    by (simp add: user_db_ok_def tbl_wf_def demo_users_start_def)
  from keepsI_snd [OF constraints.keeps_user_step [OF refl] this, of "URegister (Some demo_register)"]
  show ?thesis by (simp add: demo_registered_def)
qed

theorem refresh_token_single_use_witness:
  "exchanges demo_user_svc ''41'' [URefreshToken (Some ''41''), URefreshToken (Some ''41'')] (snd demo_registered) = 1"
proof -
  let ?ops = "[URefreshToken (Some ''41''), URefreshToken (Some ''41'')]"
  have "\<exists>auth. fst (user_step demo_user_svc (URefreshToken (Some ''41'')) (snd demo_registered)) = Inr auth"
    by (rule exI [where x = "Some (demo_auth\<lparr>RefreshTokenText := ''42''\<rparr>)"]) code_simp
  then have "1 \<le> exchanges demo_user_svc ''41'' ?ops (snd demo_registered)"
    by (auto simp: exchanges_def split: prod.splits)
  with refresh_token_single_use [OF demo_users_ok, of "''41''" ?ops] show ?thesis by linarith
qed

theorem password_login_needs_password_witness:
  "fst (svc_PasswordLogin demo_user_svc (Some (''0912'', ''wrong'')) (snd demo_registered)) =
     fst (svc_PasswordLogin demo_user_svc (Some (''nobody'', ''wrong'')) (snd demo_registered))"
proof -
  let ?s = "snd demo_registered"
  have hash: "map u_PasswordHash (users (db ?s)) = [''h12345678'']" by code_simp
  have wrong: "ComparePassword (us_bcrypt demo_user_svc) (u_PasswordHash u) ''wrong'' \<noteq> None"
    if "u \<in> set (users (db ?s))" for u
  proof -
    have "u_PasswordHash u \<in> set (map u_PasswordHash (users (db ?s)))" using that by simp
    then have "u_PasswordHash u = ''h12345678''" unfolding hash by simp
    then show ?thesis by (simp add: demo_user_svc_def demo_bcrypt_def ComparePassword_def)
  qed
  have quiet: "faults ?s (calls ?s) = None" by code_simp
  note refused = password_login_needs_password [OF demo_row_order, where s = ?s and pwd = "''wrong''"]
  have "fst (svc_PasswordLogin demo_user_svc (Some (ident, ''wrong'')) ?s) =
      Inl (New KindUnauthenticated ''invalid phone number, email, or password'')" if "ident \<noteq> ''''" for ident
    using refused [OF that _ prod.collapse [symmetric]] quiet wrong by blast
  then show ?thesis by simp
qed

definition demo_challenged :: "(user_db, message) uenv" where
  "demo_challenged = snd (user_step demo_user_svc (UOTPLogin (Some ''0912'')) (snd demo_registered))"

lemma demo_otp_ok: "uuid_ok (otp_ul (us_otp demo_user_svc))"
  by (simp add: demo_user_svc_def demo_otp_def)


definition demo_otp_ops :: "user_op list" where
  "demo_otp_ops = [URegister (Some demo_register), UOTPLogin (Some ''0912''),
     UVerifyOTP (Some (''3'', ''00007'')), UVerifyOTP (Some (''3'', ''00007''))]"

lemma demo_otp_run:
  "(let (rs, t) = run_ops (user_step demo_user_svc) demo_otp_ops demo_users_start in
     gens t = 5 \<and> map (\<lambda>x. case snd x of Inr _ \<Rightarrow> True | Inl _ \<Rightarrow> False) rs = [True, True, True, False])"
  by code_simp

theorem otp_single_use_witness:
  "otp_logins demo_user_svc 3 demo_otp_ops demo_users_start \<le> 1"
proof -
  let ?t = "snd (run_ops (user_step demo_user_svc) demo_otp_ops demo_users_start)"
  have "gens ?t = 5" using demo_otp_run by (simp add: split_beta)
  moreover have "gen ?t = gen demo_users_start"
    by (rule run_ops_keeps [where I = "\<lambda>t. gen t = gen demo_users_start" and step = "user_step demo_user_svc"])
      (use keepsI_snd [OF draws_on.keeps_otp_step [where G = "gen demo_users_start" and N = 0]] in auto)
  moreover have "inj_on (\<lambda>i. of_nat (i + 1) :: uuid) {..<5}"
  proof -
    have "{..<5 :: nat} = {0, 1, 2, 3, 4}" by auto
    then show ?thesis by (simp add: inj_on_def)
  qed
  ultimately have "ids_distinct ?t" by (simp add: ids_distinct_def demo_users_start_def)
  with otp_single_use [OF demo_otp_ok, of demo_users_start demo_otp_ops 3] show ?thesis
    by (simp add: demo_users_start_def)
qed

theorem otp_login_needs_code_witness:
  "\<exists>e. fst (svc_VerifyOTP demo_user_svc (Some (''3'', ''99999'')) demo_challenged) = Inl e"
proof -
  let ?run = "svc_VerifyOTP demo_user_svc (Some (''3'', ''99999'')) demo_challenged"
  have live: "redis demo_challenged (otp_key (us_otp demo_user_svc) 3) = Some (''00007'', otpTTL)"
    by code_simp
  have "uuid_Parse (us_ul demo_user_svc) ''3'' = Some 3" by code_simp
  with live otp_login_needs_code [of demo_user_svc "''3''" "''99999''" demo_challenged "fst ?run" "snd ?run"]
  show ?thesis by (auto simp: demo_user_svc_def demo_otp_def)
qed

section \<open>Whose phone the code goes to\<close>

text \<open>
  The e-mail address of a registration is not checked to be one. An account registered with another's
  phone number as its address answers to that number too, and when PostgreSQL gives it first, the
  code for that number goes to the other phone.
\<close>

definition phone_svc :: user_svc where
  "phone_svc = demo_user_svc
     \<lparr>us_cfg := \<lparr>citext_fold = (\<lambda>s. s), row_order = rev\<rparr>,
      us_jwt := demo_user_jwt\<lparr>SignedString := (\<lambda>key c. Inr (UserID c @ ''.'' @ Role c))\<rparr>\<rparr>"

definition intruder :: RegisterRequest where
  "intruder = \<lparr>rg_PhoneNumber = ''0666'', rg_Email = ''0912'', rg_Password = ''87654321'', rg_FullName = ''Eve''\<rparr>"

text \<open>
  A code can be sent to the wrong phone. After Eve has registered with Ann's phone number in place of an
  e-mail address, a code requested for Ann's number is published for Eve's phone.
\<close>

theorem code_goes_to_another_phone:
  "(let (rs, t) = run_ops (user_step phone_svc)
       [URegister (Some demo_register), URegister (Some intruder), UOTPLogin (Some (rg_PhoneNumber demo_register))]
       demo_users_start in
     map (\<lambda>m. case snd m of EvUserOTP e \<Rightarrow> (uo_PhoneNumber e, uo_Code e) | _ \<Rightarrow> ('''', '''')) (bus t)
       = [(rg_PhoneNumber intruder, ''00007'')] \<and> rg_PhoneNumber intruder \<noteq> rg_PhoneNumber demo_register)"
  by code_simp

end
