(* ===== verification/GatewayProps.thy ===== *)
theory GatewayProps
  imports Gateway UserProps
begin

text \<open>
  Requests through the gateway, the interceptors and the user service: who sees a profile, what a logout
  does, and whose requests count against whose limit.
\<close>

section \<open>A call without a token\<close>

lemma keeps_db_server_chain:
  assumes "\<And>key lim. keeps_db J (rate key lim)"
    and "\<And>ctx s. J (db s) \<Longrightarrow> J (db (snd (h ctx s)))"
  shows "keeps_db J (server_chain rate rules lib tokens public m h ctx)"
proof (rule keepsI)
  fix s :: "('a, 'b, 'c) env_scheme"
  assume "J (db s)"
  have rl: "J (db (snd (RateLimitInterceptor rate rules None m g ctx t)))"
    if "J (db t)" and g: "\<And>u. J (db u) \<Longrightarrow> J (db (snd (g ctx u)))"
    for t and g :: "(('a, 'b, 'c) env_scheme, 'd) handler"
  proof -
    have k: "keeps_db J (Check rate key lim)" for key lim
      unfolding Check_def by (intro keeps_rules assms(1))
    have chk: "J (db t')" if run: "Check rate key lim t = (r, t')" for key lim r t'
      by (rule keepsD [OF k \<open>J (db t)\<close> run])
    show ?thesis
      using \<open>J (db t)\<close> g
      by (auto simp: RateLimitInterceptor_def andThen_def Let_def dest!: chk
          split: option.splits prod.splits sum.splits)
  qed
  have au: "J (db (snd (AuthInterceptor lib tokens public m h ctx t)))" if "J (db t)" for t
  proof -
    have k: "keeps_db J (tm_ParseAccessToken lib tokens tok)" for tok
      unfolding tm_ParseAccessToken_def ParseAccessToken_def
      by (intro keeps_rules; simp add: keeps_fail split: jwt_error.split)
    have parse: "J (db t')" if run: "tm_ParseAccessToken lib tokens tok t = (r, t')" for tok r t'
      by (rule keepsD [OF k \<open>J (db t)\<close> run])
    show ?thesis
      using \<open>J (db t)\<close> assms(2)
      by (auto simp: AuthInterceptor_def andThen_def dest!: parse
          split: option.splits list.splits prod.splits sum.splits)
  qed
  have fin: "J (db (snd (finished out)))" if "J (db (snd out))" for out :: "'d outcome \<times> ('a, 'b, 'c) env_scheme"
    using that by (auto simp: finished_def time_Now_def split: prod.splits outcome.splits)
  from \<open>J (db s)\<close> show "J (db (snd (server_chain rate rules lib tokens public m h ctx s)))"
    unfolding server_chain_eq by (intro fin rl au) (simp add: time_Now_def)
qed

text \<open>The metadata of grpc-go itself holds none of the keys the interceptors read.\<close>

definition transport_ok :: "'u gateway \<Rightarrow> bool" where
  "transport_ok g \<longleftrightarrow>
     (\<forall>key \<in> {''authorization'', ''x-forwarded-for'', ''x-real-ip''}. md_Get (gw_transport g) key = [])"

text \<open>The counters of a limiter are not in the tables of the service.\<close>

definition rate_ok :: "(('d, 'm, 'z) env_scheme) rate_lib \<Rightarrow> bool" where
  "rate_ok rate \<longleftrightarrow> (\<forall>key lim s. db (snd (rate key lim s)) = db s)"

lemma keeps_db_rate: "rate_ok rate \<Longrightarrow> keeps_db J (rate key lim)"
  by (simp add: rate_ok_def keeps_def)

lemma refused_without_token:
  assumes "map_of public m \<noteq> Some True" and "rate_ok rate"
    and "\<And>md v vs. ctx_metadata ctx = Some md \<Longrightarrow> md_Get md ''authorization'' \<noteq> v # vs"
    and "server_chain rate rules lib tokens public m h ctx s = ((r :: goerr + 'a), s')"
  shows "\<exists>c msg. c \<in> {Unauthenticated, ResourceExhausted, Internal} \<and> r = Inl (StatusError c msg []) \<and>
    db s' = db s"
proof -
  let ?refuse = "(\<lambda>_. returns (fail ErrNoRows)) :: (_, 'a) handler"
  from valid_tokens_only [OF assms(1,4)] assms(3) obtain c msg where
    c: "c \<in> {Unauthenticated, ResourceExhausted, Internal}" "r = Inl (StatusError c msg [])" and
    same: "server_chain rate rules lib tokens public m ?refuse ctx s = (r, s')"
    unfolding authorizes_def by metis
  have "keeps_db (\<lambda>d. d = db s) (server_chain rate rules lib tokens public m ?refuse ctx)"
    by (rule keeps_db_server_chain [where J = "\<lambda>d. d = db s", OF keeps_db_rate [OF assms(2)]]) simp
  from keepsD [OF this refl same] c show ?thesis by blast
qed

lemma Respond_not_ok: "fst (Respond lib err) \<noteq> 200"
proof -
  have "httpStatusFromCode c \<noteq> 200" for c by (cases c) simp_all
  then show ?thesis by (auto simp: Respond_def split: option.splits)
qed

lemma remote_calls [simp]: "remote (s\<lparr>calls := n\<rparr>) = remote s"
  by (cases s) simp

lemma call_user_cases:
  assumes "call_user g md m h s = (r, s')"
  shows "((\<exists>e. r = Inl e) \<and> remote s' = remote s) \<or>
    (\<exists>x. user_NewServer (gw_user_rate g) (us_jwt (gw_user g)) (us_tokens (gw_user g)) m
        (\<lambda>ctx. returns (h ctx)) (incoming g md) (remote s) = (x, remote s') \<and>
      (r = x \<or> (\<exists>e. r = Inl e)))"
  using assms
  by (auto simp: call_user_def extern_def on_remote_def Let_def
      split: option.splits fault.splits prod.splits sum.splits)

section \<open>Logging out\<close>

text \<open>
  C34: a logout through the gateway never revokes the session. With a cookie the user service is
  called without the caller's authorization, for a method that needs it; so whatever happens the answer is
  an error, the cookie is cleared, and the tables of the user service, the token's row among them, stay
  as they are.
\<close>

theorem gateway_logout_never_revokes:
  assumes "transport_ok g" and "rate_ok (gw_user_rate g)"
    and "rq_Cookie rq refreshCookieName = Some tok" and "tok \<noteq> ''''"
    and "gw_Logout g rq s = (rp, s')"
  shows "rp_status rp \<noteq> 200 \<and> map ck_Value (rp_cookies rp) = [''''] \<and> db (remote s') = db (remote s)"
proof -
  obtain r where call: "userClient_Logout g [] tok s = (r, s')"
    and rp: "rp = (case r of Inl err \<Rightarrow> clearRefreshCookie g (httperrors_Respond g err)
        | Inr _ \<Rightarrow> clearRefreshCookie g (JSON 200 (messageResponse ''logged out'')))"
    using assms(3-5) by (auto simp: gw_Logout_def after_call_def split: prod.splits)
  have np: "map_of user_PublicMethods ''/user.UserService/Logout'' \<noteq> Some True"
    by (simp add: user_PublicMethods_def)
  have nt: "md_Get md ''authorization'' \<noteq> v # vs" if "ctx_metadata (incoming g []) = Some md" for md v vs
    using that assms(1) by (auto simp: incoming_def transport_ok_def)
  from call_user_cases [OF call [unfolded userClient_Logout_def]]
  have "(\<exists>e. r = Inl e) \<and> db (remote s') = db (remote s)"
  proof (elim disjE exE conjE)
    fix x
    assume run: "user_NewServer (gw_user_rate g) (us_jwt (gw_user g)) (us_tokens (gw_user g))
        ''/user.UserService/Logout'' (\<lambda>ctx. returns (grpc_Logout (gw_user g) (Some tok))) (incoming g [])
        (remote s) = (x, remote s')" and "r = x"
    with refused_without_token [OF np assms(2) nt run [unfolded user_NewServer_def]]
    show ?thesis by blast
  next
    fix x e
    assume run: "user_NewServer (gw_user_rate g) (us_jwt (gw_user g)) (us_tokens (gw_user g))
        ''/user.UserService/Logout'' (\<lambda>ctx. returns (grpc_Logout (gw_user g) (Some tok))) (incoming g [])
        (remote s) = (x, remote s')" and "r = Inl e"
    with refused_without_token [OF np assms(2) nt run [unfolded user_NewServer_def]]
    show ?thesis by blast
  qed simp
  then show ?thesis
    using Respond_not_ok
    by (auto simp: rp httperrors_Respond_def clearRefreshCookie_def JSON_def split: prod.splits)
      (metis fst_conv)+
qed

section \<open>Profiles\<close>

lemma returns_finished:
  "finished (returns m s) = (r, s') \<longleftrightarrow> (\<exists>s1. m s = (r, s1) \<and> s' = snd (time_Now s1))"
  by (auto simp: finished_def returns_def split: prod.splits)

lemma snd_returns [simp]: "snd (returns m s) = snd (m s)"
  by (simp add: returns_def split: prod.splits)

lemma grpc_answer_Inr: "grpc_answer lib domain m s = (Inr a, s') \<longleftrightarrow> m s = (Inr a, s')"
  by (auto simp: grpc_answer_def bindS_sum_iff ret_eq fail_eq FromAppError_def)

lemma keeps_db_GetUser: "keeps_db J (grpc_GetUser c ctx req)"
  unfolding grpc_GetUser_def by (intro keeps_rules keeps_db_svc_GetUser)

text \<open>
  C20: a profile leaves the gateway for its owner and for administrators only. When the answer is 200, the
  token manager of the user service read claims from the token of the request's Authorization header that
  name the account asked for, or an administrator, and the answer shows the account on file.
\<close>

theorem profile_needs_own_token:
  fixes g :: "(user_db, message, 'z) uenv_scheme gateway"
  assumes "transport_ok g" and "rate_ok (gw_user_rate g)"
    and "gw_GetUser g rq s = (rp, s')" and "rp_status rp = 200"
  defines "c \<equiv> gw_user g"
  shows "\<exists>claims u t t'. u \<in> set (users (db (remote s))) \<and>
    tm_ParseAccessToken (us_jwt c) (us_tokens c) (TrimPrefix (rq_GetHeader rq ''Authorization'') ''Bearer '') t =
      (Inr claims, t' :: (user_db, message, 'z) uenv_scheme) \<and>
    (UserID claims = rq_id rq \<or> Role claims = RoleAdmin) \<and>
    uuid_Parse (us_ul c) (rq_id rq) = Some (u_ID u) \<and>
    rp_body rp = UserBody (toUserBody g (Some (toProtoUser (us_ul c) u)))"
proof -
  let ?m = "''/user.UserService/GetUser''" and ?md = "ForwardAuth [] (rq_GetHeader rq ''Authorization'')"
  let ?h = "\<lambda>ctx. returns (grpc_GetUser c ctx (Some (rq_id rq)))"
  from assms(3) obtain r where call: "userClient_GetUser g ?md (rq_id rq) s = (r, s')"
    and rp: "rp = (case r of Inl err \<Rightarrow> httperrors_Respond g err
      | Inr resp \<Rightarrow> JSON 200 (UserBody (toUserBody g (Some resp))))"
    by (auto simp: gw_GetUser_def after_call_def split: prod.splits)
  have "rp_status (httperrors_Respond g err) \<noteq> 200" for err
    using Respond_not_ok [of "gw_status g" err]
    by (auto simp: httperrors_Respond_def JSON_def split: prod.splits)
  with assms(4) rp obtain p where r: "r = Inr p" by (cases r) auto
  from call_user_cases [OF call [unfolded userClient_GetUser_def]]
  have run: "server_chain (gw_user_rate g) user_RateLimitRules (us_jwt c) (us_tokens c) user_PublicMethods
      ?m ?h (incoming g ?md) (remote s) = (Inr p, remote s')"
    by (simp add: r user_NewServer_def c_def)
  have "keeps_db (\<lambda>d. d = db (remote s)) (server_chain (gw_user_rate g) user_RateLimitRules (us_jwt c)
      (us_tokens c) user_PublicMethods ?m ?h (incoming g ?md))"
    by (rule keeps_db_server_chain [where J = "\<lambda>d. d = db (remote s)", OF keeps_db_rate [OF assms(2)]])
      (simp add: keepsI_snd [OF keeps_db_GetUser [of "\<lambda>d. d = db (remote s)"]])
  from keepsD [OF this refl run] have db: "db (remote s') = db (remote s)" .
  have "map_of user_PublicMethods ?m \<noteq> Some True" by (simp add: user_PublicMethods_def)
  from valid_tokens_only [OF this run] obtain claims t t' where
    auth: "authorizes (us_jwt c) (us_tokens c) (incoming g ?md) claims t t'" and
    fin: "finished (?h (ContextWithClaims (incoming g ?md) claims) t') = (Inr p, remote s')"
    by auto
  from fin obtain t2 where get: "svc_GetUser c (ContextWithClaims (incoming g ?md) claims) (Some (rq_id rq)) t' =
      (Inr p, t2)" and t2: "remote s' = snd (time_Now t2)"
    by (auto simp: returns_finished grpc_GetUser_def grpc_answer_Inr)
  from keepsD [OF keeps_db_svc_GetUser [of "\<lambda>d. d = db t'"] refl get] t2 db have t': "db t' = db (remote s)" by (simp add: time_Now_def)
  have parse: "tm_ParseAccessToken (us_jwt c) (us_tokens c)
      (TrimPrefix (rq_GetHeader rq ''Authorization'') ''Bearer '') t = (Inr claims, t')"
    using auth assms(1)
    by (auto simp: authorizes_def incoming_def ForwardAuth_def transport_ok_def md_Get_def split: if_splits)
  from svc_GetUser_Inr [OF get] t' obtain u where "u \<in> set (users (db (remote s)))"
    "UserID claims = rq_id rq \<or> Role claims = RoleAdmin" "uuid_Parse (us_ul c) (rq_id rq) = Some (u_ID u)"
    and p: "p = toProtoUser (us_ul c) u" by auto
  moreover have "rp_body rp = UserBody (toUserBody g (Some (toProtoUser (us_ul c) u)))"
    by (simp add: rp r p JSON_def)
  ultimately show ?thesis using parse by blast
qed

section \<open>One limit for all\<close>

text \<open>
  The gateway forwards no address of its client, so the key of every limit of the user service is the
  gateway's own host.
\<close>

lemma gateway_key:
  assumes "transport_ok g" and "SplitHostPort (gw_addr g) = Some host"
  shows "DefaultKeyFunc (incoming g []) = host"
  using assms by (simp add: DefaultKeyFunc_def incoming_def transport_ok_def)

lemma time_Now_db [simp]: "db (snd (time_Now s)) = db s"
  by (simp add: time_Now_def)

definition limit_reached :: "'s rate_lib \<Rightarrow> string \<Rightarrow> string \<Rightarrow> Limit \<Rightarrow> 's \<Rightarrow> bool" where
  "limit_reached rate host fullMethod lim s \<longleftrightarrow>
     (\<exists>res. fst (rate (''ratelimit:'' @ fullMethod @ '':'' @ host) lim s) = Inr res \<and> rr_Allowed res \<le> 0)"

lemma call_user_limited:
  assumes "transport_ok g" and "SplitHostPort (gw_addr g) = Some host" and "rate_ok (gw_user_rate g)"
    and "map_of user_RateLimitRules m = Some \<lparr>rule_Limit = lim\<rparr>"
    and "limit_reached (gw_user_rate g) host m lim (snd (time_Now (remote s)))"
    and "faults s (calls s) = None"
  shows "\<exists>s'. call_user g [] m h s =
    (Inl (StatusError ResourceExhausted ''too many requests, please try again later'' []), s') \<and>
    db (remote s') = db (remote s)"
proof -
  let ?t = "snd (time_Now (remote s))" and ?key = "''ratelimit:'' @ m @ '':'' @ host"
  obtain res t' where rate: "gw_user_rate g ?key lim ?t = (Inr res, t')" and res: "rr_Allowed res \<le> 0"
    using assms(5) unfolding limit_reached_def by (metis prod.collapse)
  have "db t' = db (remote s)"
    using assms(3) rate unfolding rate_ok_def by (metis snd_conv time_Now_db)
  moreover have "Check (gw_user_rate g) ?key lim ?t = (Inr \<lparr>Allowed = False, Remaining = rr_Remaining res,
      RetryAfter = rr_RetryAfter res\<rparr>, t')"
    using rate res by (simp add: Check_def bindE_def bindS_def ret_def)
  ultimately show ?thesis
    using assms(4,6)
    by (simp add: call_user_def extern_def Let_def on_remote_def user_NewServer_def server_chain_eq
        RateLimitInterceptor_def andThen_def gateway_key [OF assms(1,2)] finished_def)
qed

lemma Respond_exhausted:
  "status_lib_ok (gw_status g) \<Longrightarrow> rp_status (httperrors_Respond g (StatusError ResourceExhausted msg [])) = 429"
  "status_lib_ok (gw_status g) \<Longrightarrow> rp_cookies (httperrors_Respond g (StatusError ResourceExhausted msg [])) = []"
  by (simp_all add: httperrors_Respond_def Respond_def JSON_def)

text \<open>
  The users of the gateway share one quota. When the logins of the gateway's host are used up at the
  user service, by whomever, every login through the gateway is answered 429, whatever address and
  headers the client has.
\<close>

theorem gateway_clients_share_a_quota:
  assumes "status_lib_ok (gw_status g)" and "transport_ok g" and "rate_ok (gw_user_rate g)"
    and "SplitHostPort (gw_addr g) = Some host"
    and "limit_reached (gw_user_rate g) host ''/user.UserService/PasswordLogin'' (PerMinute 5)
      (snd (time_Now (remote s)))"
    and "faults s (calls s) = None" and "bind_password g (rq_body rq) \<noteq> None"
  shows "rp_status (fst (gw_PasswordLogin g rq s)) = 429"
proof -
  have "map_of user_RateLimitRules ''/user.UserService/PasswordLogin'' = Some \<lparr>rule_Limit = PerMinute 5\<rparr>"
    by (simp add: user_RateLimitRules_def)
  note limited = call_user_limited [OF assms(2,4,3) this assms(5,6)]
  obtain body where body: "bind_password g (rq_body rq) = Some body" using assms(7) by blast
  obtain s' where "userClient_PasswordLogin g [] (pl_Identifier body) (pl_Password body) s =
      (Inl (StatusError ResourceExhausted ''too many requests, please try again later'' []), s')"
    unfolding userClient_PasswordLogin_def using limited by blast
  with body show ?thesis
    by (simp add: gw_PasswordLogin_def after_call_def Respond_exhausted [OF assms(1)])
qed

text \<open>
  The same shared limit ends sessions. A refresh of the token that meets it is answered 429 and the
  answer deletes the cookie, although the user service has not looked at the token, which stays on
  file as it was.
\<close>

theorem refresh_limit_ends_session:
  assumes "status_lib_ok (gw_status g)" and "transport_ok g" and "rate_ok (gw_user_rate g)"
    and "SplitHostPort (gw_addr g) = Some host"
    and "limit_reached (gw_user_rate g) host ''/user.UserService/RefreshToken'' (PerMinute 10)
      (snd (time_Now (remote s)))"
    and "faults s (calls s) = None" and "rq_Cookie rq refreshCookieName = Some tok" and "tok \<noteq> ''''"
    and "gw_RefreshToken g rq s = (rp, s')"
  shows "rp_status rp = 429 \<and> map ck_Value (rp_cookies rp) = [''''] \<and> map ck_MaxAge (rp_cookies rp) = [-1] \<and>
    db (remote s') = db (remote s)"
proof -
  have "map_of user_RateLimitRules ''/user.UserService/RefreshToken'' = Some \<lparr>rule_Limit = PerMinute 10\<rparr>"
    by (simp add: user_RateLimitRules_def)
  note limited = call_user_limited [OF assms(2,4,3) this assms(5,6)]
  obtain t where "userClient_RefreshToken g [] tok s =
      (Inl (StatusError ResourceExhausted ''too many requests, please try again later'' []), t)"
    and "db (remote t) = db (remote s)"
    unfolding userClient_RefreshToken_def using limited by blast
  with assms(7-9) show ?thesis
    by (auto simp: gw_RefreshToken_def after_call_def clearRefreshCookie_def Respond_exhausted [OF assms(1)])
qed

section \<open>Concrete requests\<close>

definition demo_gateway :: "int \<Rightarrow> (user_db, message) uenv gateway" where
  "demo_gateway allowed =
     \<lparr>gw_status = plain_status_lib,
      gw_cookieCfg = \<lparr>ck_cfg_Domain = ''localhost'', ck_cfg_Secure = True, RefreshMaxAgeSeconds = 604800\<rparr>,
      gw_json = \<lparr>json_register = (\<lambda>_. None),
        json_password = (\<lambda>raw. Some \<lparr>pl_Identifier = ''0912'', pl_Password = raw\<rparr>),
        json_otp = Some, json_verify = (\<lambda>_. None)\<rparr>,
      gw_ts_String = (\<lambda>_. ''''), gw_user = demo_user_svc,
      gw_user_rate = (\<lambda>_ _. ret \<lparr>rr_Allowed = allowed, rr_Remaining = 0, rr_RetryAfter = 0\<rparr>),
      gw_transport = [(''content-type'', [''application/grpc''])], gw_addr = ''10.0.0.5:4711''\<rparr>"

definition demo_gw_start :: "(unit, unit, unit, unit) gw_state" where
  "demo_gw_start = \<lparr>faults = (\<lambda>_. None), calls = 0, clock = (\<lambda>_. 0), ticks = 0, gen = (\<lambda>_. 0), gens = 0,
     db = (), bus = [], remote = snd demo_registered\<rparr>"

definition demo_rq :: http_req where
  "demo_rq = \<lparr>rq_Cookie = (\<lambda>_. Some ''41''), rq_GetHeader = (\<lambda>_. ''Bearer tok''), rq_id = ''1'',
     rq_ClientIP = ''203.0.113.9'', rq_body = ''12345678''\<rparr>"

lemma demo_gateway_ok:
  "transport_ok (demo_gateway n)" "rate_ok (gw_user_rate (demo_gateway n))"
  "status_lib_ok (gw_status (demo_gateway n))" "SplitHostPort (gw_addr (demo_gateway n)) = Some ''10.0.0.5''"
  by (simp_all add: demo_gateway_def transport_ok_def md_Get_def rate_ok_def ret_def)
    (simp add: SplitHostPort_def)

lemma demo_limit_reached: "limit_reached (gw_user_rate (demo_gateway 0)) host m lim s"
  by (simp add: limit_reached_def demo_gateway_def ret_def)

lemma demo_gw_start_ok: "faults demo_gw_start (calls demo_gw_start) = None"
  by (simp add: demo_gw_start_def)

theorem gateway_logout_never_revokes_witness:
  "rp_status (fst (gw_Logout (demo_gateway 1) demo_rq demo_gw_start)) = 401 \<and>
   map t_Revoked (refresh_tokens (db (remote (snd (gw_Logout (demo_gateway 1) demo_rq demo_gw_start))))) = [False]"
proof -
  have "map t_Revoked (refresh_tokens (db (remote demo_gw_start))) = [False]" by code_simp
  moreover have "rp_status (fst (gw_Logout (demo_gateway 1) demo_rq demo_gw_start)) = 401" by code_simp
  ultimately show ?thesis
    using gateway_logout_never_revokes [OF demo_gateway_ok(1,2), of demo_rq "''41''" 1 demo_gw_start]
    by (simp add: demo_rq_def prod_eq_iff)
qed

theorem profile_needs_own_token_witness:
  "\<exists>u \<in> set (users (db (remote demo_gw_start))). u_ID u = 1 \<and>
     rp_body (fst (gw_GetUser (demo_gateway 1) demo_rq demo_gw_start)) =
       UserBody (toUserBody (demo_gateway 1) (Some (toProtoUser plain_uuid u)))"
proof -
  have ok: "rp_status (fst (gw_GetUser (demo_gateway 1) demo_rq demo_gw_start)) = 200" by code_simp
  have "uuid_Parse plain_uuid ''1'' = Some 1" by code_simp
  with profile_needs_own_token [OF demo_gateway_ok(1,2) prod.collapse [symmetric] ok] show ?thesis
    by (auto simp: demo_gateway_def demo_rq_def demo_user_svc_def)
qed

theorem gateway_clients_share_a_quota_witness:
  "rp_status (fst (gw_PasswordLogin (demo_gateway 0) demo_rq demo_gw_start)) = 429"
  using gateway_clients_share_a_quota [OF demo_gateway_ok(3,1,2,4) demo_limit_reached demo_gw_start_ok, of demo_rq]
  by (simp add: bind_password_def demo_gateway_def demo_rq_def)

theorem refresh_limit_ends_session_witness:
  "rp_status (fst (gw_RefreshToken (demo_gateway 0) demo_rq demo_gw_start)) = 429 \<and>
   map t_Revoked (refresh_tokens (db (remote (snd (gw_RefreshToken (demo_gateway 0) demo_rq demo_gw_start))))) = [False]"
proof -
  have "map t_Revoked (refresh_tokens (db (remote demo_gw_start))) = [False]" by code_simp
  with refresh_limit_ends_session [OF demo_gateway_ok(3,1,2,4) demo_limit_reached demo_gw_start_ok, of demo_rq "''41''"]
  show ?thesis by (simp add: demo_rq_def prod_eq_iff)
qed

end
