(* ===== verification/SettingsProps.thy ===== *)
theory SettingsProps
  imports Settings GatewayProps
begin

text \<open>
  What the settings mean for the running system: the defaults of the processes fit together, and a
  negative life time of refresh tokens is accepted and locks every user out.
\<close>

lemma onward_Inr: "onward m k = Inr b \<longleftrightarrow> (\<exists>a. m = Inr a \<and> k a = Inr b)"
  by (cases m) (simp_all add: onward_def)

lemma unset_defaults:
  assumes "Getenv env key = ''''"
  shows "env_String env key d = d" "env_Int env key i = Inr i" "env_Bool env key b = Inr b"
    "env_Duration frac env key t = Inr t"
  using assms by (simp_all add: env_String_def env_Int_def env_Bool_def env_Duration_def)

lemma onwardE: "onward m k = Inr b \<Longrightarrow> (\<And>a. m = Inr a \<Longrightarrow> k a = Inr b \<Longrightarrow> P) \<Longrightarrow> P"
  by (auto simp: onward_Inr)

text \<open>Some of what the processes load, when they load.\<close>

lemma user_Load_settings:
  "user_Load frac f env = Inr c \<Longrightarrow>
   uc_GRPCPort c = env_String (env_Load f env) ''GRPC_PORT'' ''50051'' \<and>
   pg_DBName (uc_Postgres c) = env_String (env_Load f env) ''DB_NAME'' ''user_service_db'' \<and>
   env_Duration frac (env_Load f env) ''JWT_REFRESH_TTL'' (7 * 24 * (60 * minute)) = Inr (uc_RefreshTokenTTL c)"
  unfolding user_Load_def Let_def by (elim onwardE) (auto simp: postgres_settings_def)

lemma product_Load_settings:
  "product_Load frac f env = Inr c \<Longrightarrow>
   pc_GRPCPort c = env_String (env_Load f env) ''GRPC_PORT'' ''50052'' \<and>
   pg_DBName (pc_Postgres c) = env_String (env_Load f env) ''DB_NAME'' ''product_service_db''"
  unfolding product_Load_def Let_def by (elim onwardE) (auto simp: postgres_settings_def)

lemma order_Load_settings:
  "order_Load frac f env = Inr c \<Longrightarrow>
   oc_GRPCPort c = env_String (env_Load f env) ''GRPC_PORT'' ''50053'' \<and>
   pg_DBName (oc_Postgres c) = env_String (env_Load f env) ''DB_NAME'' ''order_service_db'' \<and>
   oc_ProductServiceAddr c = env_String (env_Load f env) ''PRODUCT_SERVICE_ADDR'' ''localhost:50052''"
  unfolding order_Load_def Let_def by (elim onwardE) (auto simp: postgres_settings_def)

lemma payment_Load_settings:
  "payment_Load frac f env = Inr c \<Longrightarrow>
   yc_GRPCPort c = env_String (env_Load f env) ''GRPC_PORT'' ''50054'' \<and>
   pg_DBName (yc_Postgres c) = env_String (env_Load f env) ''DB_NAME'' ''payment_service_db''"
  unfolding payment_Load_def Let_def by (elim onwardE) (auto simp: postgres_settings_def)

lemma api_Load_settings:
  "api_Load frac env = Inr c \<Longrightarrow>
   ac_HTTPPort c = env_String env ''HTTP_PORT'' ''8080'' \<and>
   ac_UserServiceAddr c = env_String env ''USER_SERVICE_ADDR'' ''localhost:50051'' \<and>
   env_Int env ''REFRESH_COOKIE_MAX_AGE_SECONDS'' (7 * 24 * 60 * 60) = Inr (RefreshMaxAgeSeconds (ac_Cookie c))"
  unfolding api_Load_def by (elim onwardE) auto

text \<open>
  The defaults fit together. When the variables that name ports, addresses and life times are unset, the
  gateway calls the port the user service listens on, the order service the port of the product
  service, no two processes share a port or a database, and the cookie of a refresh token lives as long as
  the token.
\<close>

theorem defaults_fit_together:
  assumes "user_Load frac fu eu = Inr cu" and "product_Load frac fp ep = Inr cp"
    and "order_Load frac fo eo = Inr co" and "payment_Load frac fy ey = Inr cy" and "api_Load frac ea = Inr ca"
    and "\<forall>env \<in> {env_Load fu eu, env_Load fp ep, env_Load fo eo, env_Load fy ey, ea}.
      \<forall>key \<in> {''GRPC_PORT'', ''HTTP_PORT'', ''DB_NAME'', ''USER_SERVICE_ADDR'', ''PRODUCT_SERVICE_ADDR'',
        ''JWT_REFRESH_TTL'', ''REFRESH_COOKIE_MAX_AGE_SECONDS''}. Getenv env key = ''''"
  shows "ac_UserServiceAddr ca = ''localhost:'' @ uc_GRPCPort cu \<and>
    oc_ProductServiceAddr co = ''localhost:'' @ pc_GRPCPort cp \<and>
    distinct [ac_HTTPPort ca, uc_GRPCPort cu, pc_GRPCPort cp, oc_GRPCPort co, yc_GRPCPort cy] \<and>
    distinct [pg_DBName (uc_Postgres cu), pg_DBName (pc_Postgres cp), pg_DBName (oc_Postgres co),
      pg_DBName (yc_Postgres cy)] \<and>
    RefreshMaxAgeSeconds (ac_Cookie ca) * second = uc_RefreshTokenTTL cu"
proof -
  have u: "uc_GRPCPort cu = ''50051''" "pg_DBName (uc_Postgres cu) = ''user_service_db''"
      "uc_RefreshTokenTTL cu = 7 * 24 * (60 * minute)"
    using user_Load_settings [OF assms(1)] assms(6) by (simp_all add: unset_defaults)
  have p: "pc_GRPCPort cp = ''50052''" "pg_DBName (pc_Postgres cp) = ''product_service_db''"
    using product_Load_settings [OF assms(2)] assms(6) by (simp_all add: unset_defaults)
  have o: "oc_GRPCPort co = ''50053''" "pg_DBName (oc_Postgres co) = ''order_service_db''"
      "oc_ProductServiceAddr co = ''localhost:50052''"
    using order_Load_settings [OF assms(3)] assms(6) by (simp_all add: unset_defaults)
  have y: "yc_GRPCPort cy = ''50054''" "pg_DBName (yc_Postgres cy) = ''payment_service_db''"
    using payment_Load_settings [OF assms(4)] assms(6) by (simp_all add: unset_defaults)
  have a: "ac_HTTPPort ca = ''8080''" "ac_UserServiceAddr ca = ''localhost:50051''"
      "RefreshMaxAgeSeconds (ac_Cookie ca) = 7 * 24 * 60 * 60"
    using api_Load_settings [OF assms(5)] assms(6) by (simp_all add: unset_defaults)
  show ?thesis by (simp add: u p o y a)
qed

section \<open>A life time below zero\<close>

lemma issueTokens_needs_life:
  assumes "us_refreshTokenTTL c < 0" and "mono (clock s)"
  shows "issueTokens c u s \<noteq> (Inr tks, s')"
proof
  assume "issueTokens c u s = (Inr tks, s')"
  then obtain s1 tok rt s2 access where
    sgn: "tm_GenerateAccessToken (us_jwt c) (us_tokens c) (uuid_String (us_ul c) (u_ID u)) (u_Role u) s =
      (Inr access, s1)" and
    rt: "rt_Create (Some \<lparr>t_ID = uuid_Nil, t_UserID = u_ID u, t_TokenHash = tok,
        t_ExpiresAt = clock s1 (ticks s1) + us_refreshTokenTTL c,
        t_Revoked = False, t_CreatedAt = zero_time\<rparr>) (s1\<lparr>draws := draws s1 + 1, ticks := ticks s1 + 1\<rparr>) = (Inr rt, s2)"
    by (auto simp: issueTokens_def bindE_Inr time_Now_def ret_eq Let_def
        dest!: tokens_GenerateRefreshToken_Inr)
  have "clock s1 = clock s"
    using keepsD [OF same_clock.keeps_repo(7) refl sgn] .
  then have "clock s1 (ticks s1) \<le> clock s1 (ticks s1 + 1)"
    using assms(2) by (simp add: monoD)
  with rt assms(1) show False
    by (auto simp: rt_Create_def bindE_Inr time_Now_def fail_eq split: if_splits)
qed

text \<open>A computation that succeeds in no state the invariant holds in.\<close>

definition never :: "('s \<Rightarrow> bool) \<Rightarrow> ('s, 'a) comp \<Rightarrow> bool" where
  "never I m \<longleftrightarrow> (\<forall>s. I s \<longrightarrow> (\<forall>a. fst (m s) \<noteq> Inr a))"

lemma never_rules:
  "never I (fail e)"
  "keeps I m1 \<Longrightarrow> (\<And>a. never I (k1 a)) \<Longrightarrow> never I (bindE m1 k1)"
  "keeps I m2 \<Longrightarrow> (\<And>r. never I (k2 r)) \<Longrightarrow> never I (bindS m2 k2)"
  "(b \<Longrightarrow> never I m3) \<Longrightarrow> (\<not> b \<Longrightarrow> never I n3) \<Longrightarrow> never I (if b then m3 else n3)"
  "never I m4 \<Longrightarrow> (\<And>x. never I (k4 x)) \<Longrightarrow> never I (case ox of None \<Rightarrow> m4 | Some x \<Rightarrow> k4 x)"
  "(\<And>x. never I (k5 x)) \<Longrightarrow> (\<And>y. never I (l5 y)) \<Longrightarrow> never I (case sx of Inl x \<Rightarrow> k5 x | Inr y \<Rightarrow> l5 y)"
  "(\<And>x y. never I (k6 x y)) \<Longrightarrow> never I (case px of (x, y) \<Rightarrow> k6 x y)"
  "never I m7 \<Longrightarrow> never I (tokens_of m7)"
  by (auto simp: never_def fail_def keeps_def tokens_of_def bindE_def bindS_def ret_def
      split: option.splits sum.splits prod.splits)

lemma never_issue:
  fixes k :: "string \<times> string \<times> int \<Rightarrow> ('z, 'a) user_comp"
  assumes "us_refreshTokenTTL c < 0" and "mono T"
  shows "never (\<lambda>s. clock s = T) (bindE (issueTokens c u) k)"
  using issueTokens_needs_life [OF assms(1)] assms(2)
  by (fastforce simp: never_def bindE_def bindS_def fail_def split: prod.splits sum.splits)

lemma never_tokens:
  fixes s :: "(user_db, message, 'z) uenv_scheme"
  assumes "us_refreshTokenTTL c < 0" and "mono (clock s)"
  shows "user_step c opn s \<noteq> (Inr (Some auth), s')"
proof -
  note keeps = same_clock.keeps_repo same_clock.keeps_challenge_ops same_clock.keeps_all
  have never: "never (\<lambda>t :: (user_db, message, 'z) uenv_scheme. clock t = clock s) (user_step c opn)"
    if "\<And>req. opn \<noteq> UOTPLogin req" "\<And>ctx req. opn \<noteq> UGetUser ctx req" "\<And>req. opn \<noteq> ULogout req"
  proof (cases opn)
    case (URegister req)
    show ?thesis
      unfolding URegister user_step.simps svc_Register_def Let_def
      by (rule never_issue [OF assms] never_rules | intro keeps)+
  next
    case (UPasswordLogin req)
    show ?thesis
      unfolding UPasswordLogin user_step.simps svc_PasswordLogin_def check_password_def Let_def
      by (rule never_issue [OF assms] never_rules | intro keeps)+
  next
    case (UVerifyOTP req)
    show ?thesis
      unfolding UVerifyOTP user_step.simps svc_VerifyOTP_def Let_def
      by (rule never_issue [OF assms] never_rules | intro keeps)+
  next
    case (URefreshToken req)
    show ?thesis
      unfolding URefreshToken user_step.simps svc_RefreshToken_def Let_def
      by (rule never_issue [OF assms] never_rules | intro keeps)+
  qed (use that in auto)
  show ?thesis
  proof (cases opn)
    case (UOTPLogin req)
    then show ?thesis by (simp add: no_tokens_Inr)
  next
    case (UGetUser ctx req)
    then show ?thesis by (simp add: no_tokens_Inr)
  next
    case (ULogout req)
    then show ?thesis by (simp add: no_tokens_Inr)
  qed (use never in \<open>auto simp: never_def\<close>)
qed

text \<open>
  C35: nothing checks that a life time is positive. When the refresh tokens' life time is set to a negative
  duration, the user service starts with it and then answers tokens to no request whatever: registration, login,
  verification and exchange all end in an error, in every sequence of requests, with or without failures.
\<close>

theorem negative_life_time_locks_everyone_out:
  fixes s :: "(user_db, message, 'z) uenv_scheme"
  assumes "user_Load frac file env = Inr cfg" and "us_refreshTokenTTL c = uc_RefreshTokenTTL cfg"
    and "uc_RefreshTokenTTL cfg < 0" and "mono (clock s)"
  shows "\<forall>(opn, r) \<in> set (fst (run_ops (user_step c) ops s)). \<forall>auth. r \<noteq> Inr (Some auth)"
proof (intro ballI, clarify)
  fix opn auth
  assume "(opn, Inr (Some auth)) \<in> set (fst (run_ops (user_step c) ops s))"
  from run_ops_answer [where I = "\<lambda>t. clock t = clock s", OF keepsI_snd [OF same_clock.keeps_otp_step] refl this]
  obtain t t' :: "(user_db, message, 'z) uenv_scheme" where "clock t = clock s" "user_step c opn t = (Inr (Some auth), t')"
    by auto
  then show False
    using never_tokens [of c t] assms(2-4) by auto
qed


section \<open>Concrete environments\<close>

definition demo_environ :: environ where
  "demo_environ = map_of [(''DB_PASSWORD'', ''p''), (''JWT_SECRET'', ''k''), (''RABBITMQ_PASSWORD'', ''r''),
     (''MERCHANT_ID'', ''m''), (''PAYMENT_CALLBACK_URL'', ''http://shop/paid'')]"

definition no_fraction :: "nat \<Rightarrow> nat \<Rightarrow> nat \<Rightarrow> nat" where
  "no_fraction f n unit = 0"

lemma demo_loads:
  "\<not> isl (user_Load no_fraction None demo_environ)" "\<not> isl (product_Load no_fraction None demo_environ)"
  "\<not> isl (order_Load no_fraction None demo_environ)" "\<not> isl (payment_Load no_fraction None demo_environ)"
  "\<not> isl (api_Load no_fraction demo_environ)"
  by code_simp+

theorem defaults_fit_together_witness:
  "ac_UserServiceAddr (projr (api_Load no_fraction demo_environ)) =
     ''localhost:'' @ uc_GRPCPort (projr (user_Load no_fraction None demo_environ)) \<and>
   RefreshMaxAgeSeconds (ac_Cookie (projr (api_Load no_fraction demo_environ))) * second =
     uc_RefreshTokenTTL (projr (user_Load no_fraction None demo_environ))"
proof -
  have loads: "user_Load no_fraction None demo_environ = Inr (projr (user_Load no_fraction None demo_environ))"
    "product_Load no_fraction None demo_environ = Inr (projr (product_Load no_fraction None demo_environ))"
    "order_Load no_fraction None demo_environ = Inr (projr (order_Load no_fraction None demo_environ))"
    "payment_Load no_fraction None demo_environ = Inr (projr (payment_Load no_fraction None demo_environ))"
    "api_Load no_fraction demo_environ = Inr (projr (api_Load no_fraction demo_environ))"
    using demo_loads by simp_all
  have "\<forall>env \<in> {env_Load None demo_environ, env_Load None demo_environ, env_Load None demo_environ,
      env_Load None demo_environ, demo_environ}.
    \<forall>key \<in> {''GRPC_PORT'', ''HTTP_PORT'', ''DB_NAME'', ''USER_SERVICE_ADDR'', ''PRODUCT_SERVICE_ADDR'',
        ''JWT_REFRESH_TTL'', ''REFRESH_COOKIE_MAX_AGE_SECONDS''}. Getenv env key = ''''"
    by (simp add: env_Load_def Getenv_def demo_environ_def)
  from defaults_fit_together [OF loads this] show ?thesis by simp
qed

definition negative_environ :: environ where
  "negative_environ = demo_environ(''JWT_REFRESH_TTL'' \<mapsto> ''-1h'')"

definition locked_user_svc :: user_svc where
  "locked_user_svc = demo_user_svc\<lparr>us_refreshTokenTTL :=
     uc_RefreshTokenTTL (projr (user_Load no_fraction None negative_environ))\<rparr>"

lemma parse_minus_one_hour: "ParseDuration no_fraction ''-1h'' = Some (- 60 * minute)"
proof -
  have "duration_term no_fraction ''1h'' = Some (3600000000000, [])"
    by (simp add: duration_term_def leadingInt_def is_digit_def dec_value_def unitMap_def no_fraction_def)
  then have "duration_terms no_fraction 0 ''1h'' = Some 3600000000000"
    by (simp add: duration_terms.simps [of _ _ "''1h''"] duration_terms.simps [of _ _ "[]"])
  then show ?thesis by (simp add: ParseDuration_def)
qed

lemma negative_settings:
  "user_Load no_fraction None negative_environ = Inr (projr (user_Load no_fraction None negative_environ))"
  "uc_RefreshTokenTTL (projr (user_Load no_fraction None negative_environ)) = - 60 * minute"
  by (simp_all add: user_Load_def onward_def env_Load_def env_Require_def env_Duration_def env_Int_def Getenv_def
      negative_environ_def demo_environ_def parse_minus_one_hour Let_def)

lemma locked_user_svc_eq: "locked_user_svc = demo_user_svc\<lparr>us_refreshTokenTTL := - 60 * minute\<rparr>"
  by (simp only: locked_user_svc_def negative_settings(2))

lemma locked_accounts:
  "map u_Email (users (db (snd (run_ops (user_step locked_user_svc)
     [URegister (Some demo_register), UPasswordLogin (Some (''0912'', ''12345678''))] demo_users_start)))) = [''ann@shop'']"
  unfolding locked_user_svc_eq by code_simp

theorem negative_life_time_locks_everyone_out_witness:
  "filter (\<lambda>(opn, r). \<exists>auth. r = Inr (Some auth)) (fst (run_ops (user_step locked_user_svc)
     [URegister (Some demo_register), UPasswordLogin (Some (''0912'', ''12345678''))] demo_users_start)) = [] \<and>
   map u_Email (users (db (snd (run_ops (user_step locked_user_svc)
     [URegister (Some demo_register), UPasswordLogin (Some (''0912'', ''12345678''))] demo_users_start)))) = [''ann@shop'']"
proof -
  have "us_refreshTokenTTL locked_user_svc = uc_RefreshTokenTTL (projr (user_Load no_fraction None negative_environ))"
    by (simp only: locked_user_svc_eq negative_settings(2)) simp
  from negative_life_time_locks_everyone_out [OF negative_settings(1) this, where s = demo_users_start and
      ops = "[URegister (Some demo_register), UPasswordLogin (Some (''0912'', ''12345678''))]"]
  show ?thesis
    using negative_settings(2) locked_accounts
    by (auto simp: filter_empty_conv demo_users_start_def mono_def)
qed

end
