(* ===== verification/Refine.thy ===== *)
theory Refine
  imports Rpc
begin

text \<open>
  Refinement of an abstract machine by the operations of a service. The machine's states are what
  the promises of the service speak of, its events what can happen to them; an operation refines a set of events
  when it leaves the abstract state as it is or makes it take the step of one of them. The rules follow the syntax
  of a method, in which at most one part changes the tables.
\<close>

section \<open>Runs of an abstract machine\<close>

fun run_events :: "('v \<Rightarrow> 'e \<Rightarrow> 'v option) \<Rightarrow> 'v \<Rightarrow> 'e list \<Rightarrow> 'v option" where
  "run_events astep v [] = Some v"
| "run_events astep v (ev # evs) = (case astep v ev of None \<Rightarrow> None | Some v' \<Rightarrow> run_events astep v' evs)"

lemma run_events_append:
  "run_events astep v (evs @ evs') =
     (case run_events astep v evs of None \<Rightarrow> None | Some v' \<Rightarrow> run_events astep v' evs')"
  by (induction evs arbitrary: v) (auto split: option.splits)

lemma run_events_snoc:
  "run_events astep v evs = Some v' \<Longrightarrow> astep v' ev = Some v'' \<Longrightarrow> run_events astep v (evs @ [ev]) = Some v''"
  by (simp add: run_events_append)

text \<open>What every step of the machine keeps holds after a run, of the state and the events so far.\<close>

lemma run_events_induct [consumes 1, case_names start step]:
  assumes "run_events astep v0 evs = Some v"
    and "Q [] v0"
    and "\<And>evs v ev v'. Q evs v \<Longrightarrow> astep v ev = Some v' \<Longrightarrow> Q (evs @ [ev]) v'"
  shows "Q evs v"
  using assms(1)
proof (induction evs arbitrary: v rule: rev_induct)
  case Nil
  with assms(2) show ?case by simp
next
  case (snoc ev evs)
  then show ?case using assms(3) by (auto simp: run_events_append split: option.splits)
qed

section \<open>Refinement\<close>

lemma bindE_unit [simp]: "bindE (ret a) k = k a" "bindE (fail e) k = fail e"
  by (rule ext, simp add: bindE_def bindS_def ret_def fail_def)+

locale refinement =
  fixes ok :: "'d \<Rightarrow> bool" and alpha :: "'d \<Rightarrow> 'v" and astep :: "'v \<Rightarrow> 'e \<Rightarrow> 'v option"
    and ainv :: "'v \<Rightarrow> bool"
  assumes ainv_step: "ainv v \<Longrightarrow> astep v ev = Some v' \<Longrightarrow> ainv v'"
begin

definition evolves :: "'e set \<Rightarrow> 'd \<Rightarrow> 'd \<Rightarrow> bool" where
  "evolves E d d' \<longleftrightarrow> ok d' \<and> (alpha d' = alpha d \<or> (\<exists>ev \<in> E. astep (alpha d) ev = Some (alpha d')))"

definition moves :: "'e set \<Rightarrow> (('d, 'm, 'z) env_scheme, 'a) comp \<Rightarrow> bool" where
  "moves E m \<longleftrightarrow> (\<forall>s. ok (db s) \<longrightarrow> evolves E (db s) (db (snd (m s))))"

lemma movesD: "moves E m \<Longrightarrow> ok (db s) \<Longrightarrow> m s = (r, s') \<Longrightarrow> evolves E (db s) (db s')"
  by (metis moves_def snd_conv)

lemma moves_snd: "moves E m \<Longrightarrow> ok (db s) \<Longrightarrow> evolves E (db s) (db (snd (m s)))"
  by (simp add: moves_def)

lemma evolves_refl: "ok d \<Longrightarrow> evolves E d d"
  by (simp add: evolves_def)

lemma evolves_same: "evolves E d d' \<Longrightarrow> ok d'"
  by (simp add: evolves_def)

lemma evolves_still_before: "evolves {} d d' \<Longrightarrow> evolves E d' d'' \<Longrightarrow> evolves E d d''"
  by (auto simp: evolves_def)

lemma evolves_still_after: "evolves E d d' \<Longrightarrow> evolves {} d' d'' \<Longrightarrow> evolves E d d''"
  by (auto simp: evolves_def)

text \<open>A method that keeps every invariant of the tables leaves them as they are.\<close>

lemma moves_reads: "(\<And>J. keeps_db J m) \<Longrightarrow> moves E m"
  unfolding moves_def
proof (intro allI impI)
  fix s :: "('d, 'a, 'b) env_scheme"
  assume keep: "\<And>J. keeps_db J m" and "ok (db s)"
  then show "evolves E (db s) (db (snd (m s)))"
    using keepsI_snd [OF keep [of "\<lambda>d. d = db s"], of s] by (simp add: evolves_refl)
qed

lemma moves_fail: "moves E (fail e)"
  by (rule moves_reads) (rule keeps_fail)

lemma moves_after_read:
  assumes "\<And>J. keeps_db J m" and "\<And>a. moves E (k a)"
  shows "moves E (bindE m k)"
  unfolding moves_def
proof (intro allI impI)
  fix s :: "('d, 'a, 'b) env_scheme"
  assume ok: "ok (db s)"
  obtain r s1 where run: "m s = (r, s1)" by (cases "m s")
  have db1: "db s1 = db s" using keepsD [OF assms(1) [of "\<lambda>d. d = db s"] _ run] by simp
  show "evolves E (db s) (db (snd (bindE m k s)))"
  proof (cases r)
    case (Inl e)
    then show ?thesis using run db1 ok by (simp add: bindE_def bindS_def fail_def evolves_refl)
  next
    case (Inr a)
    then show ?thesis
      using run db1 moves_snd [OF assms(2) [of a], of s1] ok by (simp add: bindE_def bindS_def)
  qed
qed

lemma moves_after_still:
  assumes "moves {} m" and "\<And>a. moves E (k a)"
  shows "moves E (bindE m k)"
  unfolding moves_def
proof (intro allI impI)
  fix s :: "('d, 'a, 'b) env_scheme"
  assume ok: "ok (db s)"
  obtain r s1 where run: "m s = (r, s1)" by (cases "m s")
  note e1 = movesD [OF assms(1) ok run]
  show "evolves E (db s) (db (snd (bindE m k s)))"
  proof (cases r)
    case (Inl e)
    then show ?thesis using run e1 by (simp add: bindE_def bindS_def fail_def) (auto simp: evolves_def)
  next
    case (Inr a)
    then show ?thesis
      using run evolves_still_before [OF e1] moves_snd [OF assms(2) [of a], of s1] evolves_same [OF e1]
      by (simp add: bindE_def bindS_def)
  qed
qed

lemma moves_bindS_reads:
  assumes "moves E m" and "\<And>r J. keeps_db J (k r)"
  shows "moves E (bindS m k)"
  unfolding moves_def
proof (intro allI impI)
  fix s :: "('d, 'a, 'b) env_scheme"
  assume ok: "ok (db s)"
  obtain r s1 where run: "m s = (r, s1)" by (cases "m s")
  have "db (snd (k r s1)) = db s1"
    using keepsI_snd [OF assms(2) [of "\<lambda>d. d = db s1" r], of s1] by simp
  with movesD [OF assms(1) ok run] run show "evolves E (db s) (db (snd (bindS m k s)))"
    by (simp add: bindS_def)
qed

lemma moves_then_read:
  assumes "moves E m" and "\<And>a J. keeps_db J (k a)"
  shows "moves E (bindE m k)"
  unfolding bindE_def
  by (rule moves_bindS_reads [OF assms(1)]) (auto intro: keeps_fail assms(2) split: sum.splits)

lemma moves_wrapE: "moves E m \<Longrightarrow> moves E (wrapE k msg m)"
  unfolding wrapE_def by (rule moves_bindS_reads) (auto intro: keeps_rules split: sum.splits)

lemma moves_grpc_answer: "moves E m \<Longrightarrow> moves E (grpc_answer lib dn m)"
  unfolding grpc_answer_def
  by (rule moves_bindS_reads) (auto intro: keeps_rules split: sum.splits option.splits)

lemma moves_if: "(b \<Longrightarrow> moves E m) \<Longrightarrow> (\<not> b \<Longrightarrow> moves E n) \<Longrightarrow> moves E (if b then m else n)"
  by simp

lemma moves_Let: "moves E (f a) \<Longrightarrow> moves E (let x = a in f x)"
  by simp

lemma moves_case_option:
  "(x = None \<Longrightarrow> moves E f) \<Longrightarrow> (\<And>a. x = Some a \<Longrightarrow> moves E (g a)) \<Longrightarrow>
    moves E (case x of None \<Rightarrow> f | Some a \<Rightarrow> g a)"
  by (simp split: option.splits)

text \<open>One statement, and one transaction.\<close>

lemma moves_query:
  assumes "\<And>d. ok d \<Longrightarrow> evolves E d (snd (f d))"
  shows "moves E (query f)"
  unfolding moves_def
proof (intro allI impI)
  fix s :: "('d, 'b, 'c) env_scheme"
  assume ok: "ok (db s)"
  have "keeps_db (evolves E (db s)) (query (\<lambda>d. if d = db s then f d else (fst (f d), d)))"
    by (rule keeps_query) (use assms ok in auto)
  then have "evolves E (db s) (db (snd (query (\<lambda>d. if d = db s then f d else (fst (f d), d)) s)))"
    using evolves_refl [OF ok] by (rule keepsI_snd)
  moreover have "query (\<lambda>d. if d = db s then f d else (fst (f d), d)) s = query f s"
    by (simp add: query_def extern_def on_db_def Let_def split: option.splits fault.splits)
  ultimately show "evolves E (db s) (db (snd (query f s)))" by simp
qed

lemma moves_WithTx:
  assumes "moves E body"
  shows "moves E (WithTx pool (Some body))"
  unfolding moves_def
proof (intro allI impI)
  fix s :: "('d, 'a, 'b) env_scheme"
  assume ok: "ok (db s)"
  obtain r s' where run: "WithTx pool (Some body) s = (r, s')" by (cases "WithTx pool (Some body) s")
  have "evolves E (db s) (db s')"
    using WithTx_cases [OF run] movesD [OF assms, of "s\<lparr>calls := calls s + 1\<rparr>"] ok
    by (auto simp: evolves_refl)
  then show "evolves E (db s) (db (snd (WithTx pool (Some body) s)))" by (simp add: run)
qed

lemmas moves_rules =
  moves_fail moves_if moves_Let moves_case_option moves_wrapE moves_grpc_answer moves_WithTx

text \<open>
  From a state that the machine can start in, any sequence of operations that refine events is a run of the machine
  over some of these events, and the machine's invariant holds of the tables.
\<close>

lemma evolves_run:
  assumes "run_events astep v0 evs = Some (alpha d)" and "evolves E d d'"
  shows "\<exists>evs'. run_events astep v0 evs' = Some (alpha d') \<and> set evs' \<subseteq> set evs \<union> E"
  using assms(2) unfolding evolves_def
proof (elim conjE disjE bexE)
  assume "alpha d' = alpha d"
  with assms(1) show ?thesis by (metis sup_ge1)
next
  fix ev assume "ev \<in> E" "astep (alpha d) ev = Some (alpha d')"
  with run_events_snoc [OF assms(1) this(2)] show ?thesis
    by (intro exI [of _ "evs @ [ev]"]) auto
qed

lemma ainv_run: "run_events astep v0 evs = Some v \<Longrightarrow> ainv v0 \<Longrightarrow> ainv v"
  by (induction rule: run_events_induct) (auto intro: ainv_step)

end

end
