(* ===== verification/Inventory.thy ===== *)
theory Inventory
  imports Refine ProductProps
begin

text \<open>
  The abstract specification of the product service: an inventory of shelves. It knows no rows, words, clocks,
  caches or messages: a shelf says whether its product is for sale, how many pieces there are and how many of them are
  held for orders, in integers. The service refines it, whatever fails: every request and every message leaves the inventory as it is or is the one event
  that it asks for.
\<close>

section \<open>The inventory\<close>

record shelf =
  for_sale :: bool
  pieces :: int
  held :: int

type_synonym inventory = "uuid \<Rightarrow> shelf option"

datatype stock_event =
    Stocked uuid int
  | Offered uuid bool
  | Reserved uuid int
  | Released uuid int
  | Confirmed uuid int

text \<open>An event that its guard does not allow cannot happen.\<close>

fun inventory_step :: "inventory \<Rightarrow> stock_event \<Rightarrow> inventory option" where
  "inventory_step v (Stocked i n) =
     (if v i = None \<and> 0 \<le> n then Some (v(i \<mapsto> \<lparr>for_sale = True, pieces = n, held = 0\<rparr>)) else None)"
| "inventory_step v (Offered i b) =
     (case v i of None \<Rightarrow> None | Some sh \<Rightarrow> Some (v(i \<mapsto> sh\<lparr>for_sale := b\<rparr>)))"
| "inventory_step v (Reserved i q) =
     (case v i of None \<Rightarrow> None
      | Some sh \<Rightarrow> if 0 < q \<and> for_sale sh \<and> held sh + q \<le> pieces sh
                 then Some (v(i \<mapsto> sh\<lparr>held := held sh + q\<rparr>)) else None)"
| "inventory_step v (Released i q) =
     (case v i of None \<Rightarrow> None
      | Some sh \<Rightarrow> if 0 < q \<and> q \<le> held sh then Some (v(i \<mapsto> sh\<lparr>held := held sh - q\<rparr>)) else None)"
| "inventory_step v (Confirmed i q) =
     (case v i of None \<Rightarrow> None
      | Some sh \<Rightarrow> if 0 < q \<and> q \<le> held sh
                 then Some (v(i \<mapsto> sh\<lparr>pieces := pieces sh - q, held := held sh - q\<rparr>)) else None)"

definition inventory_ok :: "inventory \<Rightarrow> bool" where
  "inventory_ok v \<longleftrightarrow> (\<forall>i sh. v i = Some sh \<longrightarrow> 0 \<le> held sh \<and> held sh \<le> pieces sh)"

text \<open>The inventory that a database holds.\<close>

definition shelf_of :: "Product \<Rightarrow> shelf" where
  "shelf_of p = \<lparr>for_sale = p_IsActive p, pieces = sint (p_TotalStock p), held = sint (p_ReservedStock p)\<rparr>"

definition inventory_of :: "product_db \<Rightarrow> inventory" where
  "inventory_of d = (\<lambda>i. map_option shelf_of (tbl_get p_ID (products d) i))"

interpretation stock: refinement product_db_ok inventory_of inventory_step inventory_ok
proof unfold_locales
  fix v ev v'
  assume "inventory_ok v" "inventory_step v ev = Some v'"
  then show "inventory_ok v'"
    by (cases ev) (force simp: inventory_ok_def split: if_splits option.splits)+
qed

section \<open>The statements\<close>

lemma inventory_of_set:
  assumes "tbl_get p_ID (products d) i = Some p" and "p_ID p' = i"
  shows "inventory_of (d\<lparr>products := tbl_set p_ID (products d) i p'\<rparr>) = (inventory_of d)(i \<mapsto> shelf_of p')"
  using assms by (auto simp: inventory_of_def tbl_get_set fun_eq_iff)

lemma inventory_of_set_same:
  assumes "tbl_get p_ID (products d) i = Some p" and "p_ID p' = p_ID p"
  shows "inventory_of (d\<lparr>products := tbl_set p_ID (products d) i p'\<rparr>) = (inventory_of d)(i \<mapsto> shelf_of p')"
  using inventory_of_set [OF assms(1), of p'] assms by (auto dest: tbl_get_SomeD)

text \<open>An update by key refines an event if its effect on the row it found does.\<close>

lemma evolves_update:
  assumes key: "keyed_update p_ID product_schema i P f" and ok: "product_db_ok d"
    and row: "\<And>p p'. tbl_get p_ID (products d) i = Some p \<Longrightarrow> product_row_err p = None \<Longrightarrow> P p \<Longrightarrow> f p = Inr p' \<Longrightarrow>
      p_ID p' = i \<and> (\<exists>ev \<in> E. inventory_step (inventory_of d) ev = Some ((inventory_of d)(i \<mapsto> shelf_of p')))"
  shows "stock.evolves E d (snd (on_products (sql_update product_schema P f) d))"
proof -
  have wf: "tbl_wf product_schema (products d)" using ok by (simp add: product_db_ok_def)
  note upd = keyed_update.update_key [OF key wf]
  have ok': "product_db_ok (snd (on_products (sql_update product_schema P f) d))"
    using ok by (rule on_products_update_ok)
  show ?thesis
  proof (cases "snd (on_products (sql_update product_schema P f) d) = d")
    case True
    with ok show ?thesis by (simp add: stock.evolves_refl)
  next
    case False
    then obtain p p' where p: "tbl_get p_ID (products d) i = Some p" "P p" "f p = Inr p'"
      and d': "snd (on_products (sql_update product_schema P f) d) =
        d\<lparr>products := tbl_set p_ID (products d) i p'\<rparr>"
      by (auto simp: on_products_def upd split: option.splits if_splits sum.splits)
    have "product_row_err p = None" using tbl_wf_row [OF wf p(1)] by simp
    from row [OF p(1) this p(2,3)] inventory_of_set [OF p(1)] ok' show ?thesis
      unfolding stock.evolves_def d' by auto
  qed
qed

lemma evolves_insert:
  assumes ok: "product_db_ok d" and "p_ReservedStock row = 0" and "p_IsActive row"
    and "\<And>i. Stocked i (sint (p_TotalStock row)) \<in> E"
  shows "stock.evolves E d (snd (on_products (sql_insert product_schema row) d))"
proof (cases "sql_insert product_schema row (products d)")
  case (Pair x t)
  have ok': "product_db_ok (snd (on_products (sql_insert product_schema row) d))"
    using ok by (rule on_products_insert_ok)
  from sql_insert_cases [OF Pair] show ?thesis
  proof (elim disjE conjE exE)
    assume t: "t = products d @ [row]" and "row_err product_schema row = None"
      and "uniq product_schema (products d @ [row])"
    then have "tbl_get p_ID (products d) (p_ID row) = None" "0 \<le> sint (p_TotalStock row)"
      by (auto simp: product_schema_def tbl_get_None_iff product_row_err_def)
    moreover from this have "inventory_of (d\<lparr>products := t\<rparr>) = (inventory_of d)(p_ID row \<mapsto> shelf_of row)"
      by (auto simp: inventory_of_def t tbl_get_append fun_eq_iff split: option.splits)
    ultimately have step: "inventory_step (inventory_of d) (Stocked (p_ID row) (sint (p_TotalStock row))) =
        Some (inventory_of (d\<lparr>products := t\<rparr>))"
      using assms(2,3) by (simp add: inventory_of_def shelf_of_def)
    have d': "snd (on_products (sql_insert product_schema row) d) = d\<lparr>products := t\<rparr>"
      by (simp add: on_products_def Pair)
    show ?thesis
      using ok' step assms(4) unfolding stock.evolves_def d' by blast
  next
    fix e assume "t = products d"
    with Pair ok show ?thesis by (simp add: on_products_def stock.evolves_refl)
  qed
qed

lemma update_event:
  assumes "tbl_get p_ID (products d) i = Some p"
  shows "inventory_of d i = Some (shelf_of p)" "p_ID p = i"
  using assms by (auto simp: inventory_of_def dest: tbl_get_SomeD)

lemma evolves_statements:
  assumes ok: "product_db_ok d"
  shows "stock.evolves {Offered i b} d (snd (on_products (sql_update product_schema (update_where i)
      (update_set (p\<lparr>p_IsActive := b\<rparr>) now)) d))"
    and "stock.evolves {Offered i False} d (snd (on_products (sql_update product_schema (delete_where i) (delete_set now)) d))"
    and "0 < sint q \<Longrightarrow> stock.evolves {Reserved i (sint q)} d
      (snd (on_products (sql_update product_schema (reserve_where i q) (reserve_set q now)) d))"
    and "0 < sint q \<Longrightarrow> stock.evolves {Released i (sint q)} d
      (snd (on_products (sql_update product_schema (release_where i q) (release_set q now)) d))"
    and "0 < sint q \<Longrightarrow> stock.evolves {Confirmed i (sint q)} d
      (snd (on_products (sql_update product_schema (release_where i q) (confirm_set q now)) d))"
proof -
  note event = update_event [where d = d and i = i] shelf_of_def
  show "stock.evolves {Offered i b} d (snd (on_products (sql_update product_schema (update_where i)
      (update_set (p\<lparr>p_IsActive := b\<rparr>) now)) d))"
    by (rule evolves_update [OF upd.keyed_update_axioms ok]) (auto simp: event update_set_def)
  show "stock.evolves {Offered i False} d (snd (on_products (sql_update product_schema (delete_where i) (delete_set now)) d))"
    by (rule evolves_update [OF del.keyed_update_axioms ok]) (auto simp: event delete_set_def)
  assume q: "0 < sint q"
  show "stock.evolves {Reserved i (sint q)} d
      (snd (on_products (sql_update product_schema (reserve_where i q) (reserve_set q now)) d))"
  proof (rule evolves_update [OF rsv.keyed_update_axioms ok])
    fix r r' assume "tbl_get p_ID (products d) i = Some r" "product_row_err r = None" "reserve_where i q r"
      "reserve_set q now r = Inr r'"
    then show "p_ID r' = i \<and> (\<exists>ev \<in> {Reserved i (sint q)}.
        inventory_step (inventory_of d) ev = Some ((inventory_of d)(i \<mapsto> shelf_of r')))"
      using reserve_set_ok [where p = r and pid = i and q = q] q by (auto simp: event reserve_where_def)
  qed
  show "stock.evolves {Released i (sint q)} d
      (snd (on_products (sql_update product_schema (release_where i q) (release_set q now)) d))"
  proof (rule evolves_update [OF rel.keyed_update_axioms ok])
    fix r r' assume "tbl_get p_ID (products d) i = Some r" "product_row_err r = None" "release_where i q r"
      "release_set q now r = Inr r'"
    then show "p_ID r' = i \<and> (\<exists>ev \<in> {Released i (sint q)}.
        inventory_step (inventory_of d) ev = Some ((inventory_of d)(i \<mapsto> shelf_of r')))"
      using release_set_ok [where p = r and pid = i and q = q] q by (auto simp: event release_where_def)
  qed
  show "stock.evolves {Confirmed i (sint q)} d
      (snd (on_products (sql_update product_schema (release_where i q) (confirm_set q now)) d))"
  proof (rule evolves_update [OF cnf.keyed_update_axioms ok])
    fix r r' assume "tbl_get p_ID (products d) i = Some r" "product_row_err r = None" "release_where i q r"
      "confirm_set q now r = Inr r'"
    then show "p_ID r' = i \<and> (\<exists>ev \<in> {Confirmed i (sint q)}.
        inventory_step (inventory_of d) ev = Some ((inventory_of d)(i \<mapsto> shelf_of r')))"
      using confirm_set_ok [where p = r and pid = i and q = q] release_set_ok(3) [of r i q] q by (auto simp: event release_where_def)
  qed
qed

section \<open>The operations\<close>

lemma moves_statements:
  "stock.moves {Offered (p_ID p) (p_IsActive p)} (repo_Update (Some p))"
  "stock.moves {Offered i False} (repo_Delete i)"
  "stock.moves {Reserved i (sint q)} (repo_ReserveStock i q)"
  "stock.moves {Released i (sint q)} (repo_ReleaseStock i q)"
  "stock.moves {Confirmed i (sint q)} (repo_ConfirmStock i q)"
proof -
  have answered: "stock.moves E (query (\<lambda>d. case g d of (Inl err, d') \<Rightarrow> (Inl err, d')
      | (Inr n, d') \<Rightarrow> (if n = 0 then Inl ErrNoRows else Inr (), d')))"
    if "\<And>d. product_db_ok d \<Longrightarrow> stock.evolves E d (snd (g d))" for E and g :: "product_db \<Rightarrow> (goerr + nat) \<times> product_db"
  proof (rule stock.moves_query)
    fix d assume "product_db_ok d"
    then show "stock.evolves E d (snd (case g d of (Inl err, d') \<Rightarrow> (Inl err, d')
      | (Inr n, d') \<Rightarrow> (if n = 0 then Inl ErrNoRows else Inr (), d')))"
      using that [of d] by (auto split: prod.splits sum.splits)
  qed
  note rules = stock.moves_rules stock.moves_after_read [OF keeps_time_Now] stock.moves_then_read stock.moves_query
    evolves_statements
  show "stock.moves {Offered (p_ID p) (p_IsActive p)} (repo_Update (Some p))"
    unfolding repo_Update_def option.case
    using evolves_statements(1) [where p = p and i = "p_ID p" and b = "p_IsActive p"]
    by (auto intro!: rules stock.moves_bindS_reads answered keeps_rules split: option.splits)
  show "stock.moves {Offered i False} (repo_Delete i)"
    unfolding repo_Delete_def by (auto intro!: rules keeps_rules)
  show "stock.moves {Reserved i (sint q)} (repo_ReserveStock i q)"
    unfolding repo_ReserveStock_def by (auto intro!: rules keeps_rules)
  show "stock.moves {Released i (sint q)} (repo_ReleaseStock i q)"
    unfolding repo_ReleaseStock_def by (auto intro!: rules keeps_rules)
  show "stock.moves {Confirmed i (sint q)} (repo_ConfirmStock i q)"
    unfolding repo_ConfirmStock_def by (auto intro!: rules keeps_rules)
qed

lemma moves_MarkProcessed: "stock.moves {} (MarkProcessed e t i ord)"
proof -
  have "stock.moves {} (query (on_processed (sql_inbox pe_event_id processed_row_err ev)))" for ev
  proof (rule stock.moves_query)
    fix d assume "product_db_ok d"
    then show "stock.evolves {} d (snd (on_processed (sql_inbox pe_event_id processed_row_err ev) d))"
      by (auto simp: stock.evolves_def inventory_of_def product_db_ok_def on_processed_def split: prod.splits
          dest: sql_inbox_distinct [where key = pe_event_id and err = processed_row_err and e = ev])
  qed
  then show ?thesis
    unfolding MarkProcessed_def by (auto intro!: stock.moves_rules stock.moves_then_read keeps_rules)
qed

lemma moves_Create: "stock.moves {Stocked i (sint (p_TotalStock p)) | i. True} (repo_Create (Some p))"
  unfolding repo_Create_def Let_def option.case
  by (auto intro!: stock.moves_rules stock.moves_after_read [OF keeps_time_Now] stock.moves_after_read [OF keeps_uuid_New]
      stock.moves_then_read stock.moves_query evolves_insert keeps_rules split: option.splits)

text \<open>The event that an operation asks for.\<close>

definition is_admin :: "reqctx \<Rightarrow> bool" where
  "is_admin ctx = (case ClaimsFromContext ctx of None \<Rightarrow> False | Some claims \<Rightarrow> Role claims = roleAdmin)"

fun asks_for :: "product_svc \<Rightarrow> product_op \<Rightarrow> stock_event \<Rightarrow> bool" where
  "asks_for c (CreateProduct ctx (Some rq)) (Stocked i n) \<longleftrightarrow> is_admin ctx \<and> n = sint (cp_TotalStock rq)"
| "asks_for c (UpdateProduct ctx (Some rq)) (Offered i b) \<longleftrightarrow>
     is_admin ctx \<and> uuid_Parse (ul c) (up_Id rq) = Some i \<and> b = up_IsActive rq"
| "asks_for c (DeleteProduct ctx (Some rid)) (Offered i b) \<longleftrightarrow>
     is_admin ctx \<and> uuid_Parse (ul c) rid = Some i \<and> \<not> b"
| "asks_for c (ReserveStock (Some rq)) (Reserved i q) \<longleftrightarrow>
     uuid_Parse (ul c) (rq_ProductId rq) = Some i \<and> q = sint (rq_Quantity rq)"
| "asks_for c (ReleaseStock (Some rq)) (Released i q) \<longleftrightarrow>
     uuid_Parse (ul c) (rq_ProductId rq) = Some i \<and> q = sint (rq_Quantity rq)"
| "asks_for c (ConfirmStock (Some rq)) (Confirmed i q) \<longleftrightarrow>
     uuid_Parse (ul c) (rq_ProductId rq) = Some i \<and> q = sint (rq_Quantity rq)"
| "asks_for c (StockReleaseMessage body) (Released i q) \<longleftrightarrow>
     (case UnmarshalStockRelease (json c) body of Inl _ \<Rightarrow> False
      | Inr e \<Rightarrow> i = sr_ProductID e \<and> q = sint (sr_Quantity e))"
| "asks_for c (StockConfirmMessage body) (Confirmed i q) \<longleftrightarrow>
     (case UnmarshalStockConfirm (json c) body of Inl _ \<Rightarrow> False
      | Inr e \<Rightarrow> i = sc_ProductID e \<and> q = sint (sc_Quantity e))"
| "asks_for c opn ev \<longleftrightarrow> False"

lemma moves_mono: "stock.moves E m \<Longrightarrow> E \<subseteq> E' \<Longrightarrow> stock.moves E' m"
  by (fastforce simp: stock.moves_def stock.evolves_def)

lemma moves_admin:
  assumes "is_admin ctx \<Longrightarrow> stock.moves E m"
  shows "stock.moves E (bindE (requireAdmin ctx) (\<lambda>_. m))"
proof (cases "is_admin ctx")
  case True
  from assms [OF this] show ?thesis by (intro stock.moves_after_read keeps_requireAdmin)
next
  case False
  then show ?thesis
    by (auto simp: is_admin_def requireAdmin_def stock.moves_fail split: option.splits if_splits)
qed

lemma moves_parsed:
  assumes "\<And>i. uuid_Parse u txt = Some i \<Longrightarrow> stock.moves E (k i)"
  shows "stock.moves E (bindE (parseProductID u txt) k)"
  using assms by (cases "uuid_Parse u txt") (simp_all add: parseProductID_def stock.moves_fail)

lemma moves_invalidate: "stock.moves E m \<Longrightarrow> stock.moves E (then_invalidate c i m)"
  unfolding then_invalidate_def by (rule stock.moves_then_read, assumption) (intro keeps_rules)

lemma moves_inbox:
  assumes "stock.moves E m"
  shows "stock.moves E (bindE (WithTx True (Some (bindE (MarkProcessed e t i ord)
      (\<lambda>already. if already then ret () else m)))) (\<lambda>_. bindS (store_InvalidateProduct u st i) (\<lambda>_. ret ())))"
  by (intro stock.moves_then_read [OF stock.moves_WithTx] stock.moves_after_still [OF moves_MarkProcessed]
      stock.moves_if stock.moves_reads [OF keeps_ret] assms keeps_rules)

lemma product_step_evolves:
  assumes "product_db_ok (db s)"
  shows "stock.evolves {ev. asks_for c opn ev} (db s) (db (product_step c opn s))"
proof -
  let ?E = "{ev. asks_for c opn ev}"
  note rules = stock.moves_rules moves_admin moves_parsed moves_invalidate moves_inbox
    moves_statements [THEN moves_mono] moves_Create [THEN moves_mono]
  note step = stock.moves_snd [where E = ?E, OF _ assms]
  show ?thesis
  proof (cases opn)
    case (CreateProduct ctx rq)
    show ?thesis
      unfolding CreateProduct product_step.simps grpc_CreateProduct_def svc_CreateProduct_def cached_defs
      by (rule step [unfolded CreateProduct])
        (auto intro!: rules stock.moves_then_read keeps_rules split: option.splits)
  next
    case (UpdateProduct ctx rq)
    show ?thesis
      unfolding UpdateProduct product_step.simps grpc_UpdateProduct_def svc_UpdateProduct_def cached_defs
      by (rule step [unfolded UpdateProduct])
        (auto intro!: rules stock.moves_then_read keeps_rules split: option.splits)
  next
    case (DeleteProduct ctx rq)
    show ?thesis
      unfolding DeleteProduct product_step.simps grpc_DeleteProduct_def svc_DeleteProduct_def cached_defs
      by (rule step [unfolded DeleteProduct])
        (auto intro!: rules stock.moves_then_read keeps_rules split: option.splits)
  next
    case (ReserveStock rq)
    show ?thesis
      unfolding ReserveStock product_step.simps grpc_ReserveStock_def svc_ReserveStock_def cached_defs
      by (rule step [unfolded ReserveStock]) (auto intro!: rules split: option.splits)
  next
    case (ReleaseStock rq)
    show ?thesis
      unfolding ReleaseStock product_step.simps grpc_ReleaseStock_def svc_ReleaseStock_def cached_defs
      by (rule step [unfolded ReleaseStock]) (auto intro!: rules split: option.splits)
  next
    case (ConfirmStock rq)
    show ?thesis
      unfolding ConfirmStock product_step.simps grpc_ConfirmStock_def svc_ConfirmStock_def cached_defs
      by (rule step [unfolded ConfirmStock]) (auto intro!: rules split: option.splits)
  next
    case (StockReleaseMessage body)
    show ?thesis
      unfolding StockReleaseMessage product_step.simps StockRelease_Handle_def release_event_def
      by (rule step [unfolded StockReleaseMessage])
        (auto intro!: rules stock.moves_reads [OF keeps_ret] split: sum.splits)
  next
    case (StockConfirmMessage body)
    show ?thesis
      unfolding StockConfirmMessage product_step.simps StockConfirm_Handle_def confirm_event_def
      by (rule step [unfolded StockConfirmMessage])
        (auto intro!: rules stock.moves_reads [OF keeps_ret] split: sum.splits)
  qed (auto simp: product_grpc_defs intro!: stock.moves_snd [OF _ assms] stock.moves_reads keeps_product_reads
      keeps_grpc_answer)
qed

section \<open>Progress\<close>

text \<open>The stock requests of the order service, and the row behind a guard.\<close>

fun stock_request :: "product_op \<Rightarrow> bool" where
  "stock_request (ReserveStock rq) = True"
| "stock_request (ReleaseStock rq) = True"
| "stock_request (ConfirmStock rq) = True"
| "stock_request opn = False"

lemma guard_row:
  assumes "product_db_ok d"
  shows "inventory_step (inventory_of d) (Reserved i (sint q)) = Some v \<longleftrightarrow> 0 < sint q \<and>
      (\<exists>p. tbl_get p_ID (products d) i = Some p \<and> reserve_where i q p \<and>
        v = (inventory_of d)(i \<mapsto> shelf_of (p\<lparr>p_ReservedStock := p_ReservedStock p + q, p_UpdatedAt := now\<rparr>)))"
    and "inventory_step (inventory_of d) (Released i (sint q)) = Some v \<longleftrightarrow> 0 < sint q \<and>
      (\<exists>p. tbl_get p_ID (products d) i = Some p \<and> release_where i q p \<and>
        v = (inventory_of d)(i \<mapsto> shelf_of (p\<lparr>p_ReservedStock := p_ReservedStock p - q, p_UpdatedAt := now\<rparr>)))"
    and "inventory_step (inventory_of d) (Confirmed i (sint q)) = Some v \<longleftrightarrow> 0 < sint q \<and>
      (\<exists>p. tbl_get p_ID (products d) i = Some p \<and> release_where i q p \<and>
        v = (inventory_of d)(i \<mapsto> shelf_of (p\<lparr>p_TotalStock := p_TotalStock p - q,
          p_ReservedStock := p_ReservedStock p - q, p_UpdatedAt := now\<rparr>)))"
proof -
  have row: "product_row_err p = None" "p_ID p = i" if "tbl_get p_ID (products d) i = Some p" for p
    using that assms tbl_wf_row [of product_schema "products d" p_ID i p]
    by (auto simp: product_db_ok_def dest: tbl_get_SomeD)
  note eqs = row inventory_of_def shelf_of_def reserve_where_def release_where_def
  show "inventory_step (inventory_of d) (Reserved i (sint q)) = Some v \<longleftrightarrow> 0 < sint q \<and>
      (\<exists>p. tbl_get p_ID (products d) i = Some p \<and> reserve_where i q p \<and>
        v = (inventory_of d)(i \<mapsto> shelf_of (p\<lparr>p_ReservedStock := p_ReservedStock p + q, p_UpdatedAt := now\<rparr>)))"
    using reserve_set_ok(3) [where pid = i and q = q]
    by (auto simp: eqs split: option.splits)
  show "inventory_step (inventory_of d) (Released i (sint q)) = Some v \<longleftrightarrow> 0 < sint q \<and>
      (\<exists>p. tbl_get p_ID (products d) i = Some p \<and> release_where i q p \<and>
        v = (inventory_of d)(i \<mapsto> shelf_of (p\<lparr>p_ReservedStock := p_ReservedStock p - q, p_UpdatedAt := now\<rparr>)))"
    using release_set_ok(3) [where pid = i and q = q]
    by (auto simp: eqs split: option.splits)
  show "inventory_step (inventory_of d) (Confirmed i (sint q)) = Some v \<longleftrightarrow> 0 < sint q \<and>
      (\<exists>p. tbl_get p_ID (products d) i = Some p \<and> release_where i q p \<and>
        v = (inventory_of d)(i \<mapsto> shelf_of (p\<lparr>p_TotalStock := p_TotalStock p - q,
          p_ReservedStock := p_ReservedStock p - q, p_UpdatedAt := now\<rparr>)))"
    using release_set_ok(3) [where pid = i and q = q] confirm_set_ok(3) [where pid = i and q = q]
    by (auto simp: eqs split: option.splits)
qed

lemma answered_db:
  assumes "snd (grpc_answer lib dn (then_invalidate c i m) s) = s'"
  shows "\<exists>r s1. m s = (r, s1) \<and> db s' = db s1"
proof -
  obtain r s2 where run: "then_invalidate c i m s = (r, s2)" by (cases "then_invalidate c i m s")
  then have "s' = s2"
    using assms by (auto simp: grpc_answer_def bindS_def ret_def fail_def split: sum.splits option.splits)
  with then_invalidate_cases [OF run] show ?thesis by blast
qed

lemma statement_takes_effect:
  assumes ok: "product_db_ok (db s)" and "faults s (calls s) = None"
  shows "inventory_step (inventory_of (db s)) (Reserved i (sint q)) = Some v \<Longrightarrow>
      repo_ReserveStock i q s = (r, s') \<Longrightarrow> inventory_of (db s') = v"
    and "inventory_step (inventory_of (db s)) (Released i (sint q)) = Some v \<Longrightarrow>
      repo_ReleaseStock i q s = (r, s') \<Longrightarrow> inventory_of (db s') = v"
    and "inventory_step (inventory_of (db s)) (Confirmed i (sint q)) = Some v \<Longrightarrow>
      repo_ConfirmStock i q s = (r, s') \<Longrightarrow> inventory_of (db s') = v"
proof -
  note guard = guard_row [OF ok, where now = "clock s (ticks s)"]
  assume "inventory_step (inventory_of (db s)) (Reserved i (sint q)) = Some v" "repo_ReserveStock i q s = (r, s')"
  then show "inventory_of (db s') = v"
    using reserve_cases [OF ok, of i q r s'] assms(2)
    by (auto simp: guard inventory_of_set_same simp del: inventory_step.simps)
next
  note guard = guard_row [OF ok, where now = "clock s (ticks s)"]
  assume "inventory_step (inventory_of (db s)) (Released i (sint q)) = Some v" "repo_ReleaseStock i q s = (r, s')"
  then show "inventory_of (db s') = v"
    using release_cases [OF ok, of i q r s'] assms(2)
    by (auto simp: guard inventory_of_set_same simp del: inventory_step.simps)
next
  note guard = guard_row [OF ok, where now = "clock s (ticks s)"]
  assume "inventory_step (inventory_of (db s)) (Confirmed i (sint q)) = Some v" "repo_ConfirmStock i q s = (r, s')"
  then show "inventory_of (db s') = v"
    using confirm_cases [OF ok, of i q r s'] assms(2)
    by (auto simp: guard inventory_of_set_same simp del: inventory_step.simps)
qed

lemma allowed_stock_requests_take_effect:
  assumes "product_reach c s" and "faults s (calls s) = None" and "stock_request opn" and "asks_for c opn ev"
    and "inventory_step (inventory_of (db s)) ev = Some v"
  shows "inventory_of (db (product_step c opn s)) = v"
proof -
  note effect = statement_takes_effect [OF product_reach_ok [OF assms(1)] assms(2)]
  note unfolds = product_grpc_defs product_svc_defs cached_defs parseProductID_def
  show ?thesis
  proof (cases opn)
    case (ReserveStock rq)
    with assms(4) obtain r i where "rq = Some r" "uuid_Parse (ul c) (rq_ProductId r) = Some i"
      "ev = Reserved i (sint (rq_Quantity r))"
      by (cases rq; cases ev) auto
    with ReserveStock assms(5) show ?thesis
      using answered_db [of "status c" product_domain c i "repo_ReserveStock i (rq_Quantity r)" s, OF refl]
      by (auto simp: unfolds simp del: inventory_step.simps dest: effect(1))
  next
    case (ReleaseStock rq)
    with assms(4) obtain r i where "rq = Some r" "uuid_Parse (ul c) (rq_ProductId r) = Some i"
      "ev = Released i (sint (rq_Quantity r))"
      by (cases rq; cases ev) auto
    with ReleaseStock assms(5) show ?thesis
      using answered_db [of "status c" product_domain c i "repo_ReleaseStock i (rq_Quantity r)" s, OF refl]
      by (auto simp: unfolds simp del: inventory_step.simps dest: effect(2))
  next
    case (ConfirmStock rq)
    with assms(4) obtain r i where "rq = Some r" "uuid_Parse (ul c) (rq_ProductId r) = Some i"
      "ev = Confirmed i (sint (rq_Quantity r))"
      by (cases rq; cases ev) auto
    with ConfirmStock assms(5) show ?thesis
      using answered_db [of "status c" product_domain c i "repo_ConfirmStock i (rq_Quantity r)" s, OF refl]
      by (auto simp: unfolds simp del: inventory_step.simps dest: effect(3))
  qed (use assms(3) in simp_all)
qed

text \<open>
  C2: the service refines the inventory. Whatever part of it fails, every request and every message leaves the
  inventory as it is, or it makes happen the one event it asks for, where the event's guard allows it: only an
  administrator puts products on shelves or takes them off, only pieces that are there and not held are held, only
  held pieces are released or confirmed, and the arithmetic on 32-bit columns is the arithmetic of integers. Nor is
  this kept by doing nothing: when the database answers, a reservation, release or confirmation whose event the
  inventory allows makes it happen.
\<close>

theorem product_service_refines_inventory:
  assumes "product_reach c s"
  shows "(inventory_of (db (product_step c opn s)) = inventory_of (db s) \<or>
    (\<exists>ev. asks_for c opn ev \<and>
       inventory_step (inventory_of (db s)) ev = Some (inventory_of (db (product_step c opn s))))) \<and>
    (\<forall>ev v. faults s (calls s) = None \<and> stock_request opn \<and> asks_for c opn ev \<and>
       inventory_step (inventory_of (db s)) ev = Some v \<longrightarrow> inventory_of (db (product_step c opn s)) = v)"
  using product_step_evolves [OF product_reach_ok [OF assms], of c opn]
    allowed_stock_requests_take_effect [OF assms]
  by (auto simp: stock.evolves_def simp del: inventory_step.simps)

section \<open>The ledger\<close>

text \<open>The operations that were handled, and the events they may account for: at most one each, in their order.\<close>

inductive product_trace :: "product_svc \<Rightarrow> product_op list \<Rightarrow> (product_db, message, 'z) cenv_scheme \<Rightarrow> bool"
  for c where
  start: "db s = \<lparr>products = [], processed_events = []\<rparr> \<Longrightarrow> product_trace c [] s"
| step: "product_trace c ops s \<Longrightarrow> product_trace c (ops @ [opn]) (product_step c opn s)"
| outside: "product_trace c ops s \<Longrightarrow> db s' = db s \<Longrightarrow> product_trace c ops s'"

inductive accounts_for :: "product_svc \<Rightarrow> product_op list \<Rightarrow> stock_event list \<Rightarrow> bool" for c where
  none: "accounts_for c [] []"
| quiet: "accounts_for c ops evs \<Longrightarrow> accounts_for c (ops @ [opn]) evs"
| event: "accounts_for c ops evs \<Longrightarrow> asks_for c opn ev \<Longrightarrow> accounts_for c (ops @ [opn]) (evs @ [ev])"

text \<open>What the events say is held of a product, and how many pieces of it there are.\<close>

fun held_change :: "uuid \<Rightarrow> stock_event \<Rightarrow> int" where
  "held_change i (Reserved j q) = (if j = i then q else 0)"
| "held_change i (Released j q) = (if j = i then - q else 0)"
| "held_change i (Confirmed j q) = (if j = i then - q else 0)"
| "held_change i ev = 0"

fun pieces_change :: "uuid \<Rightarrow> stock_event \<Rightarrow> int" where
  "pieces_change i (Stocked j n) = (if j = i then n else 0)"
| "pieces_change i (Confirmed j q) = (if j = i then - q else 0)"
| "pieces_change i ev = 0"

definition ledger :: "(uuid \<Rightarrow> stock_event \<Rightarrow> int) \<Rightarrow> uuid \<Rightarrow> stock_event list \<Rightarrow> int" where
  "ledger change i evs = sum_list (map (change i) evs)"

lemma ledger_snoc [simp]: "ledger change i (evs @ [ev]) = ledger change i evs + change i ev"
  by (simp add: ledger_def)

lemma inventory_is_ledger:
  assumes "run_events inventory_step Map.empty evs = Some v"
  shows "\<forall>i. case v i of None \<Rightarrow> ledger held_change i evs = 0 \<and> ledger pieces_change i evs = 0
    | Some sh \<Rightarrow> held sh = ledger held_change i evs \<and> pieces sh = ledger pieces_change i evs"
  using assms
proof (induction rule: run_events_induct)
  case start
  then show ?case by (simp add: ledger_def)
next
  case (step evs v ev v')
  then show ?case
    by (cases ev) (auto split: option.splits if_splits, (metis option.distinct option.inject)+)
qed

lemma trace_reach: "product_trace c ops s \<Longrightarrow> product_reach c s"
  by (induction rule: product_trace.induct) (auto intro: product_reach.intros)

lemma trace_events:
  "product_trace c ops s \<Longrightarrow> \<exists>evs. accounts_for c ops evs \<and>
     run_events inventory_step Map.empty evs = Some (inventory_of (db s))"
proof (induction rule: product_trace.induct)
  case (start s)
  then show ?case by (intro exI [of _ "[]"]) (simp add: accounts_for.none inventory_of_def)
next
  case (step ops s opn)
  then obtain evs where evs: "accounts_for c ops evs"
    "run_events inventory_step Map.empty evs = Some (inventory_of (db s))" by blast
  from product_step_evolves [OF product_reach_ok [OF trace_reach [OF step.hyps]], of c opn]
  show ?case
    unfolding stock.evolves_def
    using evs run_events_snoc [OF evs(2)] accounts_for.quiet [OF evs(1)] accounts_for.event [OF evs(1)]
    by (metis mem_Collect_eq)
qed auto

text \<open>
  C3: the stock columns are a ledger. After any sequence of requests and messages, with whatever failures, there is a
  sequence of events, at most one for each operation and each one that the operation asked for, that the inventory
  allows one after the other; and of every product on file the reserved stock is what these events reserved less what they released and confirmed,
  and the total stock is what was stocked less what was confirmed.
\<close>

theorem stock_is_a_ledger:
  assumes "product_trace c ops s"
  shows "\<exists>evs. accounts_for c ops evs \<and>
    run_events inventory_step Map.empty evs = Some (inventory_of (db s)) \<and>
    (\<forall>p \<in> set (products (db s)).
       sint (p_ReservedStock p) = ledger held_change (p_ID p) evs \<and>
       sint (p_TotalStock p) = ledger pieces_change (p_ID p) evs)"
proof -
  obtain evs where evs: "accounts_for c ops evs"
    "run_events inventory_step Map.empty evs = Some (inventory_of (db s))"
    using trace_events [OF assms] by blast
  have dist: "distinct (map p_ID (products (db s)))"
    using product_reach_ok [OF trace_reach [OF assms]] by (simp add: product_db_ok_def tbl_wf_def product_schema_def)
  have "sint (p_ReservedStock p) = ledger held_change (p_ID p) evs \<and>
      sint (p_TotalStock p) = ledger pieces_change (p_ID p) evs" if "p \<in> set (products (db s))" for p
    using inventory_is_ledger [OF evs(2), rule_format, of "p_ID p"] tbl_get_in_set [OF dist that]
    by (simp add: inventory_of_def shelf_of_def)
  with evs show ?thesis by blast
qed

section \<open>A concrete run\<close>

definition demo_ops :: "product_op list" where
  "demo_ops = [CreateProduct admin_ctx (Some demo_create), ReserveStock (Some \<lparr>rq_ProductId = ''1'', rq_Quantity = 4\<rparr>),
     StockConfirmMessage ''c'']"

lemma demo_trace: "product_trace demo_svc demo_ops demo_confirmed"
proof -
  have "product_trace demo_svc [] demo_start"
    by (rule product_trace.start) (simp add: demo_start_def idle_cenv_def)
  from product_trace.step [OF product_trace.step [OF product_trace.step [OF this,
      of "CreateProduct admin_ctx (Some demo_create)"], of "ReserveStock (Some \<lparr>rq_ProductId = ''1'', rq_Quantity = 4\<rparr>)"],
      of "StockConfirmMessage ''c''"]
  show ?thesis by (simp add: demo_ops_def demo_confirmed_def demo_reserved_def demo_state_def)
qed

theorem stock_is_a_ledger_witness:
  "map (\<lambda>p. (p_ID p, sint (p_ReservedStock p), sint (p_TotalStock p))) (product_table demo_confirmed) = [(1, 0, 6)] \<and>
   (\<exists>evs. accounts_for demo_svc demo_ops evs \<and> ledger pieces_change 1 evs = 6 \<and> ledger held_change 1 evs = 0)"
proof -
  have row: "product_table demo_confirmed = products (db demo_confirmed)" by (simp add: product_table_def)
  have one: "map (\<lambda>p. (p_ID p, sint (p_ReservedStock p), sint (p_TotalStock p))) (product_table demo_confirmed) = [(1, 0, 6)]"
    unfolding demo_confirmed_table by code_simp
  then obtain p where "p \<in> set (products (db demo_confirmed))" "p_ID p = 1" "sint (p_ReservedStock p) = 0"
    "sint (p_TotalStock p) = 6"
    unfolding row by (cases "products (db demo_confirmed)") auto
  with stock_is_a_ledger [OF demo_trace] one show ?thesis by fastforce
qed


theorem product_service_refines_inventory_witness:
  "inventory_of (db demo_reserved) = (inventory_of (db demo_state))(1 \<mapsto> \<lparr>for_sale = True, pieces = 10, held = 4\<rparr>)"
proof -
  let ?op = "ReserveStock (Some \<lparr>rq_ProductId = ''1'', rq_Quantity = 4\<rparr>)"
  have nums: "uuid_Parse (ul demo_svc) ''1'' = Some 1" "sint (4 :: i32) = 4" "sint (10 :: i32) = 10" by code_simp+
  have shelf: "inventory_of (db demo_state) 1 = Some \<lparr>for_sale = True, pieces = 10, held = 0\<rparr>"
    by (simp add: inventory_of_def demo_products shelf_of_def demo_product_def nums)
  have "asks_for demo_svc ?op (Reserved 1 4)"
    "inventory_step (inventory_of (db demo_state)) (Reserved 1 4) =
       Some ((inventory_of (db demo_state))(1 \<mapsto> \<lparr>for_sale = True, pieces = 10, held = 4\<rparr>))"
    by (simp_all add: nums shelf)
  then show ?thesis
    using product_service_refines_inventory [OF demo_reach, of ?op] demo_healthy
    by (auto simp: demo_reserved_def healthy_def simp del: asks_for.simps inventory_step.simps product_step.simps)
qed

end
