(* ===== verification/OrderBook.thy ===== *)
theory OrderBook
  imports Refine Shop
begin

text \<open>
  The abstract specification of the order service: a book of orders. An entry says whose order it is, what was ordered
  at which price, what it comes to and how far it has got; an order is placed once and settled once, and nothing else
  happens to it. The service refines it, whatever fails: a request or a message is at most the events it asks for.
\<close>

section \<open>Operations of several events\<close>

context refinement
begin

text \<open>\<open>R r evs\<close> relates what the operation answers to the events that it makes happen.\<close>

definition runs ::
  "(goerr + 'a \<Rightarrow> 'e list \<Rightarrow> bool) \<Rightarrow> (('d, 'm, 'z) env_scheme, 'a) comp \<Rightarrow> bool" where
  "runs R m \<longleftrightarrow> (\<forall>s. ok (db s) \<longrightarrow> ok (db (snd (m s))) \<and>
     (\<exists>evs. R (fst (m s)) evs \<and> run_events astep (alpha (db s)) evs = Some (alpha (db (snd (m s))))))"

lemma runsI:
  "(\<And>s r s'. ok (db s) \<Longrightarrow> m s = (r, s') \<Longrightarrow> ok (db s') \<and>
     (\<exists>evs. R r evs \<and> run_events astep (alpha (db s)) evs = Some (alpha (db s')))) \<Longrightarrow> runs R m"
  unfolding runs_def by (metis prod.collapse)

lemma runsD:
  "runs R m \<Longrightarrow> ok (db s) \<Longrightarrow> m s = (r, s') \<Longrightarrow> ok (db s') \<and>
     (\<exists>evs. R r evs \<and> run_events astep (alpha (db s)) evs = Some (alpha (db s')))"
  by (metis runs_def fst_conv snd_conv)

lemma runs_mono: "runs R m \<Longrightarrow> (\<And>r evs. R r evs \<Longrightarrow> R' r evs) \<Longrightarrow> runs R' m"
  by (fastforce simp: runs_def)

lemma runs_reads:
  fixes m :: "(('d, 'm, 'z) env_scheme, 'a) comp"
  assumes "\<And>J. keeps_db J m" and "\<And>r. R r []"
  shows "runs R m"
proof (rule runsI)
  fix s :: "('d, 'm, 'z) env_scheme" and r s'
  assume "ok (db s)" and run: "m s = (r, s')"
  then show "ok (db s') \<and> (\<exists>evs. R r evs \<and> run_events astep (alpha (db s)) evs = Some (alpha (db s')))"
    using keepsD [OF assms(1) [of "\<lambda>d. d = db s"] _ run] assms(2) by (auto intro!: exI [of _ "[]"])
qed

lemma runs_bindS:
  fixes m :: "(('d, 'm, 'z) env_scheme, 'a) comp" and k :: "goerr + 'a \<Rightarrow> (('d, 'm, 'z) env_scheme, 'b) comp"
  assumes "runs R1 m" and "\<And>r. runs (R2 r) (k r)"
    and "\<And>r evs r' evs'. R1 r evs \<Longrightarrow> R2 r r' evs' \<Longrightarrow> R r' (evs @ evs')"
  shows "runs R (bindS m k)"
proof (rule runsI)
  fix s :: "('d, 'm, 'z) env_scheme" and r' s'
  assume ok: "ok (db s)" and run: "bindS m k s = (r', s')"
  then obtain r s1 where m: "m s = (r, s1)" and k: "k r s1 = (r', s')"
    by (auto simp: bindS_iff)
  from runsD [OF assms(1) ok m] obtain evs where
    1: "ok (db s1)" "R1 r evs" "run_events astep (alpha (db s)) evs = Some (alpha (db s1))" by blast
  from runsD [OF assms(2) 1(1) k] obtain evs' where
    2: "ok (db s')" "R2 r r' evs'" "run_events astep (alpha (db s1)) evs' = Some (alpha (db s'))" by blast
  have "run_events astep (alpha (db s)) (evs @ evs') = Some (alpha (db s'))"
    by (simp add: run_events_append 1(3) 2(3))
  with 2(1) assms(3) [OF 1(2) 2(2)] show
    "ok (db s') \<and> (\<exists>evs. R r' evs \<and> run_events astep (alpha (db s)) evs = Some (alpha (db s')))" by blast
qed

text \<open>What follows a part that only reads can rely on what the part answered.\<close>

lemma runs_after_read:
  fixes m :: "(('d, 'm, 'z) env_scheme, 'a) comp" and k :: "'a \<Rightarrow> (('d, 'm, 'z) env_scheme, 'b) comp"
  assumes "\<And>J. keeps_db J m" and "\<And>a s s'. m s = (Inr a, s') \<Longrightarrow> runs R (k a)" and "\<And>e. R (Inl e) []"
  shows "runs R (bindE m k)"
proof (rule runsI)
  fix s :: "('d, 'm, 'z) env_scheme" and r' s'
  assume ok: "ok (db s)" and run: "bindE m k s = (r', s')"
  obtain r s1 where m: "m s = (r, s1)" by (cases "m s")
  have db1: "db s1 = db s" using keepsD [OF assms(1) [of "\<lambda>d. d = db s"] _ m] by simp
  show "ok (db s') \<and> (\<exists>evs. R r' evs \<and> run_events astep (alpha (db s)) evs = Some (alpha (db s')))"
  proof (cases r)
    case (Inl e)
    with run m have "r' = Inl e" "s' = s1" by (simp_all add: bindE_def bindS_def fail_def)
    with ok db1 assms(3) [of e] show ?thesis by (intro conjI exI [of _ "[]"]) simp_all
  next
    case (Inr a)
    with run m have "k a s1 = (r', s')" by (simp add: bindE_def bindS_def)
    from runsD [OF assms(2) [OF m [unfolded Inr]] _ this] ok db1 show ?thesis by simp
  qed
qed

lemma runs_then_reads:
  assumes "runs R m" and "\<And>r J. keeps_db J (k r)" and "\<And>r evs r'. R r evs \<Longrightarrow> R' r' evs"
  shows "runs R' (bindS m k)"
  by (rule runs_bindS [OF assms(1), of "\<lambda>_ _ evs. evs = []"])
    (auto intro: runs_reads assms(2) assms(3))

lemma runs_after_readS: "(\<And>J. keeps_db J m) \<Longrightarrow> (\<And>r. runs R (k r)) \<Longrightarrow> runs R (bindS m k)"
  by (rule runs_bindS [of "\<lambda>_ evs. evs = []" _ "\<lambda>_. R"]) (auto intro: runs_reads)

lemma runs_then_readsE: "runs (\<lambda>_. P) m \<Longrightarrow> (\<And>a J. keeps_db J (k a)) \<Longrightarrow> runs (\<lambda>_. P) (bindE m k)"
  unfolding bindE_def by (erule runs_then_reads) (auto intro: keeps_fail split: sum.splits)

lemma runs_wrapE: "runs (\<lambda>_. P) m \<Longrightarrow> runs (\<lambda>_. P) (wrapE k msg m)"
  unfolding wrapE_def by (erule runs_then_reads) (auto intro: keeps_rules split: sum.splits)

lemma runs_grpc_answer: "runs (\<lambda>_. P) m \<Longrightarrow> runs (\<lambda>_. P) (grpc_answer lib dn m)"
  unfolding grpc_answer_def
  by (erule runs_then_reads) (auto intro: keeps_rules split: sum.splits option.splits)

lemma runs_snd:
  "runs (\<lambda>_. P) m \<Longrightarrow> ok (db s) \<Longrightarrow>
    ok (db (snd (m s))) \<and> (\<exists>evs. P evs \<and> run_events astep (alpha (db s)) evs = Some (alpha (db (snd (m s)))))"
  by (simp add: runs_def)

lemma runs_ret: "R (Inr a) [] \<Longrightarrow> runs R (ret a)"
  by (rule runsI) (auto simp: ret_def intro!: exI [of _ "[]"])

lemma runs_fail: "R (Inl e) [] \<Longrightarrow> runs R (fail e)"
  by (rule runsI) (auto simp: fail_def intro!: exI [of _ "[]"])

end

section \<open>The book\<close>

record entry =
  en_owner :: uuid
  en_stage :: string
  en_lines :: "(uuid \<times> int \<times> int) list"     \<comment> \<open>product, quantity, price of one\<close>
  en_amount :: i64

type_synonym book = "uuid \<Rightarrow> entry option"

datatype book_event =
    Placed uuid uuid "(uuid \<times> int \<times> int) list"   \<comment> \<open>order, owner, lines\<close>
  | Settled uuid string

definition amount_of :: "(uuid \<times> int \<times> int) list \<Rightarrow> i64" where
  "amount_of ls = word_of_int (\<Sum>(p, q, m)\<leftarrow>ls. m * q)"

definition lines_ok :: "(uuid \<times> int \<times> int) list \<Rightarrow> bool" where
  "lines_ok ls \<longleftrightarrow> ls \<noteq> [] \<and> distinct (map fst ls) \<and> (\<forall>(p, q, m) \<in> set ls. 0 < q \<and> 0 \<le> m) \<and>
     0 \<le> sint (amount_of ls)"

definition final_stages :: "string set" where
  "final_stages = {OrderStatusConfirmed, OrderStatusCancelled, OrderStatusFailed}"

fun book_step :: "book \<Rightarrow> book_event \<Rightarrow> book option" where
  "book_step v (Placed i u ls) =
     (if v i = None \<and> lines_ok ls
      then Some (v(i \<mapsto> \<lparr>en_owner = u, en_stage = OrderStatusPending, en_lines = ls, en_amount = amount_of ls\<rparr>))
      else None)"
| "book_step v (Settled i stage) =
     (case v i of None \<Rightarrow> None
      | Some en \<Rightarrow> if en_stage en = OrderStatusPending \<and> stage \<in> final_stages
                 then Some (v(i \<mapsto> en\<lparr>en_stage := stage\<rparr>)) else None)"

definition book_ok :: "book \<Rightarrow> bool" where
  "book_ok v \<longleftrightarrow> (\<forall>i en. v i = Some en \<longrightarrow> lines_ok (en_lines en) \<and> en_amount en = amount_of (en_lines en) \<and>
     en_stage en \<in> insert OrderStatusPending final_stages)"

text \<open>The book that a database holds.\<close>

definition line_of :: "OrderItem \<Rightarrow> uuid \<times> int \<times> int" where
  "line_of i = (i_ProductID i, sint (i_Quantity i), sint (i_UnitPrice i))"

definition lines_of :: "order_db \<Rightarrow> uuid \<Rightarrow> (uuid \<times> int \<times> int) list" where
  "lines_of d oid = map line_of [i \<leftarrow> order_items d. i_OrderID i = oid]"

definition order_book :: "order_db \<Rightarrow> book" where
  "order_book d = (\<lambda>oid. map_option (\<lambda>r. \<lparr>en_owner = o_UserID r, en_stage = o_Status r, en_lines = lines_of d oid,
     en_amount = o_TotalAmount r\<rparr>) (tbl_get o_ID (orders d) oid))"

interpretation book: refinement amounts_ok order_book book_step book_ok
proof unfold_locales
  fix v ev v'
  assume "book_ok v" "book_step v ev = Some v'"
  then show "book_ok v'"
    by (cases ev) (force simp: book_ok_def split: if_splits option.splits)+
qed

section \<open>The statements\<close>

lemma order_book_set:
  assumes "tbl_get o_ID (orders d) oid = Some r" and "o_ID r' = oid"
  shows "order_book (d\<lparr>orders := tbl_set o_ID (orders d) oid r'\<rparr>) = (order_book d)(oid \<mapsto>
    \<lparr>en_owner = o_UserID r', en_stage = o_Status r', en_lines = lines_of d oid, en_amount = o_TotalAmount r'\<rparr>)"
  using assms by (auto simp: order_book_def lines_of_def tbl_get_set fun_eq_iff)

lemma status_update:
  assumes ok: "amounts_ok d" and nxt: "nxt \<in> final_stages"
  shows "on_orders (sql_update orders_schema (status_where oid) (status_set nxt now)) d =
    (case tbl_get o_ID (orders d) oid of
       None \<Rightarrow> (Inr 0, d)
     | Some r \<Rightarrow>
         if o_Status r \<noteq> OrderStatusPending then (Inr 0, d)
         else (Inr 1, d\<lparr>orders := tbl_set o_ID (orders d) oid (r\<lparr>o_Status := nxt, o_UpdatedAt := now\<rparr>)\<rparr>))"
proof -
  have wf: "tbl_wf orders_schema (orders d)" using ok by (simp add: amounts_ok_def order_db_ok_def)
  have "order_row_err (r\<lparr>o_Status := nxt, o_UpdatedAt := now\<rparr>) = None"
    if "tbl_get o_ID (orders d) oid = Some r" for r
    using tbl_wf_row [OF wf that] nxt by (auto simp: order_row_err_def final_stages_def order_status_defs)
  then show ?thesis
    by (auto simp: on_orders_def ost.update_key [OF wf] status_where_def status_set_def
        dest: tbl_get_SomeD split: option.splits)
qed

lemma order_book_status:
  fixes oid :: uuid and now :: time
  assumes ok: "amounts_ok d" and nxt: "nxt \<in> final_stages"
  defines "d' \<equiv> snd (on_orders (sql_update orders_schema (status_where oid) (status_set nxt now)) d)"
  shows "amounts_ok d' \<and>
    order_book d' = (case book_step (order_book d) (Settled oid nxt) of None \<Rightarrow> order_book d | Some v \<Rightarrow> v)"
proof
  show "amounts_ok d'" unfolding d'_def using ok by (rule amounts_status)
  show "order_book d' = (case book_step (order_book d) (Settled oid nxt) of None \<Rightarrow> order_book d | Some v \<Rightarrow> v)"
  proof (cases "tbl_get o_ID (orders d) oid")
    case None
    then show ?thesis
      unfolding d'_def status_update [OF ok nxt] by (simp add: order_book_def)
  next
    case (Some r)
    then have en: "order_book d oid = Some \<lparr>en_owner = o_UserID r, en_stage = o_Status r,
        en_lines = lines_of d oid, en_amount = o_TotalAmount r\<rparr>"
      by (simp add: order_book_def)
    show ?thesis
      unfolding d'_def status_update [OF ok nxt]
      using Some order_book_set [OF Some] tbl_get_SomeD [OF Some] nxt by (auto simp: en)
  qed
qed

lemma runs_UpdateStatus:
  assumes "nxt \<in> final_stages"
  shows "book.runs (\<lambda>r evs. evs = [] \<or> evs = [Settled oid nxt]) (repo_UpdateStatus oid nxt :: ('z, unit) order_comp)"
proof -
  have "book.runs (\<lambda>r evs. evs = [] \<or> evs = [Settled oid nxt])
      (query (on_orders (sql_update orders_schema (status_where oid) (status_set nxt now))) :: ('z, nat) order_comp)"
    for now
  proof (rule book.runsI)
    fix s :: "(order_db, message, 'z) env_scheme" and r s'
    assume ok: "amounts_ok (db s)"
      and run: "query (on_orders (sql_update orders_schema (status_where oid) (status_set nxt now))) s = (r, s')"
    from query_cases [OF run] consider "db s' = db s"
      | "db s' = snd (on_orders (sql_update orders_schema (status_where oid) (status_set nxt now)) (db s))"
      by (metis snd_conv)
    then show "amounts_ok (db s') \<and> (\<exists>evs. (evs = [] \<or> evs = [Settled oid nxt]) \<and>
        run_events book_step (order_book (db s)) evs = Some (order_book (db s')))"
    proof cases
      case 1
      with ok show ?thesis by (intro conjI exI [of _ "[]"]) simp_all
    next
      case 2
      note eff = order_book_status [OF ok assms, of oid now, folded 2]
      show ?thesis
      proof (cases "book_step (order_book (db s)) (Settled oid nxt)")
        case None
        with eff show ?thesis by (intro conjI exI [of _ "[]"]) simp_all
      next
        case (Some v)
        with eff show ?thesis
          by (intro conjI exI [of _ "[Settled oid nxt]"]) (simp_all del: book_step.simps)
      qed
    qed
  qed
  then show ?thesis
    unfolding repo_UpdateStatus_def
    by (intro book.runs_after_read [OF keeps_time_Now] book.runs_then_readsE book.runs_wrapE) (auto intro: keeps_rules)
qed

section \<open>Placing an order\<close>

lemma tbl_get_new: "oid \<notin> o_ID ` set t \<Longrightarrow> o_ID row = oid \<Longrightarrow>
    tbl_get o_ID (t @ [row]) i = (if i = oid then Some row else tbl_get o_ID t i)"
  by (induction t) auto

lemma map_line_of:
  assumes "map i_ProductID rows = map i_ProductID items" and "map i_Quantity rows = map i_Quantity items"
    and "map i_UnitPrice rows = map i_UnitPrice items"
  shows "map line_of rows = map line_of items"
proof -
  have "map line_of xs = zip (map i_ProductID xs) (zip (map (sint \<circ> i_Quantity) xs) (map (sint \<circ> i_UnitPrice) xs))" for xs
    by (induction xs) (auto simp: line_of_def)
  with assms show ?thesis by (metis map_map)
qed

lemma order_book_placed:
  assumes ok: "amounts_ok d" and new: "oid \<notin> o_ID ` set (orders d)" "o_ID row = oid"
    and rows: "item_rows oid ids now (map (\<lambda>item. item\<lparr>i_OrderID := oid\<rparr>) items) = Inr rows" and "items \<noteq> []"
    and total: "o_TotalAmount row = sum_list (map CalculateSubtotal items)" and "o_Status row = OrderStatusPending"
    and ok': "order_db_ok (d\<lparr>orders := orders d @ [row], order_items := order_items d @ rows\<rparr>)"
  shows "book_step (order_book d) (Placed oid (o_UserID row) (map line_of items)) =
    Some (order_book (d\<lparr>orders := orders d @ [row], order_items := order_items d @ rows\<rparr>))"
proof -
  let ?d' = "d\<lparr>orders := orders d @ [row], order_items := order_items d @ rows\<rparr>"
  note r = item_rows_ok [OF rows]
  have own: "i_OrderID i = oid" if "i \<in> set rows" for i using r that by blast
  have other: "i_OrderID i \<noteq> oid" if "i \<in> set (order_items d)" for i
    using ok new(1) that by (auto simp: amounts_ok_def)
  have ls: "map line_of rows = map line_of items"
    by (rule map_line_of) (use r in \<open>simp_all add: comp_def\<close>)
  have lines: "lines_of ?d' i = (if i = oid then map line_of items else lines_of d i)" for i
    using own other by (auto simp: lines_of_def filter_id_conv filter_empty_conv ls)
  have sum: "amount_of (map line_of items) = o_TotalAmount row"
    by (simp add: amount_of_def total sum_list_CalculateSubtotal line_of_def comp_def)
  have "0 \<le> sint (o_TotalAmount row)"
    using ok' by (auto simp: order_db_ok_def tbl_wf_def order_row_err_def)
  moreover have "distinct (map fst (map line_of items))"
  proof -
    have "distinct (map (\<lambda>r. (i_OrderID r, i_ProductID r)) rows)"
      using ok' by (auto simp: order_db_ok_def tbl_wf_def)
    moreover have "map (\<lambda>r. (i_OrderID r, i_ProductID r)) rows = map (Pair oid) (map i_ProductID rows)"
      using own by simp
    ultimately have "distinct (map i_ProductID rows)" by (simp only: distinct_map)
    with r show ?thesis by (simp add: line_of_def comp_def)
  qed
  moreover have "\<forall>(p, q, m) \<in> set (map line_of rows). 0 < q \<and> 0 \<le> m"
    using r by (auto simp: line_of_def item_row_err_def)
  ultimately have "lines_ok (map line_of items)"
    using assms(5) ls by (auto simp: lines_ok_def sum)
  moreover have "order_book d oid = None" using new(1) by (simp add: order_book_def tbl_get_None_iff)
  moreover have "order_book ?d' = (order_book d)(oid \<mapsto> \<lparr>en_owner = o_UserID row, en_stage = OrderStatusPending,
      en_lines = map line_of items, en_amount = o_TotalAmount row\<rparr>)"
    by (auto simp: order_book_def fun_eq_iff lines tbl_get_new [OF new] assms(7))
  ultimately show ?thesis by (simp add: sum)
qed

definition placed :: "uuid \<Rightarrow> (uuid \<times> int \<times> int) list \<Rightarrow> goerr + Order \<Rightarrow> book_event list \<Rightarrow> bool" where
  "placed u ls r evs \<longleftrightarrow> (case r of Inl _ \<Rightarrow> evs = [] \<or> (\<exists>i. evs = [Placed i u ls]) | Inr ord \<Rightarrow> evs = [Placed (o_ID ord) u ls])"

lemma runs_order_Create:
  assumes subtotals: "\<forall>i \<in> set (o_Items ord). i_Subtotal i = CalculateSubtotal i"
  shows "book.runs (placed (o_UserID ord) (map line_of (o_Items ord)))
    (repo_order_Create cfg (Some ord) :: ('z, Order) order_comp)"
proof (rule book.runsI)
  fix s :: "(order_db, message, 'z) env_scheme" and r s'
  assume ok: "amounts_ok (db s)" and run: "repo_order_Create cfg (Some ord) s = (r, s')"
  have ok': "amounts_ok (db s')" using keepsD [OF keeps_amounts_Create [OF subtotals] ok run] .
  from order_Create_cases [OF run subtotals]
  show "amounts_ok (db s') \<and> (\<exists>evs. placed (o_UserID ord) (map line_of (o_Items ord)) r evs \<and>
      run_events book_step (order_book (db s)) evs = Some (order_book (db s')))"
  proof (elim disjE exE conjE)
    fix e assume "db s' = db s" "r = Inl e"
    with ok show ?thesis by (intro conjI exI [of _ "[]"]) (simp_all add: placed_def)
  next
    fix oid ids now rows row
    assume rows: "item_rows oid ids now (map (\<lambda>item. item\<lparr>i_OrderID := oid\<rparr>) (o_Items ord)) = Inr rows"
      and row: "o_ID row = oid" "o_Items ord \<noteq> []"
        "o_TotalAmount row = sum_list (map CalculateSubtotal (o_Items ord))" "o_UserID row = o_UserID ord"
        "o_Status row = OrderStatusPending" "oid \<notin> o_ID ` set (orders (db s))"
      and db': "db s' = (db s)\<lparr>orders := orders (db s) @ [row], order_items := order_items (db s) @ rows\<rparr>"
      and id: "\<forall>ord'. r = Inr ord' \<longrightarrow> o_ID ord' = oid"
    have "order_db_ok (db s')" using ok' by (simp add: amounts_ok_def)
    from order_book_placed [OF ok row(6,1) rows row(2,3,5) this [unfolded db']]
    have "run_events book_step (order_book (db s)) [Placed oid (o_UserID ord) (map line_of (o_Items ord))] =
        Some (order_book (db s'))"
      by (simp add: db' row(4) del: book_step.simps)
    moreover have "placed (o_UserID ord) (map line_of (o_Items ord)) r [Placed oid (o_UserID ord) (map line_of (o_Items ord))]"
      using id by (auto simp: placed_def split: sum.splits)
    ultimately show ?thesis using ok' by blast
  qed
qed

section \<open>The operations\<close>

text \<open>
  What an operation may do to the book. An order is placed for the caller, with the products and quantities of the
  request; when its announcement fails it is settled at once.
\<close>

fun requested :: "uuid_lib \<Rightarrow> CreateOrderItemRequest option \<Rightarrow> uuid option \<times> int" where
  "requested u None = (None, 0)"
| "requested u (Some rq) = (uuid_Parse u (ci_ProductId rq), sint (ci_Quantity rq))"

fun order_asks :: "'r order_svc \<Rightarrow> order_op \<Rightarrow> book_event list \<Rightarrow> bool" where
  "order_asks c (OpCreateOrder ctx (Some reqs)) evs \<longleftrightarrow> evs = [] \<or>
     (\<exists>i cl u ls. (evs = [Placed i u ls] \<or> evs = [Placed i u ls, Settled i OrderStatusFailed]) \<and>
        ClaimsFromContext ctx = Some cl \<and> uuid_Parse (os_ul c) (UserID cl) = Some u \<and>
        map (\<lambda>(p, q, m). (Some p, q)) ls = map (requested (os_ul c)) reqs)"
| "order_asks c (PaymentCompletedMessage body) evs \<longleftrightarrow> evs = [] \<or>
     (\<exists>e. UnmarshalPaymentCompleted (os_json c) body = Inr e \<and> evs = [Settled (pc_OrderID e) OrderStatusConfirmed])"
| "order_asks c (PaymentFailedMessage body) evs \<longleftrightarrow> evs = [] \<or>
     (\<exists>e. UnmarshalPaymentFailed (os_json c) body = Inr e \<and> evs = [Settled (pf_OrderID e) OrderStatusCancelled])"
| "order_asks c opn evs \<longleftrightarrow> evs = []"

lemma order_asks_none [simp]: "order_asks c opn []"
  by (cases "(c, opn, [] :: book_event list)" rule: order_asks.cases) simp_all

lemma check_request_items_parse:
  "check_request_items u reqs ids = Inr ids' \<Longrightarrow> \<forall>r \<in> set reqs. \<exists>rq i. r = Some rq \<and> uuid_Parse u (ci_ProductId rq) = Some i"
  by (induction u reqs ids rule: check_request_items.induct) (auto split: if_splits option.splits)

lemma make_items_requested:
  "make_items u m reqs items = Inr res \<Longrightarrow>
   \<forall>r \<in> set reqs. \<exists>rq i. r = Some rq \<and> uuid_Parse u (ci_ProductId rq) = Some i \<Longrightarrow>
   map (\<lambda>i. (Some (i_ProductID i), sint (i_Quantity i))) res =
     map (\<lambda>i. (Some (i_ProductID i), sint (i_Quantity i))) items @ map (requested u) reqs"
proof (induction u m reqs items rule: make_items.induct)
  case (3 u m rq reqs items)
  then show ?case by (auto split: option.splits if_splits)
qed auto

lemma buildOrderItems_requested:
  "buildOrderItems c reqs s = (Inr items, s') \<Longrightarrow>
   map (\<lambda>(p, q, m). (Some p, q)) (map line_of items) = map (requested (os_ul c)) reqs"
  by (auto simp: buildOrderItems_def of_sum_Inr bindE_Inr fail_eq line_of_def comp_def split: if_splits
      dest!: check_request_items_parse make_items_requested)

definition placed_as :: "uuid_lib \<Rightarrow> goerr + pb_Order \<Rightarrow> book_event list \<Rightarrow> bool" where
  "placed_as u r evs \<longleftrightarrow> (case r of Inl _ \<Rightarrow> True | Inr pb \<Rightarrow> \<exists>i owner ls. evs = [Placed i owner ls] \<and> pbo_Id pb = uuid_String u i)"

lemma placed_as_Inl [simp]: "placed_as u (Inl e) evs"
  by (simp add: placed_as_def)

lemma runs_CreateOrder:
  "book.runs (\<lambda>r evs. order_asks c (OpCreateOrder ctx req) evs \<and> placed_as (os_ul c) r evs) (CreateOrder c ctx req :: ('r, 'z, pb_Order) os_comp)"
proof (cases req)
  case (Some reqs)
  have failed: "OrderStatusFailed \<in> final_stages" by (simp add: final_stages_def)
  let ?ord = "\<lambda>u items. snd (CalculateTotal \<lparr>o_ID = uuid_Nil, o_UserID = u, o_Status = '''', o_TotalAmount = 0,
      o_Items = items, o_CreatedAt = 0, o_UpdatedAt = 0\<rparr>)"
  have store: "book.runs (placed u (map line_of items)) (repo_order_Create cfg (Some ((?ord u items)\<lparr>o_TotalAmount := n\<rparr>)) ::
      (order_db, message, 'r, 'z) renv_scheme \<Rightarrow> _)"
    if "\<forall>i \<in> set items. i_Subtotal i = CalculateSubtotal i" for u items cfg n
  proof -
    have "map fill_subtotal items = items" using that by (intro map_idI) (simp add: fill_subtotal_def)
    then show ?thesis
      using runs_order_Create [of "(?ord u items)\<lparr>o_TotalAmount := n\<rparr>" cfg] that by (simp add: CalculateTotal_def)
  qed
  let ?announce = "\<lambda>res ord. bindS (PublishOrderCreated c (Some ord)) (\<lambda>published. ((case published of
      Inl err \<Rightarrow> bindS (compensateReservations c res ''publish_failed'') (\<lambda>_.
        bindS (repo_UpdateStatus (o_ID ord) OrderStatusFailed) (\<lambda>_.
          fail (New KindInternal ''failed to start order processing'')))
    | Inr _ \<Rightarrow> ret (toProtoOrder (os_ul c) ord)) :: ('r, 'z, pb_Order) os_comp))"
  let ?after = "\<lambda>res created. (case created of
      Inl err \<Rightarrow> bindS (compensateReservations c res ''order_persist_failed'') (\<lambda>_. fail err)
    | Inr ord \<Rightarrow> ?announce res ord)"
  have give_up: "book.runs (\<lambda>r evs. (\<exists>e. r = Inl e) \<and> (evs = [] \<or> evs = [Settled i OrderStatusFailed]))
      (bindS (repo_UpdateStatus i OrderStatusFailed) (\<lambda>_. fail e) :: ('r, 'z, pb_Order) os_comp)" for i e
    by (rule book.runs_bindS [OF runs_UpdateStatus [OF failed], of "\<lambda>_ r evs. (\<exists>e. r = Inl e) \<and> evs = []"])
      (auto intro: book.runs_fail)
  have settle: "book.runs (\<lambda>r evs. (case r of Inl _ \<Rightarrow> evs = [] \<or> evs = [Settled (o_ID ord) OrderStatusFailed]
      | Inr pb \<Rightarrow> evs = [] \<and> pbo_Id pb = uuid_String (os_ul c) (o_ID ord))) (?announce res ord)" for ord res
    by (auto intro!: book.runs_after_readS book.runs_ret book.runs_mono [OF give_up] keeps_rules
        simp: toProtoOrder_def split: sum.splits)
  have placing: "book.runs (\<lambda>r evs. (evs = [] \<or> (\<exists>i. evs = [Placed i u (map line_of items)] \<or>
        evs = [Placed i u (map line_of items), Settled i OrderStatusFailed])) \<and> placed_as (os_ul c) r evs)
      (bindS (repo_order_Create (os_cfg c) (Some ((?ord u items)\<lparr>o_TotalAmount := n\<rparr>))) (?after res))"
    if "\<forall>i \<in> set items. i_Subtotal i = CalculateSubtotal i" for u items res n
  proof (rule book.runs_bindS [OF store [OF that]])
    show "book.runs (\<lambda>r' evs. case r of Inl _ \<Rightarrow> (\<exists>e. r' = Inl e) \<and> evs = []
        | Inr ord \<Rightarrow> (case r' of Inl _ \<Rightarrow> evs = [] \<or> evs = [Settled (o_ID ord) OrderStatusFailed]
            | Inr pb \<Rightarrow> evs = [] \<and> pbo_Id pb = uuid_String (os_ul c) (o_ID ord))) (?after res r)" for r
    proof (cases r)
      case (Inl err)
      then show ?thesis by (auto intro!: book.runs_after_readS book.runs_fail keeps_rules)
    next
      case (Inr ord)
      with settle [of ord res] show ?thesis by simp
    qed
  qed (auto simp: placed_def placed_as_def split: sum.splits)
  show ?thesis
  proof (cases "length reqs = 0")
    case True
    then show ?thesis by (simp add: Some CreateOrder_def book.runs_fail)
  next
    case False
    have ordered: "book.runs (\<lambda>r evs. order_asks c (OpCreateOrder ctx (Some reqs)) evs \<and> placed_as (os_ul c) r evs)
        (bindE (buildOrderItems c reqs) (\<lambda>items. bindE (reserve_loop c items []) (\<lambda>res.
           bindS (repo_order_Create (os_cfg c) (Some ((?ord u items)\<lparr>o_TotalAmount := n items\<rparr>))) (?after res))))"
      if "ClaimsFromContext ctx = Some cl" "uuid_Parse (os_ul c) (UserID cl) = Some u" for cl u n
    proof (intro book.runs_after_read [OF keeps_buildOrderItems] book.runs_after_read [OF keeps_reserve_loop])
      fix items and s s' :: "(order_db, message, 'r, 'z) renv_scheme" and res
      assume built: "buildOrderItems c reqs s = (Inr items, s')"
      show "book.runs (\<lambda>r evs. order_asks c (OpCreateOrder ctx (Some reqs)) evs \<and> placed_as (os_ul c) r evs)
          (bindS (repo_order_Create (os_cfg c) (Some ((?ord u items)\<lparr>o_TotalAmount := n items\<rparr>))) (?after res))"
        using that buildOrderItems_requested [OF built]
        by (intro book.runs_mono [OF placing [OF buildOrderItems_subtotals [OF built]]]) (auto simp del: map_map)
    qed simp_all
    show ?thesis
      unfolding CreateOrder_def Some option.case Let_def case_prod_unfold reserveItems_def if_not_P [OF False]
      by (rule book.runs_after_read [OF keeps_requireAuthenticated])
        (auto simp: requireAuthenticated_def ret_def fail_def intro!: book.runs_fail book.runs_fail [unfolded fail_def] ordered simp del: order_asks.simps split: option.splits)
  qed
next
  case None
  then show ?thesis by (simp add: CreateOrder_def book.runs_fail)
qed

lemma keeps_after_payment:
  "keeps_db J (bindE (wrapE KindInternal msg (repo_order_GetByID oid)) (\<lambda>ord. confirm_items c (o_ID ord) (o_Items ord)))"
  "keeps_db J (bindE (wrapE KindInternal msg (repo_order_GetByID oid)) (\<lambda>ord. release_items c (o_Items ord)))"
  by (intro keeps_rules)+

lemma runs_advance:
  "nxt \<in> final_stages \<Longrightarrow> book.runs (\<lambda>_ evs. evs = [] \<or> evs = [Settled oid nxt]) (advance_status oid nxt msg)"
  unfolding advance_status_def
  by (rule book.runs_then_reads [OF runs_UpdateStatus]) (auto intro: keeps_rules split: sum.splits)

lemma runs_payment_messages:
  "book.runs (\<lambda>_. order_asks c (PaymentCompletedMessage body)) (on_payment_completed c body)"
  "book.runs (\<lambda>_. order_asks c (PaymentFailedMessage body)) (on_payment_failed c body)"
proof -
  have adv: "book.runs (\<lambda>_ evs. evs = [] \<or> evs = [Settled oid nxt]) (bindE (advance_status oid nxt msg) k)"
    if "nxt \<in> final_stages" "\<And>a J. keeps_db J (k a)" for oid nxt msg and k :: "unit \<Rightarrow> ('r, 'z, unit) os_comp"
    by (rule book.runs_then_readsE [OF runs_advance [OF that(1)] that(2)])
  show "book.runs (\<lambda>_. order_asks c (PaymentCompletedMessage body)) (on_payment_completed c body)"
    "book.runs (\<lambda>_. order_asks c (PaymentFailedMessage body)) (on_payment_failed c body)"
    unfolding on_payment_completed_def on_payment_failed_def handlePaymentSucceeded_def handlePaymentFailed_def
    by (auto split: sum.split intro!: book.runs_fail book.runs_mono [OF adv] keeps_after_payment simp: final_stages_def)
qed

text \<open>A run of an operation is a run of the book.\<close>

lemma runs_order_step:
  assumes "amounts_ok (db s)"
  shows "amounts_ok (db (order_step c opn s)) \<and> (\<exists>evs. order_asks c opn evs \<and>
    run_events book_step (order_book (db s)) evs = Some (order_book (db (order_step c opn s))))"
proof -
  have "book.runs (\<lambda>_. order_asks c (OpCreateOrder ctx req)) (grpc_CreateOrder c ctx req)"
    "book.runs (\<lambda>_. order_asks c (OpGetOrder ctx oid)) (grpc_GetOrder c ctx oid)"
    "book.runs (\<lambda>_. order_asks c (OpListMyOrders ctx lim)) (grpc_ListMyOrders c ctx lim)" for ctx req oid lim
    unfolding grpc_CreateOrder_def grpc_GetOrder_def grpc_ListMyOrders_def
    by (intro book.runs_grpc_answer book.runs_mono [OF runs_CreateOrder] book.runs_reads keeps_order_reads; simp)+
  note all = this runs_payment_messages
  from all [THEN book.runs_snd, OF assms] show ?thesis by (cases opn) (simp_all only: order_step.simps)
qed



section \<open>The service refines the book\<close>

lemma order_path_book:
  assumes "order_path c s0 s" and "db s0 = empty_orders"
  shows "amounts_ok (db s) \<and> (\<exists>evs. run_events book_step (\<lambda>_. None) evs = Some (order_book (db s)))"
  using assms
proof (induction rule: order_path.induct)
  case (here s)
  have "amounts_ok (db s) \<and> order_book (db s) = (\<lambda>_. None)"
    by (simp add: here empty_orders_def amounts_ok_def order_db_ok_def tbl_wf_def order_book_def)
  then show ?case by (intro conjI exI [of _ "[]"]) simp_all
next
  case (step s s1 opn)
  then obtain evs where 1: "amounts_ok (db s1)" "run_events book_step (\<lambda>_. None) evs = Some (order_book (db s1))" by blast
  from runs_order_step [OF 1(1)] obtain evs' where
    2: "amounts_ok (db (order_step c opn s1))"
       "run_events book_step (order_book (db s1)) evs' = Some (order_book (db (order_step c opn s1)))" by blast
  have "run_events book_step (\<lambda>_. None) (evs @ evs') = Some (order_book (db (order_step c opn s1)))"
    by (simp add: run_events_append 1(2) 2(2))
  with 2(1) show ?case by blast
next
  case (outside s s1 s2)
  then show ?case by simp
qed






text \<open>
  Hence every book that the service can come to is the outcome of a history of orders placed and settled, starting
  with no orders: each order has at least one line, of different products, and the amount of its lines, and its stage
  is one of the four.
\<close>

theorem order_book_has_a_history:
  assumes "order_reach c s"
  shows "book_ok (order_book (db s)) \<and> (\<exists>evs. run_events book_step (\<lambda>_. None) evs = Some (order_book (db s)))"
proof -
  from assms order_path_book obtain evs where
    evs: "run_events book_step (\<lambda>_. None) evs = Some (order_book (db s))"
    unfolding order_reach_def by blast
  have "book_ok (order_book (db s))"
    using evs by (induction rule: run_events_induct) (simp add: book_ok_def, rule book.ainv_step)
  with evs show ?thesis by blast
qed

theorem order_book_has_a_history_witness:
  "book_ok (order_book (db shop_paid)) \<and> (\<exists>evs. run_events book_step (\<lambda>_. None) evs = Some (order_book (db shop_paid)))"
  by (rule order_book_has_a_history [OF shop_reach(2)])

end
