(* ===== verification/Coherence.thy ===== *)
theory Coherence
  imports Inventory
begin

text \<open>
  The caching decorator of the product service against the service without it. As long as nothing fails, every
  product in the cache is the row on file, because whatever changes a row drops the entry before the
  next operation; so reads by id, and the operations that change products, answer as if there were no cache. Operations
  are handled one after the other: a read that overlaps a change can store an entry that the change has outdated.
\<close>

section \<open>Entries that agree with the table\<close>

text \<open>
  What the cache is relied on for: a client that is there, a printer of ids that can be read back, and
  \<open>encoding/json\<close> giving back the product that was stored.
\<close>

definition cache_sound :: "product_svc \<Rightarrow> bool" where
  "cache_sound c \<longleftrightarrow> store c = NewProductCacheStore (st_products (store c)) (st_searches (store c)) \<and>
     client (st_products (store c)) \<and> uuid_ok (ul c) \<and>
     (\<forall>p data. Enc (st_products (store c)) p = Inr data \<longrightarrow> Dec (st_products (store c)) data = Inr p)"

abbreviation key_of :: "product_svc \<Rightarrow> uuid \<Rightarrow> string" where
  "key_of c i \<equiv> productKey (ul c) (store c) i"

abbreviation row_of :: "product_db \<Rightarrow> uuid \<Rightarrow> Product option" where
  "row_of d i \<equiv> tbl_get p_ID (products d) i"

definition coherent :: "product_svc \<Rightarrow> keyspace \<Rightarrow> product_db \<Rightarrow> bool" where
  "coherent c m d \<longleftrightarrow> (\<forall>i data expiry. m (key_of c i) = Some (data, expiry) \<longrightarrow>
     (\<exists>p. Dec (st_products (store c)) data = Inr p \<and> row_of d i = Some p))"

definition in_step :: "product_svc \<Rightarrow> (product_db, message, 'z) cenv_scheme \<Rightarrow> bool" where
  "in_step c s \<longleftrightarrow> healthy s \<and> product_db_ok (db s) \<and> coherent c (redis s) (db s)"

lemma key_of_inj: "cache_sound c \<Longrightarrow> key_of c i = key_of c j \<longleftrightarrow> i = j"
  unfolding productKey_def Build_single cache_sound_def uuid_ok_def by (metis option.inject)

lemma key_of_nonempty: "cache_sound c \<Longrightarrow> key_of c i \<noteq> ''''"
  unfolding cache_sound_def by (metis NewStore_productKey)

lemma search_key_apart: "cache_sound c \<Longrightarrow> searchKey (store c) q cat l off \<noteq> key_of c i"
proof
  assume "cache_sound c" and eq: "searchKey (store c) q cat l off = key_of c i"
  then have "store c = NewProductCacheStore (st_products (store c)) (st_searches (store c))"
    by (simp add: cache_sound_def)
  then have "productKB (store c) = NewKeyBuilder ''product-service:product''"
    "searchKB (store c) = NewKeyBuilder ''product-service:search''"
    by (metis NewProductCacheStore_def ProductCacheStore.select_convs(3,4) append.simps)+
  with eq show False
    by (simp add: searchKey_def productKey_def Build_def join_def NewKeyBuilder_def)
qed

lemma coherent_drop: "coherent c m d \<Longrightarrow> m' \<subseteq>\<^sub>m m \<Longrightarrow> coherent c m' d"
  unfolding coherent_def map_le_def by (metis domI)

lemma coherent_store:
  assumes "cache_sound c" and "coherent c m d" and "Enc (st_products (store c)) p = Inr data" and "row_of d (p_ID p) = Some p"
  shows "coherent c (m(key_of c (p_ID p) \<mapsto> (data, expiry))) d"
  using assms by (auto simp: coherent_def key_of_inj cache_sound_def)

lemma coherent_elsewhere:
  assumes "cache_sound c" and "coherent c m d" and "\<forall>i. k \<noteq> key_of c i"
  shows "coherent c (m(k := v)) d"
  using assms by (auto simp: coherent_def)

lemma coherentD:
  "coherent c m d \<Longrightarrow> m (key_of c i) = Some (data, expiry) \<Longrightarrow> Dec (st_products (store c)) data = Inr p \<Longrightarrow>
    row_of d i = Some p"
  by (fastforce simp: coherent_def)

section \<open>Cache operations\<close>

lemma in_step_simps [simp]:
  "in_step c (s\<lparr>calls := n\<rparr>) = in_step c s" "in_step c (s\<lparr>ticks := n\<rparr>) = in_step c s"
  "in_step c (s\<lparr>gens := n\<rparr>) = in_step c s"
  by (simp_all add: in_step_def healthy_def)

lemma store_GetProduct_in_step:
  assumes "in_step c s" and "cache_sound c" and "store_GetProduct (ul c) (store c) i s = (r, s1)"
  shows "in_step c s1 \<and> db s1 = db s \<and> (\<forall>p. r = Inr (Some p) \<longrightarrow> row_of (db s) i = Some p)"
proof -
  have h: "healthy s" using assms(1) by (simp add: in_step_def)
  have s1: "s1 = s\<lparr>calls := calls s + 1, ticks := ticks s + 1\<rparr>"
    using assms(2,3) h key_of_nonempty [OF assms(2), of i]
    by (auto simp: store_GetProduct_def Cache_Get_def redis_Get_def extern_healthy bindS_def cache_sound_def
        ret_def fail_def split: sum.splits if_splits)
  have "row_of (db s) i = Some p" if "r = Inr (Some p)" for p
    using Cache_Get_hit [of "st_products (store c)" "key_of c i" s p s1] assms(1,3) that
    by (auto simp: store_GetProduct_def in_step_def lookup_def dest: coherentD split: option.splits if_splits sum.splits)
  with assms(1) s1 show ?thesis by simp
qed

lemma store_SetProduct_in_step:
  assumes "in_step c s" and "cache_sound c" and "row_of (db s) (p_ID p) = Some p"
    and "store_SetProduct (ul c) (store c) (Some p) ttl s = (r, s1)"
  shows "in_step c s1 \<and> db s1 = db s"
proof -
  have h: "healthy s" using assms(1) by (simp add: in_step_def)
  have "db s1 = db s" "healthy s1"
    using assms(4) h
    by (auto simp: store_SetProduct_def Cache_Set_def redis_Set_def wrapE_def bindS_def extern_healthy
        ret_def fail_def healthy_def split: if_splits sum.splits)
  then show ?thesis
    using Cache_Set_redis [of "st_products (store c)" "key_of c (p_ID p)" p ttl s r s1] assms(1,4)
      coherent_store [OF assms(2) _ _ assms(3)]
    by (auto simp: in_step_def store_SetProduct_def)
qed

lemma keeps_searches_in_step [keeps_rules]:
  assumes "cache_sound c"
  shows "keeps (in_step c) (store_GetSearch (store c) q cat l off)"
    and "keeps (in_step c) (store_SetSearch (store c) q cat l off found ttl)"
proof -
  show "keeps (in_step c) (store_GetSearch (store c) q cat l off)"
    unfolding store_GetSearch_def Cache_Get_def redis_Get_def
    by (intro keeps_rules keeps_extern) (auto simp: keeps_def in_step_def)
  show "keeps (in_step c) (store_SetSearch (store c) q cat l off found ttl)"
    unfolding store_SetSearch_def Cache_Set_def redis_Set_def
    by (intro keeps_rules keeps_extern)
      (use search_key_apart [OF assms] in \<open>auto simp: keeps_def in_step_def healthy_def intro: coherent_elsewhere [OF assms]\<close>)
qed

lemma keeps_reads_in_step [keeps_rules]:
  "keeps (in_step c) (query (\<lambda>d. (f d, d)))" "keeps (in_step c) (extern (ret ()))"
  by (auto simp: query_def intro!: keeps_extern) (auto simp: keeps_def on_db_def in_step_def ret_def)

section \<open>Reads by id\<close>

text \<open>What the table answers.\<close>

definition by_id :: "product_db \<Rightarrow> uuid \<Rightarrow> goerr + Product" where
  "by_id d i =
     (if i = uuid_Nil then Inl (New KindInvalidInput ''Product ID cannot be nil'')
      else case row_of d i of None \<Rightarrow> Inl (New KindNotFound ''product not found'') | Some p \<Rightarrow> Inr p)"

lemma repo_GetByID_in_step:
  assumes "healthy s"
  shows "repo_GetByID i s = (by_id (db s) i, if i = uuid_Nil then s else s\<lparr>calls := calls s + 1\<rparr>)"
  using assms
  by (auto simp: repo_GetByID_def by_id_def query_def extern_healthy on_db_def bindS_def ret_def fail_def
      split: option.splits)

lemma cached_GetByID_in_step:
  assumes "in_step c s" and "cache_sound c" and "cached_GetByID c i s = (r, s')"
  shows "(row_of (db s) uuid_Nil = None \<longrightarrow> r = by_id (db s) i) \<and> in_step c s' \<and> db s' = db s"
proof -
  obtain x s1 where get: "store_GetProduct (ul c) (store c) i s = (x, s1)"
    by (cases "store_GetProduct (ul c) (store c) i s")
  note s1 = store_GetProduct_in_step [OF assms(1,2) get]
  show ?thesis
  proof (cases "\<exists>p. x = Inr (Some p)")
    case True
    then show ?thesis
      using assms(3) get s1 by (auto simp: cached_GetByID_def bindS_def ret_def by_id_def)
  next
    case False
    obtain y s2 where repo: "repo_GetByID i s1 = (y, s2)" by (cases "repo_GetByID i s1")
    have h: "healthy s1" using s1 by (simp add: in_step_def)
    have y: "y = by_id (db s) i" and s2: "in_step c s2" "db s2 = db s"
      using repo repo_GetByID_in_step [OF h, of i] s1 by (auto split: if_splits)
    have run: "(r, s') = (case y of Inl e \<Rightarrow> (Inl e, s2)
        | Inr p \<Rightarrow> (Inr p, snd (store_SetProduct (ul c) (store c) (Some p) (productTTL c) s2)))"
      using assms(3) get repo False
      by (auto simp: cached_GetByID_def bindS_def bindE_def fail_def ret_def split: sum.splits option.splits prod.splits)
    show ?thesis
    proof (cases y)
      case (Inl e)
      with y have "by_id (db s) i = Inl e" by simp
      with run y s2 show ?thesis by simp
    next
      case (Inr p)
      then have "row_of (db s2) (p_ID p) = Some p"
        using y s2 by (auto simp: by_id_def dest: tbl_get_SomeD split: if_splits option.splits)
      moreover have "by_id (db s) i = Inr p" using Inr y by simp
      ultimately show ?thesis
        using store_SetProduct_in_step [OF s2(1) assms(2) _ surjective_pairing] run y s2 by simp
    qed
  qed
qed


lemma cached_lookups_in_step:
  assumes "cache_sound c"
  shows "in_step c s \<Longrightarrow> cached_lookups c ids res miss s = (r, s') \<Longrightarrow> in_step c s' \<and> db s' = db s"
proof (induction ids arbitrary: s res miss)
  case Nil
  then show ?case by (simp add: ret_eq)
next
  case (Cons i ids)
  obtain x s1 where get: "store_GetProduct (ul c) (store c) i s = (x, s1)"
    by (cases "store_GetProduct (ul c) (store c) i s")
  note s1 = store_GetProduct_in_step [OF Cons.prems(1) assms get]
  have "\<exists>res' miss'. cached_lookups c ids res' miss' s1 = (r, s')"
    using Cons.prems(2) get by (auto simp: bindS_def split: sum.splits option.splits)
  with Cons.IH s1 show ?case by metis
qed

lemma cache_each_in_step:
  assumes "cache_sound c"
  shows "in_step c s \<Longrightarrow> \<forall>p \<in> set ps. row_of (db s) (p_ID p) = Some p \<Longrightarrow> cache_each c ps res s = (r, s') \<Longrightarrow>
    in_step c s' \<and> db s' = db s"
proof (induction ps arbitrary: s res)
  case Nil
  then show ?case by (simp add: ret_eq)
next
  case (Cons p ps)
  obtain x s1 where set1: "store_SetProduct (ul c) (store c) (Some p) (productTTL c) s = (x, s1)"
    by (cases "store_SetProduct (ul c) (store c) (Some p) (productTTL c) s")
  have s1: "in_step c s1" "db s1 = db s"
    using store_SetProduct_in_step [OF Cons.prems(1) assms _ set1] Cons.prems(2) by auto
  have "cache_each c ps (res @ [p]) s1 = (r, s')"
    using Cons.prems(3) set1 by (simp add: bindS_def)
  with Cons.IH [OF s1(1)] s1(2) Cons.prems(2) show ?case by simp
qed

lemma keeps_cached_GetByIDs_in_step:
  assumes "cache_sound c"
  shows "keeps (in_step c) (cached_GetByIDs c ids)"
proof (rule keepsI)
  fix s :: "(product_db, message, 'a) cenv_scheme"
  assume s: "in_step c s"
  obtain x s1 where look: "cached_lookups c ids [] [] s = (x, s1)" by (cases "cached_lookups c ids [] [] s")
  note s1 = cached_lookups_in_step [OF assms s look]
  have each: "in_step c (snd (bindE (repo_GetByIDs miss) (\<lambda>fromDB. cache_each c fromDB res) s1))" for res miss
  proof -
    obtain y s2 where repo: "repo_GetByIDs miss s1 = (y, s2)" by (cases "repo_GetByIDs miss s1")
    have "keeps (in_step c) (repo_GetByIDs miss :: ('a, Product list) cached_comp)"
      unfolding repo_GetByIDs_def by (intro keeps_rules)
    from keepsD [OF this _ repo] s1 have s2: "in_step c s2" by blast
    show ?thesis
    proof (cases y)
      case (Inl e)
      with repo s2 show ?thesis by (simp add: bindE_def bindS_def fail_def)
    next
      case (Inr rows)
      have "distinct (map p_ID (products (db s1)))" 
        using conjunct1 [OF s1] by (simp add: in_step_def product_db_ok_def tbl_wf_def product_schema_def)
      moreover have "db s2 = db s1" "set rows \<subseteq> set (products (db s1))"
        using repo Inr s1
        by (auto simp: repo_GetByIDs_def bindE_Inr wrapE_Inr query_def extern_healthy on_db_def in_step_def ret_eq healthy_def
            split: if_splits dest!: ret_eq [THEN iffD1])
      ultimately have "\<forall>p \<in> set rows. row_of (db s2) (p_ID p) = Some p" by (auto intro: tbl_get_in_set)
      from cache_each_in_step [OF assms s2 this surjective_pairing] repo Inr show ?thesis
        by (simp add: bindE_def bindS_def)
    qed
  qed
  show "in_step c (snd (cached_GetByIDs c ids s))"
    using s s1 look each
    by (auto simp: cached_GetByIDs_def bindE_def bindS_def ret_def fail_def split: sum.splits)
qed


section \<open>Changes\<close>

text \<open>
  A change of the rows in \<open>S\<close> alone, which has none to show when it answers an error, and leaves
  the cache to its caller.
\<close>

definition touches :: "uuid set \<Rightarrow> ('z, 'a) cached_comp \<Rightarrow> bool" where
  "touches S m \<longleftrightarrow> (\<forall>s r s'. healthy s \<longrightarrow> product_db_ok (db s) \<longrightarrow> m s = (r, s') \<longrightarrow>
     healthy s' \<and> product_db_ok (db s') \<and> redis s' = redis s \<and>
     (\<forall>j. j \<notin> S \<or> (\<exists>e. r = Inl e) \<longrightarrow> row_of (db s') j = row_of (db s) j))"

lemma touchesD:
  "touches S m \<Longrightarrow> healthy s \<Longrightarrow> product_db_ok (db s) \<Longrightarrow> m s = (r, s') \<Longrightarrow>
    healthy s' \<and> product_db_ok (db s') \<and> redis s' = redis s \<and>
    (\<forall>j. j \<notin> S \<or> (\<exists>e. r = Inl e) \<longrightarrow> row_of (db s') j = row_of (db s) j)"
  unfolding touches_def by blast

text \<open>What a method leaves of the state beside the tables.\<close>

definition calm :: "keyspace \<Rightarrow> (product_db, message, 'z) cenv_scheme \<Rightarrow> bool" where
  "calm m s \<longleftrightarrow> healthy s \<and> redis s = m"

lemma keeps_calm [keeps_rules]:
  "keeps (calm m) time_Now" "keeps (calm m) uuid_New" "keeps (calm m) (query f)" "keeps (calm m) (extern (ret ()))"
  by (auto simp: keeps_def time_Now_def uuid_New_def query_def extern_healthy on_db_def ret_def calm_def
      split: prod.splits)

lemma keeps_calm_ops [keeps_rules]:
  "keeps (calm m) (repo_Create p)" "keeps (calm m) (repo_Update p)" "keeps (calm m) (repo_Delete i)"
  "keeps (calm m) (repo_ReserveStock i q)" "keeps (calm m) (repo_ReleaseStock i q)" "keeps (calm m) (repo_ConfirmStock i q)"
  "keeps (calm m) (MarkProcessed e t i ord)"
  unfolding repo_Create_def repo_Update_def repo_Delete_def repo_ReserveStock_def repo_ReleaseStock_def
    repo_ConfirmStock_def MarkProcessed_def
  by (intro keeps_rules)+

lemma touchesI:
  assumes "\<And>m. keeps (calm m) body" and "keeps_db product_db_ok body"
    and "\<And>s r s' j. healthy s \<Longrightarrow> product_db_ok (db s) \<Longrightarrow> body s = (r, s') \<Longrightarrow> j \<notin> S \<or> (\<exists>e. r = Inl e) \<Longrightarrow>
      row_of (db s') j = row_of (db s) j"
  shows "touches S body"
  unfolding touches_def
proof (intro allI impI)
  fix s r s'
  assume h: "healthy s" and ok: "product_db_ok (db s)" and run: "body s = (r, s')"
  from keepsD [OF assms(1) [of "redis s"] _ run] h have "healthy s' \<and> redis s' = redis s"
    by (simp add: calm_def)
  moreover from keepsD [OF assms(2) _ run] ok have "product_db_ok (db s')" by simp
  ultimately show "healthy s' \<and> product_db_ok (db s') \<and> redis s' = redis s \<and>
      (\<forall>j. j \<notin> S \<or> (\<exists>e. r = Inl e) \<longrightarrow> row_of (db s') j = row_of (db s) j)"
    using assms(3) [OF h ok run] by simp
qed

lemma calm_healthy: "(\<And>m. keeps (calm m) body) \<Longrightarrow> keeps healthy body"
  by (auto simp: keeps_def calm_def)

lemma touches_statements:
  "touches {i} (repo_ReserveStock i q :: ('z, unit) cached_comp)"
  "touches {i} (repo_ReleaseStock i q :: ('z, unit) cached_comp)"
  "touches {i} (repo_ConfirmStock i q :: ('z, unit) cached_comp)"
  "touches {i} (repo_Delete i :: ('z, unit) cached_comp)"
  "touches {p_ID p} (repo_Update (Some p) :: ('z, Product) cached_comp)"
proof -
  have elsewhere: "tbl_get p_ID (tbl_set p_ID (products d) i r) j = row_of d j"
    if "row_of d i = Some r0" "p_ID r = p_ID r0" "j \<noteq> i" for d i j and r r0 :: Product
    using that tbl_get_SomeD [OF that(1)] by (simp add: tbl_get_set)
  show "touches {i} (repo_ReserveStock i q :: ('z, unit) cached_comp)"
  proof (rule touchesI, rule keeps_rules, rule keeps_rules)
    fix s s' :: "(product_db, message, 'z) cenv_scheme" and r j
    assume "healthy s" and "product_db_ok (db s)" and "repo_ReserveStock i q s = (r, s')"
      and "j \<notin> {i} \<or> (\<exists>e. r = Inl e)"
    then show "row_of (db s') j = row_of (db s) j"
      using reserve_cases [of s i q r s'] by (auto simp: healthyD elsewhere)
  qed
  show "touches {i} (repo_ReleaseStock i q :: ('z, unit) cached_comp)"
  proof (rule touchesI, rule keeps_rules, rule keeps_rules)
    fix s s' :: "(product_db, message, 'z) cenv_scheme" and r j
    assume "healthy s" and "product_db_ok (db s)" and "repo_ReleaseStock i q s = (r, s')"
      and "j \<notin> {i} \<or> (\<exists>e. r = Inl e)"
    then show "row_of (db s') j = row_of (db s) j"
      using release_cases [of s i q r s'] by (auto simp: healthyD elsewhere)
  qed
  show "touches {i} (repo_ConfirmStock i q :: ('z, unit) cached_comp)"
  proof (rule touchesI, rule keeps_rules, rule keeps_rules)
    fix s s' :: "(product_db, message, 'z) cenv_scheme" and r j
    assume "healthy s" and "product_db_ok (db s)" and "repo_ConfirmStock i q s = (r, s')"
      and "j \<notin> {i} \<or> (\<exists>e. r = Inl e)"
    then show "row_of (db s') j = row_of (db s) j"
      using confirm_cases [of s i q r s'] by (auto simp: healthyD elsewhere)
  qed
  show "touches {i} (repo_Delete i :: ('z, unit) cached_comp)"
  proof (rule touchesI, rule keeps_rules, rule keeps_rules)
    fix s s' :: "(product_db, message, 'z) cenv_scheme" and r j
    assume h: "healthy s" and ok: "product_db_ok (db s)" and run: "repo_Delete i s = (r, s')"
      and j: "j \<notin> {i} \<or> (\<exists>e. r = Inl e)"
    have row: "delete_set now p = Inr (p\<lparr>p_IsActive := False, p_UpdatedAt := now\<rparr>) \<and>
        product_row_err (p\<lparr>p_IsActive := False, p_UpdatedAt := now\<rparr>) = None"
      if "product_row_err p = None" for p now
      using that by (simp add: delete_set_def product_row_err_def)
    from exec_update_cases [OF del.keyed_update_axioms ok row run [unfolded repo_Delete_def]] j h
    show "row_of (db s') j = row_of (db s) j" by (auto simp: healthyD elsewhere)
  qed
  show "touches {p_ID p} (repo_Update (Some p) :: ('z, Product) cached_comp)"
  proof (rule touchesI, rule keeps_rules, rule keeps_rules)
    fix s s' :: "(product_db, message, 'z) cenv_scheme" and r j
    assume h: "healthy s" and ok: "product_db_ok (db s)" and run: "repo_Update (Some p) s = (r, s')"
      and j: "j \<notin> {p_ID p} \<or> (\<exists>e. r = Inl e)"
    have wf: "tbl_wf product_schema (products (db s))" using ok by (simp add: product_db_ok_def)
    show "row_of (db s') j = row_of (db s) j"
    proof (cases r)
      case (Inr p')
      from repo_Update_healthy [OF h ok run [unfolded Inr]] Inr j show ?thesis by (auto simp: elsewhere)
    next
      case (Inl e)
      with run h show ?thesis
        by (auto simp: repo_Update_def bindE_def bindS_def time_Now_def query_def extern_healthy on_db_def
            on_products_def upd.update_key [OF wf] fail_def ret_def split: option.splits if_splits sum.splits)
    qed
  qed
qed

lemma touches_inbox:
  assumes "touches S m" and "\<And>k. keeps (calm k) m" and "keeps_db product_db_ok m"
  shows "touches S (WithTx True (Some (bindE (MarkProcessed e t i ord) (\<lambda>already. if already then ret () else m))))"
    (is "touches S (WithTx True (Some ?body))")
proof (rule touchesI)
  show "keeps (calm k) (WithTx True (Some ?body))" for k
    by (rule keeps_WithTx_gen) (auto simp: calm_def healthy_def intro: keeps_rules assms(2))
  show "keeps_db product_db_ok (WithTx True (Some ?body))"
    by (intro keeps_rules assms(3))
  fix s s' :: "(product_db, message, 'a) cenv_scheme" and r j
  assume h: "healthy s" and ok: "product_db_ok (db s)" and run: "WithTx True (Some ?body) s = (r, s')"
    and j: "j \<notin> S \<or> (\<exists>e. r = Inl e)"
  have calm: "keeps (calm k) ?body" for k by (intro keeps_rules assms(2))
  show "row_of (db s') j = row_of (db s) j"
  proof (cases r)
    case (Inl x)
    then have "db s' = db s"
      using tx_healthy_error [OF run [unfolded Inl] h calm_healthy [OF calm]] by simp
    then show ?thesis by simp
  next
    case (Inr a)
    from WithTx_cases [OF run] Inr obtain s2 where
      body: "?body (s\<lparr>calls := calls s + 1\<rparr>) = (Inr (), s2)" and s': "db s' = db s2" by auto
    from body obtain b s1 where mark: "MarkProcessed e t i ord (s\<lparr>calls := calls s + 1\<rparr>) = (Inr b, s1)"
      and rest: "(if b then ret () else m) s1 = (Inr (), s2)" by (auto simp: bindE_Inr)
    have "products (db s1) = products (db s)"
      using MarkProcessed_cases [OF mark] by simp
    moreover have "healthy s1" "product_db_ok (db s1)"
      using keepsD [OF calm_healthy [OF keeps_calm_ops(7)] _ mark] keepsD [OF keeps_MarkProcessed _ mark] h ok by simp_all
    ultimately have "products (db s1) = products (db s)" "healthy s1" "product_db_ok (db s1)" by simp_all
    with rest touchesD [OF assms(1), of s1 "Inr ()" s2] j Inr s' show ?thesis
      by (auto simp: ret_eq split: if_splits)
  qed
qed


section \<open>Every operation keeps the cache in step\<close>

lemma coherent_rows: "coherent c m d \<Longrightarrow> (\<And>i p. row_of d i = Some p \<Longrightarrow> row_of d' i = Some p) \<Longrightarrow> coherent c m d'"
  unfolding coherent_def by blast

lemma store_InvalidateProduct_healthy:
  assumes "healthy s" and "cache_sound c"
  shows "store_InvalidateProduct (ul c) (store c) i s =
    (Inr (), s\<lparr>calls := calls s + 1, redis := redis s |` (- {key_of c i})\<rparr>)"
  using assms
  by (simp add: store_InvalidateProduct_def Cache_Delete_def redis_Del_def wrapE_def bindS_def extern_healthy
      ret_def cache_sound_def)

lemma keeps_change_in_step:
  assumes "touches {i} m" and "cache_sound c"
  shows "keeps (in_step c) (then_invalidate c i m)"
proof (rule keepsI)
  fix s :: "(product_db, message, 'a) cenv_scheme"
  assume s: "in_step c s"
  obtain r s1 where run: "m s = (r, s1)" by (cases "m s")
  from s touchesD [OF assms(1) _ _ run] have s1: "healthy s1" "product_db_ok (db s1)" "redis s1 = redis s"
    and rows: "\<And>j. j \<noteq> i \<or> (\<exists>e. r = Inl e) \<Longrightarrow> row_of (db s1) j = row_of (db s) j"
    by (auto simp: in_step_def)
  show "in_step c (snd (then_invalidate c i m s))"
  proof (cases r)
    case (Inl e)
    then have "coherent c (redis s1) (db s1)"
      using s s1(3) rows by (auto simp: in_step_def intro: coherent_rows)
    with Inl run s1 show ?thesis by (simp add: then_invalidate_def bindE_def bindS_def fail_def in_step_def)
  next
    case (Inr a)
    have "coherent c (redis s1 |` (- {key_of c i})) (db s1)"
      unfolding coherent_def s1(3) restrict_map_def
    proof (intro allI impI)
      fix j data expiry
      assume "(if key_of c j \<in> - {key_of c i} then redis s (key_of c j) else None) = Some (data, expiry)"
      then have "j \<noteq> i" "redis s (key_of c j) = Some (data, expiry)" by (auto split: if_splits)
      with s rows [of j] show "\<exists>p. Dec (st_products (store c)) data = Inr p \<and> row_of (db s1) j = Some p"
        by (simp add: in_step_def coherent_def)
    qed
    with Inr run s1 store_InvalidateProduct_healthy [OF s1(1) assms(2), of i] show ?thesis
      by (simp add: then_invalidate_def bindE_def bindS_def ret_def in_step_def healthy_def)
  qed
qed

lemma keeps_create_in_step: "keeps (in_step c) (repo_Create p :: ('z, Product) cached_comp)"
proof (rule keepsI)
  fix s :: "(product_db, message, 'z) cenv_scheme"
  assume s: "in_step c s"
  let ?J = "\<lambda>d. product_db_ok d \<and> (\<forall>j q. row_of (db s) j = Some q \<longrightarrow> row_of d j = Some q)"
  have grows: "row_of (snd (on_products (sql_insert product_schema row) d)) j = Some q"
    if "row_of d j = Some q" for row d j q
    using that by (auto simp: on_products_def tbl_get_append dest: sql_insert_cases split: prod.splits option.splits)
  have "keeps_db ?J (query (on_products (sql_insert product_schema row)))" for row
    by (rule keeps_query) (use grows on_products_insert_ok in blast)
  then have "keeps_db ?J (repo_Create p)"
    unfolding repo_Create_def by (intro keeps_rules)
  from keepsI_snd [OF this, of s] keepsI_snd [OF keeps_calm_ops(1) [of "redis s"], of s p] s
  show "in_step c (snd (repo_Create p s))"
    by (auto simp: in_step_def calm_def intro: coherent_rows)
qed

lemma keeps_cached_Update_in_step:
  "cache_sound c \<Longrightarrow> keeps (in_step c) (cached_Update c p :: ('z, Product) cached_comp)"
  unfolding cached_Update_def by (intro keeps_change_in_step touches_statements)

lemma keeps_GetByID_in_step: "cache_sound c \<Longrightarrow> keeps (in_step c) (cached_GetByID c i)"
  by (rule keepsI) (use cached_GetByID_in_step surjective_pairing in blast)

lemma release_event_eq:
  "release_event c e = then_invalidate c (sr_ProductID e) (WithTx True (Some (bindE (MarkProcessed (sr_EventID e) eventTypeStockRelease (sr_ProductID e)
      (sr_OrderID e)) (\<lambda>already. if already then ret () else repo_ReleaseStock (sr_ProductID e) (sr_Quantity e)))))"
  by (simp add: release_event_def then_invalidate_def)

lemma confirm_event_eq:
  "confirm_event c e = then_invalidate c (sc_ProductID e) (WithTx True (Some (bindE (MarkProcessed (sc_EventID e) eventTypeStockConfirm (sc_ProductID e)
      (sc_OrderID e)) (\<lambda>already. if already then ret () else repo_ConfirmStock (sc_ProductID e) (sc_Quantity e)))))"
  by (simp add: confirm_event_def then_invalidate_def)

lemma product_step_in_step:
  fixes s :: "(product_db, message, 'z) cenv_scheme"
  assumes "cache_sound c" and "in_step c s"
  shows "in_step c (product_step c opn s)"
proof -
  note reads = keeps_GetByID_in_step [OF assms(1)] keeps_cached_GetByIDs_in_step [OF assms(1)]
    keeps_searches_in_step [OF assms(1)] keeps_cached_Update_in_step [OF assms(1)]
  note changes = keeps_change_in_step [OF _ assms(1)] touches_statements touches_inbox keeps_create_in_step
  have "keeps (in_step c) (grpc_CreateProduct c ctx cr :: ('z, pb_Product) cached_comp)"
    "keeps (in_step c) (grpc_UpdateProduct c ctx ur :: ('z, pb_Product) cached_comp)"
    "keeps (in_step c) (grpc_DeleteProduct c ctx dr :: ('z, bool) cached_comp)"
    "keeps (in_step c) (grpc_GetProduct c gr :: ('z, pb_Product) cached_comp)"
    "keeps (in_step c) (grpc_GetProductsByIDs c ir :: ('z, pb_Product list) cached_comp)"
    "keeps (in_step c) (grpc_SearchProducts c se :: ('z, pb_Product list) cached_comp)"
    "keeps (in_step c) (grpc_ReserveStock c sr :: ('z, unit) cached_comp)"
    "keeps (in_step c) (grpc_ReleaseStock c sr :: ('z, unit) cached_comp)"
    "keeps (in_step c) (grpc_ConfirmStock c sr :: ('z, unit) cached_comp)" for ctx cr ur dr gr ir se sr
    unfolding product_grpc_defs product_svc_defs cached_Create_def cached_Delete_def
      cached_ReserveStock_def cached_ReleaseStock_def cached_ConfirmStock_def cached_Search_def repo_Search_def
    by (intro keeps_rules reads changes)+
  moreover have "keeps (in_step c) (StockRelease_Handle c body :: ('z, unit) cached_comp)"
    "keeps (in_step c) (StockConfirm_Handle c body :: ('z, unit) cached_comp)" for body
    unfolding StockRelease_Handle_def StockConfirm_Handle_def release_event_eq confirm_event_eq
    by (intro keeps_rules changes)+
  ultimately show ?thesis
    using assms(2) by (cases opn) (auto intro: keepsI_snd)
qed

section \<open>The service without its cache\<close>

text \<open>The same service with a store that has no client: it is the repository.\<close>

definition without_cache :: "product_svc \<Rightarrow> product_svc" where
  "without_cache c = c\<lparr>store := (store c)\<lparr>st_products := (st_products (store c))\<lparr>client := False\<rparr>\<rparr>\<rparr>"

lemma without_cache_simps [simp]:
  "ul (without_cache c) = ul c" "status (without_cache c) = status c" "json (without_cache c) = json c"
  "trgm (without_cache c) = trgm c"
  "st_searches (store (without_cache c)) = st_searches (store c)"
  by (simp_all add: without_cache_def)

lemma cached_GetByID_without: "cached_GetByID (without_cache c) i = (repo_GetByID i :: ('z, Product) cached_comp)"
proof
  fix s :: "(product_db, message, 'z) cenv_scheme"
  show "cached_GetByID (without_cache c) i s = repo_GetByID i s"
    by (cases "repo_GetByID i s")
      (auto simp: cached_GetByID_def without_cache_def store_GetProduct_def store_SetProduct_def Cache_Get_def
        Cache_Set_def bindE_def bindS_def fail_def ret_def split: sum.splits)
qed

lemma then_invalidate_without: "then_invalidate (without_cache c) i m = m"
proof
  fix s
  show "then_invalidate (without_cache c) i m s = m s"
    by (cases "m s") (auto simp: then_invalidate_def without_cache_def store_InvalidateProduct_def Cache_Delete_def
        bindE_def bindS_def fail_def ret_def split: sum.splits)
qed

text \<open>What the invalidation adds to a change is not seen in its answer nor in the tables.\<close>

lemma then_invalidate_same:
  "fst (then_invalidate c i m s) = fst (m s) \<and> db (snd (then_invalidate c i m s)) = db (snd (m s))"
  using then_invalidate_cases [OF surjective_pairing [of "then_invalidate c i m s"]] by fastforce

lemma grpc_answer_same:
  assumes "fst (m s) = fst (n s)"
  shows "fst (grpc_answer lib dn m s) = fst (grpc_answer lib dn n s)"
  using assms
  by (auto simp: grpc_answer_def bindS_def fail_def ret_def split: prod.splits sum.splits option.splits)

lemma grpc_answer_db: "db (snd (grpc_answer lib dn m s)) = db (snd (m s))"
  by (auto simp: grpc_answer_def bindS_def fail_def ret_def split: prod.splits sum.splits option.splits)

section \<open>Runs without failures\<close>

text \<open>The cache starts without products; its entries may disappear at any time.\<close>

inductive warm_reach :: "product_svc \<Rightarrow> (product_db, message, 'z) cenv_scheme \<Rightarrow> bool" for c where
  start: "healthy s \<Longrightarrow> db s = \<lparr>products = [], processed_events = []\<rparr> \<Longrightarrow> (\<forall>i. redis s (key_of c i) = None) \<Longrightarrow>
    warm_reach c s"
| step: "warm_reach c s \<Longrightarrow> warm_reach c (product_step c opn s)"
| evict: "warm_reach c s \<Longrightarrow> healthy s' \<Longrightarrow> db s' = db s \<Longrightarrow> redis s' \<subseteq>\<^sub>m redis s \<Longrightarrow> warm_reach c s'"

lemma warm_reach_in_step: "warm_reach c s \<Longrightarrow> cache_sound c \<Longrightarrow> in_step c s"
proof (induction rule: warm_reach.induct)
  case (start s)
  then show ?case by (simp add: in_step_def product_db_ok_def tbl_wf_def product_schema_def coherent_def)
next
  case (step s opn)
  then show ?case by (simp add: product_step_in_step)
next
  case (evict s s')
  then show ?case by (auto simp: in_step_def intro: coherent_drop)
qed

lemma svc_UpdateProduct_same:
  fixes s :: "(product_db, message, 'z) cenv_scheme"
  assumes "in_step c s" and "cache_sound c" and "row_of (db s) uuid_Nil = None"
  shows "fst (svc_UpdateProduct c ctx ur s) = fst (svc_UpdateProduct (without_cache c) ctx ur s) \<and>
    db (snd (svc_UpdateProduct c ctx ur s)) = db (snd (svc_UpdateProduct (without_cache c) ctx ur s))"
proof -
  have core: "fst (bindE (cached_Update c p) (\<lambda>_. bindE (cached_GetByID c i) (\<lambda>fresh. ret (f fresh))) s) =
      fst (bindE (repo_Update (Some p)) (\<lambda>_. bindE (repo_GetByID i) (\<lambda>fresh. ret (f fresh))) s) \<and>
      db (snd (bindE (cached_Update c p) (\<lambda>_. bindE (cached_GetByID c i) (\<lambda>fresh. ret (f fresh))) s)) =
      db (snd (bindE (repo_Update (Some p)) (\<lambda>_. bindE (repo_GetByID i) (\<lambda>fresh. ret (f fresh))) s))"
    for p i and f :: "Product \<Rightarrow> pb_Product"
  proof -
    obtain r s1 where upd: "repo_Update (Some p) s = (r, s1)" by (cases "repo_Update (Some p) s")
    obtain s2 where cupd: "cached_Update c p s = (r, s2)" and db2: "db s2 = db s1"
      using then_invalidate_same [of c "p_ID p" "repo_Update (Some p)" s] upd
      by (cases "cached_Update c p s") (auto simp: cached_Update_def)
    show ?thesis
    proof (cases r)
      case (Inl e)
      with upd cupd db2 show ?thesis by (simp add: bindE_def bindS_def fail_def)
    next
      case (Inr q)
      have s2: "in_step c s2" using keepsD [OF keeps_cached_Update_in_step [OF assms(2)] assms(1) cupd] .
      have h1: "healthy s1"
        using touchesD [OF touches_statements(5) _ _ upd] assms(1) by (simp add: in_step_def)
      from repo_Update_healthy [OF _ _ upd [unfolded Inr]] assms(1)
      have "row_of (db s2) uuid_Nil = None"
        using assms(3) by (auto simp: db2 in_step_def tbl_get_set dest: tbl_get_SomeD)
      moreover obtain x s3 where get: "cached_GetByID c i s2 = (x, s3)" by (cases "cached_GetByID c i s2")
      ultimately have "x = by_id (db s1) i" "db s3 = db s1"
        using cached_GetByID_in_step [OF s2 assms(2) get] db2 by auto
      with upd cupd Inr get repo_GetByID_in_step [OF h1, of i] show ?thesis
        by (auto simp: bindE_def bindS_def fail_def ret_def split: sum.splits)
    qed
  qed
  show ?thesis
    using core
    by (auto simp: svc_UpdateProduct_def requireAdmin_def parseProductID_def cached_GetByID_without
        cached_Update_def [of "without_cache c"] then_invalidate_without fail_def split: option.splits)
qed

lemma changes_same:
  "fst (svc_CreateProduct c ctx cr s) = fst (svc_CreateProduct (without_cache c) ctx cr s)"
  "fst (svc_DeleteProduct c ctx dr s) = fst (svc_DeleteProduct (without_cache c) ctx dr s)"
  "fst (svc_ReserveStock c sr s) = fst (svc_ReserveStock (without_cache c) sr s)"
  "fst (svc_ReleaseStock c sr s) = fst (svc_ReleaseStock (without_cache c) sr s)"
  "fst (svc_ConfirmStock c sr s) = fst (svc_ConfirmStock (without_cache c) sr s)"
  "db (snd (svc_CreateProduct c ctx cr s)) = db (snd (svc_CreateProduct (without_cache c) ctx cr s))"
  "db (snd (svc_DeleteProduct c ctx dr s)) = db (snd (svc_DeleteProduct (without_cache c) ctx dr s))"
  "db (snd (svc_ReserveStock c sr s)) = db (snd (svc_ReserveStock (without_cache c) sr s))"
  "db (snd (svc_ReleaseStock c sr s)) = db (snd (svc_ReleaseStock (without_cache c) sr s))"
  "db (snd (svc_ConfirmStock c sr s)) = db (snd (svc_ConfirmStock (without_cache c) sr s))"
  "db (snd (StockRelease_Handle c body s)) = db (snd (StockRelease_Handle (without_cache c) body s))"
  "db (snd (StockConfirm_Handle c body s)) = db (snd (StockConfirm_Handle (without_cache c) body s))"
proof -
  have then_same: "fst (bindE (then_invalidate c i m) (\<lambda>_. ret x) s) = fst (bindE m (\<lambda>_. ret x) s) \<and>
      db (snd (bindE (then_invalidate c i m) (\<lambda>_. ret x) s)) = db (snd (bindE m (\<lambda>_. ret x) s))"
    for i x and m :: "('b, unit) cached_comp" and s :: "(product_db, message, 'b) cenv_scheme"
    using then_invalidate_same [of c i m s]
    by (cases "then_invalidate c i m s"; cases "m s") (auto simp: bindE_def bindS_def fail_def ret_def split: sum.splits)
  note unfolds = product_svc_defs cached_defs requireAdmin_def parseProductID_def then_invalidate_without
  show "fst (svc_CreateProduct c ctx cr s) = fst (svc_CreateProduct (without_cache c) ctx cr s)"
    "db (snd (svc_CreateProduct c ctx cr s)) = db (snd (svc_CreateProduct (without_cache c) ctx cr s))"
    by (auto simp: unfolds split: option.splits)
  show "fst (svc_DeleteProduct c ctx dr s) = fst (svc_DeleteProduct (without_cache c) ctx dr s)"
    "db (snd (svc_DeleteProduct c ctx dr s)) = db (snd (svc_DeleteProduct (without_cache c) ctx dr s))"
    by (auto simp: unfolds then_same split: option.splits)
  show "fst (svc_ReserveStock c sr s) = fst (svc_ReserveStock (without_cache c) sr s)"
    "fst (svc_ReleaseStock c sr s) = fst (svc_ReleaseStock (without_cache c) sr s)"
    "fst (svc_ConfirmStock c sr s) = fst (svc_ConfirmStock (without_cache c) sr s)"
    "db (snd (svc_ReserveStock c sr s)) = db (snd (svc_ReserveStock (without_cache c) sr s))"
    "db (snd (svc_ReleaseStock c sr s)) = db (snd (svc_ReleaseStock (without_cache c) sr s))"
    "db (snd (svc_ConfirmStock c sr s)) = db (snd (svc_ConfirmStock (without_cache c) sr s))"
    by (auto simp: unfolds then_invalidate_same split: option.splits)
  show "db (snd (StockRelease_Handle c body s)) = db (snd (StockRelease_Handle (without_cache c) body s))"
    "db (snd (StockConfirm_Handle c body s)) = db (snd (StockConfirm_Handle (without_cache c) body s))"
    by (auto simp: StockRelease_Handle_def StockConfirm_Handle_def release_event_eq confirm_event_eq
        then_invalidate_same then_invalidate_without split: sum.splits)
qed

lemma reads_leave_db:
  "db (snd (svc_GetProduct c gr s)) = db s" "db (snd (svc_GetProductsByIDs c ir s)) = db s"
  "db (snd (svc_SearchProducts c se s)) = db s"
  using keepsI_snd [OF keeps_product_reads(1) [where J = "\<lambda>d. d = db s"]]
    keepsI_snd [OF keeps_product_reads(2) [where J = "\<lambda>d. d = db s"]]
    keepsI_snd [OF keeps_product_reads(3) [where J = "\<lambda>d. d = db s"]] by blast+

lemma bindE_ret_fst: "fst (bindE m (\<lambda>p. ret (f p)) s) = map_sum id f (fst (m s))"
  by (cases "m s") (auto simp: bindE_def bindS_def fail_def ret_def split: sum.splits)

lemma svc_GetProduct_same:
  assumes "in_step c s" and "cache_sound c" and "row_of (db s) uuid_Nil = None"
  shows "fst (svc_GetProduct c gr s) = fst (svc_GetProduct (without_cache c) gr s)"
proof -
  have "fst (cached_GetByID c i s) = fst (repo_GetByID i s)" for i
    using cached_GetByID_in_step [OF assms(1,2) surjective_pairing [of "cached_GetByID c i s"]] assms(1,3)
      repo_GetByID_in_step [of s i] by (simp add: in_step_def)
  then have "fst (bindE (cached_GetByID c i) (\<lambda>p. ret (f p)) s) = fst (bindE (repo_GetByID i) (\<lambda>p. ret (f p)) s)"
    for i and f :: "Product \<Rightarrow> pb_Product"
    by (simp add: bindE_ret_fst)
  then show ?thesis
    by (auto simp: svc_GetProduct_def parseProductID_def cached_GetByID_without split: option.splits)
qed

text \<open>
  C7: as long as nothing fails, the service with its cache is equivalent to the same service without one.
  In every state it gets into from an empty cache, whatever entries the cache has lost, it answers the lookup, the
  creation, the change and the deletion of a product and the stock requests as the service without a cache would, and every request and
  message leaves the same tables.
\<close>

theorem cache_is_transparent:
  assumes "warm_reach c s" and "cache_sound c" and "row_of (db s) uuid_Nil = None"
  shows "fst (grpc_GetProduct c gr s) = fst (grpc_GetProduct (without_cache c) gr s) \<and>
    fst (grpc_CreateProduct c ctx cr s) = fst (grpc_CreateProduct (without_cache c) ctx cr s) \<and>
    fst (grpc_UpdateProduct c ctx ur s) = fst (grpc_UpdateProduct (without_cache c) ctx ur s) \<and>
    fst (grpc_DeleteProduct c ctx dr s) = fst (grpc_DeleteProduct (without_cache c) ctx dr s) \<and>
    fst (grpc_ReserveStock c sr s) = fst (grpc_ReserveStock (without_cache c) sr s) \<and>
    fst (grpc_ReleaseStock c sr s) = fst (grpc_ReleaseStock (without_cache c) sr s) \<and>
    fst (grpc_ConfirmStock c sr s) = fst (grpc_ConfirmStock (without_cache c) sr s) \<and>
    db (product_step c opn s) = db (product_step (without_cache c) opn s)"
proof -
  note s = warm_reach_in_step [OF assms(1,2)]
  note update = svc_UpdateProduct_same [OF s assms(2,3)]
  have "db (product_step c opn s) = db (product_step (without_cache c) opn s)"
    by (cases opn; simp only: product_step.simps product_grpc_defs grpc_answer_db without_cache_simps reads_leave_db)
      (rule changes_same update [THEN conjunct2])+
  then show ?thesis
    unfolding product_grpc_defs without_cache_simps
    by (intro conjI grpc_answer_same changes_same update [THEN conjunct1] svc_GetProduct_same [OF s assms(2,3)])
qed

section \<open>A read that overlaps a change\<close>


section \<open>A concrete run\<close>

definition remembering :: "Product cache" where
  "remembering = \<lparr>client = True, Enc = (\<lambda>p. if p = demo_product then Inr ''p'' else Inl (StdError ''bad'' None)),
     Dec = (\<lambda>t. if t = ''p'' then Inr demo_product else Inl (StdError ''bad'' None))\<rparr>"

definition warm_svc :: product_svc where
  "warm_svc = demo_svc\<lparr>store := NewProductCacheStore remembering no_cache\<rparr>"

definition warm_state :: "(product_db, message) cenv" where
  "warm_state = product_step warm_svc (GetProduct (Some ''1''))
     (product_step warm_svc (CreateProduct admin_ctx (Some demo_create)) demo_start)"

lemma warm_svc_sound: "cache_sound warm_svc"
proof -
  have "ul warm_svc = plain_uuid" "store warm_svc = NewProductCacheStore remembering no_cache"
    by (simp_all add: warm_svc_def demo_svc_def)
  then show ?thesis
    by (auto simp: cache_sound_def NewProductCacheStore_def remembering_def split: if_splits)
qed

lemma warm_state_reach: "warm_reach warm_svc warm_state"
  unfolding warm_state_def
  by (intro warm_reach.step warm_reach.start) (simp_all add: demo_start_def idle_cenv_def healthy_def)

lemma warm_entry: "redis warm_state (key_of warm_svc 1) = Some (''p'', minute + 2)"
  by code_simp

lemma warm_rows: "row_of (db warm_state) uuid_Nil = None" "row_of (db warm_state) 1 = Some demo_product"
  by code_simp+

theorem cache_is_transparent_witness:
  "redis warm_state (key_of warm_svc 1) = Some (''p'', minute + 2) \<and>
   fst (grpc_GetProduct warm_svc (Some ''1'') warm_state) =
     fst (grpc_GetProduct (without_cache warm_svc) (Some ''1'') warm_state)"
  using cache_is_transparent [OF warm_state_reach warm_svc_sound warm_rows(1), of "Some ''1''" admin_ctx None None None None
      "GetProduct None"] warm_entry by blast









end
