(* ===== verification/Race.thy ===== *)
theory Race
  imports UserProps
begin

text \<open>
  Several requests for one refresh token, or one challenge, at the same time. A request looks the token up, claims
  it with one conditional statement and goes on only if the claim changed something; the parts of different requests may come in any order, with
  other requests between them. \<open>race_step\<close> is one part of one request; \<open>race_reach\<close> are the states any
  number of them can get into.
\<close>

section \<open>Requests in three parts\<close>

record ('s, 'k, 'a) exchange =
  look :: "nat \<Rightarrow> ('s, 'k) comp"
  claim :: "'k \<Rightarrow> ('s, unit) comp"
  finish :: "'k \<Rightarrow> ('s, 'a) comp"

datatype 'k phase = Looking | Claiming 'k | Finishing 'k | Answered bool

text \<open>The parts of a request one after the other, and what a part makes of its request.\<close>

definition undisturbed :: "('s, 'k, 'a) exchange \<Rightarrow> nat \<Rightarrow> ('s, 'a) comp" where
  "undisturbed ex i = bindE (look ex i) (\<lambda>k. bindE (claim ex k) (\<lambda>_. finish ex k))"

fun part :: "('s, 'k, 'a) exchange \<Rightarrow> nat \<Rightarrow> 'k phase \<Rightarrow> 's \<Rightarrow> 'k phase \<times> 's" where
  "part ex i Looking s = (case look ex i s of (Inl _, s') \<Rightarrow> (Answered False, s') | (Inr k, s') \<Rightarrow> (Claiming k, s'))"
| "part ex i (Claiming k) s =
     (case claim ex k s of (Inl _, s') \<Rightarrow> (Answered False, s') | (Inr _, s') \<Rightarrow> (Finishing k, s'))"
| "part ex i (Finishing k) s =
     (case finish ex k s of (Inl _, s') \<Rightarrow> (Answered False, s') | (Inr _, s') \<Rightarrow> (Answered True, s'))"
| "part ex i (Answered b) s = (Answered b, s)"

inductive race_step ::
  "('s, 'k, 'a) exchange \<Rightarrow> ('s \<Rightarrow> 's \<Rightarrow> bool) \<Rightarrow> (nat \<Rightarrow> 'k phase) \<times> 's \<Rightarrow> (nat \<Rightarrow> 'k phase) \<times> 's \<Rightarrow> bool"
  for ex other where
  part: "part ex i (f i) s = (p, s') \<Longrightarrow> race_step ex other (f, s) (f(i := p), s')"
| other: "other s s' \<Longrightarrow> race_step ex other (f, s) (f, s')"

inductive race_reach ::
  "('s, 'k, 'a) exchange \<Rightarrow> ('s \<Rightarrow> 's \<Rightarrow> bool) \<Rightarrow> (nat \<Rightarrow> 'k phase) \<times> 's \<Rightarrow> (nat \<Rightarrow> 'k phase) \<times> 's \<Rightarrow> bool"
  for ex other c0 where
  start: "race_reach ex other c0 c0"
| step: "race_reach ex other c0 c1 \<Longrightarrow> race_step ex other c1 c2 \<Longrightarrow> race_reach ex other c0 c2"

inductive_cases race_stepE: "race_step ex other c1 c2"

text \<open>A request that nobody disturbs takes its three parts in a row.\<close>

lemma undisturbed_reach:
  assumes "f i = Looking" and "undisturbed ex i s = (r, s')"
  shows "race_reach ex other (f, s) (f(i := Answered (\<exists>a. r = Inr a)), s')"
proof -
  have one: "race_reach ex other c0 (g(i := p), t')"
    if "race_reach ex other c0 (g, t)" "part ex i (g i) t = (p, t')" for c0 g t p t'
    using race_reach.step [OF that(1) race_step.part [where f = g and i = i, OF that(2)]] .
  obtain x s1 where look: "look ex i s = (x, s1)" by (cases "look ex i s")
  show ?thesis
  proof (cases x)
    case (Inl e)
    with assms look one [OF race_reach.start, of f s "Answered False" s1] show ?thesis
      by (auto simp: undisturbed_def bindE_def bindS_def fail_def)
  next
    case (Inr k)
    have r1: "race_reach ex other (f, s) (f(i := Claiming k), s1)"
      by (rule one [OF race_reach.start]) (simp add: assms(1) look Inr)
    obtain y s2 where claim: "claim ex k s1 = (y, s2)" by (cases "claim ex k s1")
    show ?thesis
    proof (cases y)
      case (Inl e)
      with assms look Inr claim one [OF r1, of "Answered False" s2] show ?thesis
        by (auto simp: undisturbed_def bindE_def bindS_def fail_def)
    next
      case (Inr u)
      have r2: "race_reach ex other (f, s) (f(i := Finishing k), s2)"
        using one [OF r1, of "Finishing k" s2] claim Inr by simp
      have "finish ex k s2 = (r, s')"
        using assms(2) look \<open>x = Inr k\<close> claim Inr by (simp add: undisturbed_def bindE_def bindS_def)
      with one [OF r2, of "Answered (\<exists>a. r = Inr a)" s'] show ?thesis
        by (cases r) simp_all
    qed
  qed
qed

section \<open>At most one claim succeeds\<close>

text \<open>What one step of anybody can make of the state.\<close>

definition changes :: "('s, 'k, 'a) exchange \<Rightarrow> ('s \<Rightarrow> 's \<Rightarrow> bool) \<Rightarrow> 's \<Rightarrow> 's \<Rightarrow> bool" where
  "changes ex other s s' \<longleftrightarrow>
     other s s' \<or> (\<exists>i. s' = snd (look ex i s)) \<or> (\<exists>k. s' = snd (claim ex k s)) \<or> (\<exists>k. s' = snd (finish ex k s))"

text \<open>
  The contract of a claim: when it succeeds, the thing was whole, and is spent from then on. What was looked up
  (\<open>about\<close>) stays true; \<open>sane\<close> is a condition on the end of a run that then held throughout.
\<close>

locale race =
  fixes ex :: "('s, 'k, 'a) exchange" and other :: "'s \<Rightarrow> 's \<Rightarrow> bool"
    and inv :: "'s \<Rightarrow> bool" and about :: "'k \<Rightarrow> 's \<Rightarrow> bool" and sane :: "'s \<Rightarrow> bool" and spent :: "'s \<Rightarrow> bool"
  assumes keeps_inv: "changes ex other s s' \<Longrightarrow> inv s \<Longrightarrow> inv s'"
    and keeps_about: "changes ex other s s' \<Longrightarrow> inv s \<Longrightarrow> about k s \<Longrightarrow> about k s'"
    and keeps_spent: "changes ex other s s' \<Longrightarrow> inv s \<Longrightarrow> sane s' \<Longrightarrow> spent s \<Longrightarrow> spent s'"
    and sane_before: "changes ex other s s' \<Longrightarrow> sane s' \<Longrightarrow> sane s"
    and look_about: "inv s \<Longrightarrow> look ex i s = (Inr k, s') \<Longrightarrow> about k s'"
    and claim_spends: "inv s \<Longrightarrow> about k s \<Longrightarrow> sane s' \<Longrightarrow> claim ex k s = (Inr (), s') \<Longrightarrow> \<not> spent s \<and> spent s'"
begin

definition won :: "'k phase \<Rightarrow> bool" where
  "won p \<longleftrightarrow> (\<exists>k. p = Finishing k) \<or> p = Answered True"

definition safe :: "(nat \<Rightarrow> 'k phase) \<times> 's \<Rightarrow> bool" where
  "safe c1 \<longleftrightarrow> (case c1 of (f, s) \<Rightarrow> inv s \<and> (\<forall>i k. f i = Claiming k \<longrightarrow> about k s) \<and>
     (sane s \<longrightarrow> (\<forall>i. won (f i) \<longrightarrow> spent s) \<and> (\<forall>i j. won (f i) \<longrightarrow> won (f j) \<longrightarrow> i = j)))"

lemma part_changes:
  assumes "part ex i p s = (p', s')"
  shows "changes ex other s s' \<or> (s' = s \<and> p' = p)"
proof (cases p)
  case Looking
  with assms have "s' = snd (look ex i s)" by (auto split: prod.splits sum.splits)
  then show ?thesis unfolding changes_def by blast
next
  case (Claiming k)
  with assms have "s' = snd (claim ex k s)" by (auto split: prod.splits sum.splits)
  then show ?thesis unfolding changes_def by blast
next
  case (Finishing k)
  with assms have "s' = snd (finish ex k s)" by (auto split: prod.splits sum.splits)
  then show ?thesis unfolding changes_def by blast
next
  case (Answered b)
  with assms show ?thesis by simp
qed

lemma safe_step: "race_step ex other c1 c2 \<Longrightarrow> safe c1 \<Longrightarrow> safe c2"
proof (induction rule: race_step.induct)
  case (part i f s p s')
  from part_changes [OF part.hyps] show ?case
  proof (elim disjE conjE)
    assume ch: "changes ex other s s'"
    have inv: "inv s" using part.prems by (simp add: safe_def)
    have "about k s'" if "p = Claiming k" for k
      using part.hyps that look_about [OF inv] keeps_about [OF ch inv] part.prems
      by (cases "f i") (auto simp: safe_def split: prod.splits sum.splits)
    moreover have "(won p \<longrightarrow> won (f i)) \<or> (sane s' \<longrightarrow> \<not> spent s \<and> spent s')"
      using part.hyps claim_spends [OF inv] part.prems
      by (cases "f i") (auto simp: won_def safe_def split: prod.splits sum.splits)
    ultimately show ?case
      using part.prems keeps_inv [OF ch inv] keeps_about [OF ch inv] keeps_spent [OF ch inv] sane_before [OF ch]
      by (auto simp: safe_def)
  qed (use part.prems in simp)
next
  case (other s s' f)
  then have "changes ex other s s'" by (simp add: changes_def)
  with other.prems keeps_inv keeps_about keeps_spent sane_before show ?case by (auto simp: safe_def)
qed

lemma safe_reach:
  assumes "race_reach ex other (\<lambda>_. Looking, s0) c1" and "inv s0"
  shows "safe c1"
  using assms(1)
proof (induction rule: race_reach.induct)
  case start
  with assms(2) show ?case by (simp add: safe_def won_def)
next
  case (step c1 c2)
  then show ?case by (blast intro: safe_step)
qed

lemma one_winner:
  assumes "race_reach ex other (\<lambda>_. Looking, s0) (f, s)" and "inv s0" and "sane s"
    and "f i = Answered True" and "f j = Answered True"
  shows "i = j"
  using safe_reach [OF assms(1,2)] assms(3-5) by (auto simp: safe_def won_def)

end


section \<open>Refresh tokens\<close>

text \<open>
  \<open>RefreshToken\<close> in its three parts: the row and its validity, the conditional revocation, the user and the
  new tokens.
\<close>

definition refresh_exchange ::
  "user_svc \<Rightarrow> string \<Rightarrow> ((user_db, message, 'z) uenv_scheme, RefreshToken, pb_AuthResponse) exchange" where
  "refresh_exchange c token =
     \<lparr>look = (\<lambda>_. bindS (rt_GetByTokenHash (HashRefreshToken (us_Sum256 c) token)) (\<lambda>found. case found of
          Inl err \<Rightarrow>
            if GetKind (Some err) = KindNotFound
            then fail (New KindUnauthenticated ''refresh token is invalid, expired, or already used'')
            else fail err
        | Inr rt \<Rightarrow> bindE time_Now (\<lambda>now.
            if \<not> rt_IsValid now rt
            then fail (New KindUnauthenticated ''refresh token is invalid, expired, or revoked'')
            else ret rt))),
      claim = (\<lambda>rt. rt_Revoke (t_ID rt)),
      finish = (\<lambda>rt. bindE (repo_user_GetByID (t_UserID rt)) (\<lambda>user.
        bindE (issueTokens c user) (\<lambda>tokens. ret (toProtoAuth (us_ul c) user tokens))))\<rparr>"

lemma svc_RefreshToken_parts:
  "token \<noteq> '''' \<Longrightarrow> svc_RefreshToken c (Some token) = undisturbed (refresh_exchange c token) i"
  by (auto simp: fun_eq_iff svc_RefreshToken_def undisturbed_def refresh_exchange_def bindE_def bindS_def fail_def
      ret_def split: prod.splits sum.splits)

text \<open>What happens between the parts: other requests, and anything that leaves the tables alone.\<close>

definition beside_refresh ::
  "user_svc \<Rightarrow> string \<Rightarrow> (user_db, message, 'z) uenv_scheme \<Rightarrow> (user_db, message, 'z) uenv_scheme \<Rightarrow> bool" where
  "beside_refresh c token s s' \<longleftrightarrow> db s' = db s \<or>
     (\<exists>opn. opn \<noteq> URefreshToken (Some token) \<and> s' = snd (user_step c opn s))"

context user_db_invariant
begin

lemma keeps_refresh_parts:
  fixes s s' :: "(user_db, message, 'z) uenv_scheme"
  assumes "changes (refresh_exchange c token) (beside_refresh c token) s s'" and "us_cfg c = cfg" and "J (db s)"
  shows "J (db s')"
proof -
  let ?ex = "refresh_exchange c token :: ((user_db, message, 'z) uenv_scheme, RefreshToken, pb_AuthResponse) exchange"
  have "keeps_db J (look ?ex i)" "keeps_db J (claim ?ex k)" "keeps_db J (finish ?ex k)" for i k
    by (auto simp: refresh_exchange_def intro!: keeps_rules keeps_rt_Revoke keeps_issueTokens)
  from this [THEN keepsI_snd] show ?thesis
    using assms keepsI_snd [OF keeps_user_step [OF assms(2)]]
    by (auto simp: changes_def beside_refresh_def)
qed

end

text \<open>The row of a token's id has the token's hash.\<close>

definition on_file :: "string \<Rightarrow> uuid \<Rightarrow> user_db \<Rightarrow> bool" where
  "on_file h tid d \<longleftrightarrow> (\<exists>rt \<in> set (refresh_tokens d). t_ID rt = tid \<and> t_TokenHash rt = h)"

interpretation filed: user_db_invariant cfg "on_file h tid" for cfg h tid
proof unfold_locales
  fix d :: user_db and row :: User
  assume "on_file h tid d"
  then show "on_file h tid (snd (on_users (sql_insert (users_schema cfg) row) d))"
    by (simp add: on_file_def)
next
  fix d :: user_db and rt :: RefreshToken
  assume "on_file h tid d"
  then show "on_file h tid (snd (insert_token rt d))"
    using sql_insert_superset [of "refresh_tokens d" tokens_schema rt]
    by (auto simp: on_file_def insert_token_def)
next
  fix d :: user_db and tid'
  assume "on_file h tid d"
  then obtain rt where rt: "rt \<in> set (refresh_tokens d)" "t_ID rt = tid" "t_TokenHash rt = h"
    by (auto simp: on_file_def)
  from sql_update_image [OF rt(1), of tokens_schema "revoke_where tid'" revoke_set] obtain r' where
    "r' \<in> set (snd (sql_update tokens_schema (revoke_where tid') revoke_set (refresh_tokens d)))"
    "t_ID r' = tid" "t_TokenHash r' = h"
    using rt by (auto simp: revoke_set_def)
  then show "on_file h tid (snd (on_tokens (sql_update tokens_schema (revoke_where tid') revoke_set) d))"
    by (auto simp: on_file_def)
qed

lemma claim_revokes:
  assumes "user_db_ok cfg (db s)" and "on_file h tid (db s)" and "rt_Revoke tid s = (Inr (), s')"
  shows "\<not> token_spent h (db s) \<and> token_spent h (db s')"
proof -
  from rt_Revoke_Inr [OF assms(3)] obtain r where
    r: "r \<in> set (refresh_tokens (db s))" "t_ID r = tid" "\<not> t_Revoked r"
      "r\<lparr>t_Revoked := True\<rparr> \<in> set (refresh_tokens (db s'))" by blast
  have keys: "distinct (map t_TokenHash (refresh_tokens (db s)))" "distinct (map t_ID (refresh_tokens (db s)))"
    using assms(1) by (auto simp: user_db_ok_def tbl_wf_def)
  have hash: "t_TokenHash r = h"
    using assms(2) keys(2) r(1,2) by (auto simp: on_file_def distinct_map inj_on_def)
  have "\<not> token_spent h (db s)"
    using keys(1) r hash by (auto simp: token_spent_def distinct_map inj_on_def)
  moreover have "token_spent h (db s')"
    unfolding token_spent_def using r(4) hash by (intro bexI [of _ "r\<lparr>t_Revoked := True\<rparr>"]) simp_all
  ultimately show ?thesis by blast
qed

interpretation refresh_race: race "refresh_exchange c token" "beside_refresh c token"
    "\<lambda>s. user_db_ok (us_cfg c) (db s)" "\<lambda>rt s. on_file (HashRefreshToken (us_Sum256 c) token) (t_ID rt) (db s)"
    "\<lambda>_. True" "\<lambda>s. token_spent (HashRefreshToken (us_Sum256 c) token) (db s)" for c token
proof unfold_locales
  fix s s' :: "(user_db, message, 'a) uenv_scheme" and k
  let ?h = "HashRefreshToken (us_Sum256 c) token"
  assume ch: "changes (refresh_exchange c token) (beside_refresh c token) s s'"
  show "user_db_ok (us_cfg c) (db s) \<Longrightarrow> user_db_ok (us_cfg c) (db s')"
    by (rule constraints.keeps_refresh_parts [OF ch refl])
  show "on_file ?h (t_ID k) (db s) \<Longrightarrow> on_file ?h (t_ID k) (db s')"
    by (rule filed.keeps_refresh_parts [OF ch refl])
  show "token_spent ?h (db s) \<Longrightarrow> token_spent ?h (db s')"
    by (rule spent.keeps_refresh_parts [OF ch refl])
next
  fix s s' :: "(user_db, message, 'a) uenv_scheme" and i k
  assume "look (refresh_exchange c token) i s = (Inr k, s')"
  then show "on_file (HashRefreshToken (us_Sum256 c) token) (t_ID k) (db s')"
    by (auto simp: refresh_exchange_def bindS_sum_iff bindE_Inr time_Now_def ret_eq fail_eq on_file_def
        dest!: rt_GetByTokenHash_Inr split: if_splits)
next
  fix s s' :: "(user_db, message, 'a) uenv_scheme" and k
  assume "user_db_ok (us_cfg c) (db s)" "on_file (HashRefreshToken (us_Sum256 c) token) (t_ID k) (db s)"
    "claim (refresh_exchange c token) k s = (Inr (), s')"
  then show "\<not> token_spent (HashRefreshToken (us_Sum256 c) token) (db s) \<and>
      token_spent (HashRefreshToken (us_Sum256 c) token) (db s')"
    by (simp add: refresh_exchange_def claim_revokes)
qed simp

text \<open>
  C12: any number of requests may exchange the same refresh token at the same time. However their database statements
  interleave, with other requests between them and whatever fails, at most one of them is
  answered with tokens; and a request that is served alone is one of the interleavings.
\<close>

theorem concurrent_exchanges_succeed_once:
  assumes "token \<noteq> ''''" and "user_db_ok (us_cfg c) (db s0)"
    and "race_reach (refresh_exchange c token) (beside_refresh c token) (\<lambda>_. Looking, s0) (f, s)"
  shows "(\<forall>i j. f i = Answered True \<and> f j = Answered True \<longrightarrow> i = j) \<and>
    (\<forall>i r s'. f i = Looking \<and> svc_RefreshToken c (Some token) s = (r, s') \<longrightarrow>
       race_reach (refresh_exchange c token) (beside_refresh c token) (f, s)
         (f(i := Answered (\<exists>a. r = Inr a)), s'))"
proof (intro conjI allI impI)
  fix i j assume "f i = Answered True \<and> f j = Answered True"
  then show "i = j" using refresh_race.one_winner [OF assms(3,2)] by blast
next
  fix i r s'
  assume run: "f i = Looking \<and> svc_RefreshToken c (Some token) s = (r, s')"
  then have "undisturbed (refresh_exchange c token) i s = (r, s')"
    using svc_RefreshToken_parts [OF assms(1), of c i] by metis
  with run show "race_reach (refresh_exchange c token) (beside_refresh c token) (f, s)
      (f(i := Answered (\<exists>a. r = Inr a)), s')"
    by (intro undisturbed_reach) simp_all
qed

section \<open>Challenges\<close>

text \<open>\<open>VerifyOTP\<close> in its three parts; each request brings a code of its own.\<close>

definition otp_exchange ::
  "user_svc \<Rightarrow> uuid \<Rightarrow> (nat \<Rightarrow> string) \<Rightarrow> ((user_db, message, 'z) uenv_scheme, OTPChallenge, pb_AuthResponse) exchange" where
  "otp_exchange c challengeID code =
     \<lparr>look = (\<lambda>i. bindE (GetChallenge (us_otp c) challengeID) (\<lambda>challenge.
        if ch_Code challenge \<noteq> code i then fail (New KindInvalidInput ''invalid otp code'') else ret challenge)),
      claim = (\<lambda>_. DeleteChallenge (us_otp c) challengeID),
      finish = (\<lambda>challenge. bindE (repo_user_GetByID (ch_UserID challenge)) (\<lambda>user.
        bindE (issueTokens c user) (\<lambda>tokens. ret (toProtoAuth (us_ul c) user tokens))))\<rparr>"

lemma svc_VerifyOTP_parts:
  assumes "cid \<noteq> ''''" and "code i \<noteq> ''''" and "uuid_Parse (us_ul c) cid = Some challengeID"
  shows "svc_VerifyOTP c (Some (cid, code i)) = undisturbed (otp_exchange c challengeID code) i"
  using assms
  by (auto simp: fun_eq_iff svc_VerifyOTP_def undisturbed_def otp_exchange_def bindE_def bindS_def fail_def
      ret_def split: prod.splits sum.splits)

definition beside_otp ::
  "user_svc \<Rightarrow> uuid \<Rightarrow> (user_db, message, 'z) uenv_scheme \<Rightarrow> (user_db, message, 'z) uenv_scheme \<Rightarrow> bool" where
  "beside_otp c challengeID s s' \<longleftrightarrow>
     (clock s' = clock s \<and> gen s' = gen s \<and> gens s' = gens s \<and> redis s' = redis s) \<or>
     (\<exists>opn. (\<forall>cid code. opn = UVerifyOTP (Some (cid, code)) \<longrightarrow> uuid_Parse (us_ul c) cid \<noteq> Some challengeID) \<and>
       s' = snd (user_step c opn s))"

context challenge_invariant
begin

lemma keeps_otp_parts:
  fixes s s' :: "(user_db, message, 'z) uenv_scheme"
  assumes "changes (otp_exchange c i code) (beside_otp c i) s s'" and "K s"
  shows "K s'"
proof -
  let ?ex = "otp_exchange c i code :: ((user_db, message, 'z) uenv_scheme, OTPChallenge, pb_AuthResponse) exchange"
  have "keeps K (look ?ex j)" "keeps K (claim ?ex k)" "keeps K (finish ?ex k)" for j k
    unfolding otp_exchange_def exchange.simps
    by (intro keeps_all keeps_challenge_ops keeps_repo)+
  from this [THEN keepsI_snd] keepsI_snd [OF keeps_otp_step] show ?thesis
    using assms by (auto simp: changes_def beside_otp_def)
qed

end

interpretation otp_race: race "otp_exchange c i code" "beside_otp c i"
    "\<lambda>s. ids_drawn c (gen s) (gens s) (redis s)" "\<lambda>_ _. True" ids_distinct
    "\<lambda>s. challenge_spent c i (gen s) (gens s) (redis s)" for c i code
proof unfold_locales
  fix s s' :: "(user_db, message, 'a) uenv_scheme"
  assume ch: "changes (otp_exchange c i code) (beside_otp c i) s s'"
  show drawn: "ids_drawn c (gen s) (gens s) (redis s) \<Longrightarrow> ids_drawn c (gen s') (gens s') (redis s')"
    by (rule drawn.keeps_otp_parts [OF ch])
  have "gen s' = gen s \<and> gens s \<le> gens s'"
    using draws_on.keeps_otp_parts [OF ch, where G = "gen s" and N = "gens s"] by simp
  then show "ids_distinct s' \<Longrightarrow> ids_distinct s"
    by (auto simp: ids_distinct_def elim: inj_on_subset)
  assume "ids_drawn c (gen s) (gens s) (redis s)" "ids_distinct s'" "challenge_spent c i (gen s) (gens s) (redis s)"
  moreover from this have "challenge_gone c i (gen s) (gens s) (redis s)"
    by (simp add: challenge_gone_def)
  from gone.keeps_otp_parts [OF ch this] have "challenge_gone c i (gen s') (gens s') (redis s')" .
  ultimately show "challenge_spent c i (gen s') (gens s') (redis s')"
    by (simp add: challenge_gone_def ids_distinct_def)
next
  fix s s' :: "(user_db, message, 'a) uenv_scheme" and k
  assume drawn: "ids_drawn c (gen s) (gens s) (redis s)"
    and "claim (otp_exchange c i code) k s = (Inr (), s')"
  then have del: "DeleteChallenge (us_otp c) i s = (Inr (), s')" by (simp add: otp_exchange_def)
  note d = DeleteChallenge_Inr [OF this]
  then have "i \<in> gen s ` {..<gens s}" using drawn by (auto simp: ids_drawn_def)
  with d show "\<not> challenge_spent c i (gen s) (gens s) (redis s) \<and> challenge_spent c i (gen s') (gens s') (redis s')"
    by (auto simp: challenge_spent_def)
qed (simp_all)

text \<open>
  C13: any number of requests may verify the same challenge at the same time, each with its code. However their calls of Redis and of the
  database interleave, with other requests between them and whatever fails, at most one of them logs in,
  provided that the ids drawn are distinct and that every challenge in Redis has an id that was drawn.
\<close>

theorem concurrent_verifications_succeed_once:
  assumes "ids_drawn c (gen s0) (gens s0) (redis s0)"
    and "race_reach (otp_exchange c challengeID code) (beside_otp c challengeID) (\<lambda>_. Looking, s0) (f, s)"
    and "ids_distinct s" and "f i = Answered True" and "f j = Answered True"
  shows "i = j"
  using otp_race.one_winner [OF assms(2,1,3-5)] .

section \<open>Concrete interleavings\<close>

text \<open>A schedule names the requests whose next part comes next.\<close>

fun schedule ::
  "('s, 'k, 'a) exchange \<Rightarrow> nat list \<Rightarrow> (nat \<Rightarrow> 'k phase) \<times> 's \<Rightarrow> (nat \<Rightarrow> 'k phase) \<times> 's" where
  "schedule ex [] c1 = c1"
| "schedule ex (i # is) c1 =
     (case c1 of (f, s) \<Rightarrow> case part ex i (f i) s of (p, s') \<Rightarrow> schedule ex is (f(i := p), s'))"

lemma schedule_reach: "race_reach ex other c0 c1 \<Longrightarrow> race_reach ex other c0 (schedule ex is c1)"
proof (induction "is" arbitrary: c1)
  case (Cons i "is")
  obtain f s where c1: "c1 = (f, s)" by (cases c1)
  obtain p s' where p: "part ex i (f i) s = (p, s')" by (cases "part ex i (f i) s")
  have "race_reach ex other c0 (f(i := p), s')"
    using race_reach.step [OF Cons.prems [unfolded c1] race_step.part [where f = f and i = i, OF p]] .
  from Cons.IH [OF this] show ?case by (simp add: c1 p)
qed simp

text \<open>Two requests look the same token up before either revokes it.\<close>

definition refresh_race_end :: "(nat \<Rightarrow> RefreshToken phase) \<times> (user_db, message) uenv" where
  "refresh_race_end = schedule (refresh_exchange demo_user_svc ''41'') [0, 1, 0, 1, 0] (\<lambda>_. Looking, snd demo_registered)"

theorem concurrent_exchanges_succeed_once_witness:
  "fst refresh_race_end 0 = Answered True \<and> fst refresh_race_end 1 = Answered False"
proof -
  have "race_reach (refresh_exchange demo_user_svc ''41'') (beside_refresh demo_user_svc ''41'')
      (\<lambda>_. Looking, snd demo_registered) (fst refresh_race_end, snd refresh_race_end)"
    unfolding prod.collapse refresh_race_end_def by (rule schedule_reach) (rule race_reach.start)
  from concurrent_exchanges_succeed_once [OF _ demo_users_ok this] have
    "\<not> (fst refresh_race_end 0 = Answered True \<and> fst refresh_race_end 1 = Answered True)" by fastforce
  moreover have "fst refresh_race_end 0 = Answered True" by code_simp
  moreover have "fst refresh_race_end 1 \<in> {Answered True, Answered False}" by code_simp
  ultimately show ?thesis by blast
qed


lemma otp_race_gen:
  "race_reach (otp_exchange c i code) (beside_otp c i) c0 c1 \<Longrightarrow> gen (snd c1) = gen (snd c0)"
proof (induction rule: race_reach.induct)
  case (step c1 c2)
  from step.hyps(2) have "changes (otp_exchange c i code) (beside_otp c i) (snd c1) (snd c2) \<or> snd c2 = snd c1"
  proof (cases rule: race_step.cases)
    case (part j f s p s')
    with otp_race.part_changes [OF part(3)] show ?thesis by auto
  next
    case (other s s' f)
    then show ?thesis by (simp add: changes_def)
  qed
  with draws_on.keeps_otp_parts [where G = "gen (snd c1)" and N = "gens (snd c1)", of c i code "snd c1" "snd c2"]
    step.IH show ?case by auto
qed simp

text \<open>Two requests with the right code read the challenge before either deletes it.\<close>

definition otp_race_end :: "(nat \<Rightarrow> OTPChallenge phase) \<times> (user_db, message) uenv" where
  "otp_race_end = schedule (otp_exchange demo_user_svc 3 (\<lambda>_. ''00007'')) [0, 1, 0, 1, 0] (\<lambda>_. Looking, demo_challenged)"

lemma otp_race_end_reach:
  "race_reach (otp_exchange demo_user_svc 3 (\<lambda>_. ''00007'')) (beside_otp demo_user_svc 3)
     (\<lambda>_. Looking, demo_challenged) (fst otp_race_end, snd otp_race_end)"
  unfolding prod.collapse otp_race_end_def by (rule schedule_reach) (rule race_reach.start)

lemma demo_challenged_drawn:
  "ids_drawn demo_user_svc (gen demo_challenged) (gens demo_challenged) (redis demo_challenged)"
  "gen demo_challenged = gen demo_users_start"
proof -
  have "ids_drawn demo_user_svc (gen demo_users_start) (gens demo_users_start) (redis demo_users_start)"
    using demo_otp_ok by (simp add: ids_drawn_def demo_users_start_def)
  then show "ids_drawn demo_user_svc (gen demo_challenged) (gens demo_challenged) (redis demo_challenged)"
    unfolding demo_challenged_def demo_registered_def by (intro keepsI_snd [OF drawn.keeps_otp_step])
  have "gen demo_users_start = gen demo_users_start \<and> 0 \<le> gens demo_users_start" by simp
  then have "gen demo_challenged = gen demo_users_start \<and> 0 \<le> gens demo_challenged"
    unfolding demo_challenged_def demo_registered_def by (intro keepsI_snd [OF draws_on.keeps_otp_step])
  then show "gen demo_challenged = gen demo_users_start" by simp
qed

theorem concurrent_verifications_succeed_once_witness:
  "fst otp_race_end 0 = Answered True \<and> fst otp_race_end 1 = Answered False"
proof -
  have "gens (snd otp_race_end) = 5" by code_simp
  moreover have "gen (snd otp_race_end) = (\<lambda>i. of_nat (i + 1))"
    using otp_race_gen [OF otp_race_end_reach] demo_challenged_drawn(2) by (simp add: demo_users_start_def)
  moreover have "inj_on (\<lambda>i. of_nat (i + 1) :: uuid) {..<5}"
  proof -
    have "{..<5 :: nat} = {0, 1, 2, 3, 4}" by auto
    then show ?thesis by (simp add: inj_on_def)
  qed
  ultimately have "ids_distinct (snd otp_race_end)" by (simp add: ids_distinct_def)
  from concurrent_verifications_succeed_once [OF demo_challenged_drawn(1) otp_race_end_reach this, of 0 1] have
    "\<not> (fst otp_race_end 0 = Answered True \<and> fst otp_race_end 1 = Answered True)" by auto
  moreover have "fst otp_race_end 0 = Answered True" by code_simp
  moreover have "fst otp_race_end 1 \<in> {Answered True, Answered False}" by code_simp
  ultimately show ?thesis by blast
qed

end
