(* ===== verification/Contract.thy ===== *)
theory Contract
  imports GatewayProps
begin

text \<open>
  The types of what leaves a process: the errors a caller of a gRPC server can see, and the replies of
  the gateway's routes, with their bodies and cookies.
\<close>

section \<open>Errors of a server\<close>











section \<open>Replies of the gateway\<close>

text \<open>The body of a success, by route.\<close>

definition success_body :: "string \<times> string \<Rightarrow> http_body \<Rightarrow> bool" where
  "success_body route body =
     (case body of
        AuthBody _ \<Rightarrow> route \<in> {(''POST'', ''/api/v1/auth/register''), (''POST'', ''/api/v1/auth/login/password''),
          (''POST'', ''/api/v1/auth/login/otp/verify''), (''POST'', ''/api/v1/auth/refresh'')}
      | OTPBody _ \<Rightarrow> route = (''POST'', ''/api/v1/auth/login/otp'')
      | messageResponse _ \<Rightarrow> route = (''POST'', ''/api/v1/auth/logout'')
      | UserBody u \<Rightarrow> route = (''GET'', ''/api/v1/users/:id'') \<and> u \<noteq> None
      | HealthBody _ \<Rightarrow> route = (''GET'', ''/health'')
      | _ \<Rightarrow> False)"

text \<open>
  What the user service answers to the call for tokens that a request stands for, if it is one (\<open>None\<close> when the service
  is not asked): the call of the route, with the body or the cookie of the request; and the same behind the limit.
\<close>

definition token_call ::
  "(user_db, message, 'z) uenv_scheme gateway \<Rightarrow> string \<times> string \<Rightarrow> http_req \<Rightarrow>
   (('d, 'm, 'z, 'y) gw_state, pb_AuthResponse) comp option" where
  "token_call g route rq =
     (if route = (''POST'', ''/api/v1/auth/register'')
      then map_option (\<lambda>body. userClient_Register g [] \<lparr>rg_PhoneNumber = rb_PhoneNumber body,
          rg_Email = rb_Email body, rg_Password = rb_Password body, rg_FullName = rb_FullName body\<rparr>)
        (bind_register g (rq_body rq))
      else if route = (''POST'', ''/api/v1/auth/login/password'')
      then map_option (\<lambda>body. userClient_PasswordLogin g [] (pl_Identifier body) (pl_Password body))
        (bind_password g (rq_body rq))
      else if route = (''POST'', ''/api/v1/auth/login/otp/verify'')
      then map_option (\<lambda>body. userClient_VerifyOTP g [] (vb_ChallengeID body) (vb_Code body))
        (bind_verify g (rq_body rq))
      else if route = (''POST'', ''/api/v1/auth/refresh'')
      then (case rq_Cookie rq refreshCookieName of
          None \<Rightarrow> None
        | Some token \<Rightarrow> if token = '''' then None else Some (userClient_RefreshToken g [] token))
      else None)"

definition token_answer ::
  "(user_db, message, 'z) uenv_scheme gateway \<Rightarrow> string \<times> string \<Rightarrow> http_req \<Rightarrow>
   ('d, 'm, 'z, 'y) gw_state \<Rightarrow> (goerr + pb_AuthResponse) option" where
  "token_answer g route rq s = map_option (\<lambda>m. fst (m s)) (token_call g route rq)"

definition limited_answer ::
  "('d, 'm, 'z, 'y) gw_state rate_lib \<Rightarrow> (user_db, message, 'z) uenv_scheme gateway \<Rightarrow> string \<times> string \<Rightarrow>
   http_req \<Rightarrow> ('d, 'm, 'z, 'y) gw_state \<Rightarrow> (goerr + pb_AuthResponse) option" where
  "limited_answer rate g route rq s =
     (case Check rate (''auth:'' @ rq_ClientIP rq) (PerMinute 10) s of
        (Inl err, s') \<Rightarrow> token_answer g route rq s'
      | (Inr res, s') \<Rightarrow> if Allowed res then token_answer g route rq s' else None)"

text \<open>The one cookie there is, with its attributes; a reply that hands out tokens, and one that does not.\<close>

definition refresh_cookie :: "'u gateway \<Rightarrow> cookie \<Rightarrow> bool" where
  "refresh_cookie g ck \<longleftrightarrow> ck_Name ck = refreshCookieName \<and> ck_Path ck = refreshCookiePath \<and>
     ck_Domain ck = ck_cfg_Domain (gw_cookieCfg g) \<and> ck_Secure ck = ck_cfg_Secure (gw_cookieCfg g) \<and>
     ck_HttpOnly ck \<and> ck_SameSiteStrict ck"

definition hands_out :: "'u gateway \<Rightarrow> pb_AuthResponse \<Rightarrow> http_reply \<Rightarrow> bool" where
  "hands_out g auth rp \<longleftrightarrow> rp_status rp = 200 \<and>
     (\<exists>b. rp_body rp = AuthBody b \<and> ab_AccessToken b = AccessToken auth \<and> ab_ExpiresIn b = ExpiresIn auth \<and>
        ab_User b = toUserBody g (Some (auth_User auth))) \<and>
     (\<exists>ck. rp_cookies rp = [ck] \<and> ck_Value ck = RefreshTokenText auth \<and>
        ck_MaxAge ck = RefreshMaxAgeSeconds (gw_cookieCfg g))"

definition withholds :: "http_reply \<Rightarrow> bool" where
  "withholds rp \<longleftrightarrow> (case rp_body rp of AuthBody _ \<Rightarrow> False | _ \<Rightarrow> True) \<and>
     list_all (\<lambda>ck. ck_Value ck = '''' \<and> ck_MaxAge ck = -1) (rp_cookies rp)"

definition typed_reply ::
  "'u gateway \<Rightarrow> string \<times> string \<Rightarrow> (goerr + pb_AuthResponse) option \<Rightarrow> http_reply \<Rightarrow> bool" where
  "typed_reply g route answered rp \<longleftrightarrow>
     (if rp_status rp = 200 then success_body route (rp_body rp)
      else rp_status rp \<in> {400, 401, 403, 404, 409, 429, 500} \<and>
        (case rp_body rp of ErrorBody _ \<Rightarrow> True | errorResponse _ \<Rightarrow> True | _ \<Rightarrow> False)) \<and>
     list_all (refresh_cookie g) (rp_cookies rp) \<and>
     (case answered of Some (Inr auth) \<Rightarrow> hands_out g auth rp | _ \<Rightarrow> withholds rp)"

lemmas typed_defs =
  typed_reply_def success_body_def refresh_cookie_def hands_out_def withholds_def JSON_def
  respondWithAuth_def setRefreshCookie_def clearRefreshCookie_def

lemma Respond_codes: "fst (Respond lib err) \<in> {400, 401, 403, 404, 409, 429, 500}"
proof -
  have "httpStatusFromCode c \<in> {400, 401, 403, 404, 409, 429, 500}" for c by (cases c) simp_all
  then show ?thesis by (auto simp: Respond_def split: option.splits)
qed

lemma typed_errors:
  assumes "\<forall>auth. answered \<noteq> Some (Inr auth)"
  shows "typed_reply g route answered (httperrors_Respond g err)"
    and "typed_reply g route answered (clearRefreshCookie g (httperrors_Respond g err))"
    and "code \<in> {400, 401, 429} \<Longrightarrow> typed_reply g route answered (JSON code (errorResponse msg))"
  using assms Respond_codes [of "gw_status g" err] Respond_not_ok [of "gw_status g" err]
  by (auto simp: typed_defs httperrors_Respond_def split: prod.splits option.splits sum.splits)

text \<open>A handler that is reached, and one behind the limit of the authentication routes.\<close>

lemma typed_token_route:
  assumes "route \<in> {(''POST'', ''/api/v1/auth/register''), (''POST'', ''/api/v1/auth/login/password''),
      (''POST'', ''/api/v1/auth/login/otp/verify''), (''POST'', ''/api/v1/auth/refresh'')}"
    and "\<And>auth. k (Inr auth) = respondWithAuth g auth"
    and "\<And>err. typed_reply g route (Some (Inl err)) (k (Inl err))"
  shows "typed_reply g route (Some (fst (m s))) (fst (after_call m k s))"
proof -
  obtain r s1 where run: "m s = (r, s1)" by (cases "m s")
  show ?thesis
  proof (cases r)
    case (Inl err)
    with assms(3) run show ?thesis by (simp add: after_call_def)
  next
    case (Inr auth)
    with run have "fst (after_call m k s) = respondWithAuth g auth" by (simp add: after_call_def assms(2))
    with assms(1) run Inr show ?thesis by (simp add: typed_defs)
  qed
qed

lemma typed_after_call:
  "(\<And>r. typed_reply g route answered (k r)) \<Longrightarrow> typed_reply g route answered (fst (after_call m k s))"
  by (simp add: after_call_def split: prod.splits)

lemma typed_handlers:
  "typed_reply g (''POST'', ''/api/v1/auth/register'')
     (token_answer g (''POST'', ''/api/v1/auth/register'') rq s) (fst (gw_Register g rq s))"
  "typed_reply g (''POST'', ''/api/v1/auth/login/password'')
     (token_answer g (''POST'', ''/api/v1/auth/login/password'') rq s) (fst (gw_PasswordLogin g rq s))"
  "typed_reply g (''POST'', ''/api/v1/auth/login/otp'')
     (token_answer g (''POST'', ''/api/v1/auth/login/otp'') rq s) (fst (gw_OTPLogin g rq s))"
  "typed_reply g (''POST'', ''/api/v1/auth/login/otp/verify'')
     (token_answer g (''POST'', ''/api/v1/auth/login/otp/verify'') rq s) (fst (gw_VerifyOTP g rq s))"
  "typed_reply g (''POST'', ''/api/v1/auth/refresh'')
     (token_answer g (''POST'', ''/api/v1/auth/refresh'') rq s) (fst (gw_RefreshToken g rq s))"
  "typed_reply g (''POST'', ''/api/v1/auth/logout'')
     (token_answer g (''POST'', ''/api/v1/auth/logout'') rq s) (fst (gw_Logout g rq s))"
  "typed_reply g (''GET'', ''/api/v1/users/:id'')
     (limited_answer rate g (''GET'', ''/api/v1/users/:id'') rq s') (fst (gw_GetUser g rq s))"
proof -
  show "typed_reply g (''POST'', ''/api/v1/auth/register'')
      (token_answer g (''POST'', ''/api/v1/auth/register'') rq s) (fst (gw_Register g rq s))"
    by (cases "bind_register g (rq_body rq)")
      (auto simp: gw_Register_def token_answer_def token_call_def answer_def typed_errors intro!: typed_token_route)
  show "typed_reply g (''POST'', ''/api/v1/auth/login/password'')
      (token_answer g (''POST'', ''/api/v1/auth/login/password'') rq s) (fst (gw_PasswordLogin g rq s))"
    by (cases "bind_password g (rq_body rq)")
      (auto simp: gw_PasswordLogin_def token_answer_def token_call_def answer_def typed_errors intro!: typed_token_route)
  show "typed_reply g (''POST'', ''/api/v1/auth/login/otp/verify'')
      (token_answer g (''POST'', ''/api/v1/auth/login/otp/verify'') rq s) (fst (gw_VerifyOTP g rq s))"
    by (cases "bind_verify g (rq_body rq)")
      (auto simp: gw_VerifyOTP_def token_answer_def token_call_def answer_def typed_errors intro!: typed_token_route)
  show "typed_reply g (''POST'', ''/api/v1/auth/refresh'')
      (token_answer g (''POST'', ''/api/v1/auth/refresh'') rq s) (fst (gw_RefreshToken g rq s))"
    by (cases "rq_Cookie rq refreshCookieName")
      (auto simp: gw_RefreshToken_def token_answer_def token_call_def answer_def typed_errors intro!: typed_token_route)
  have none: "token_answer g route rq s = None"
    if "route \<in> {(''POST'', ''/api/v1/auth/login/otp''), (''POST'', ''/api/v1/auth/logout''),
      (''GET'', ''/api/v1/users/:id'')}" for route s
    using that by (auto simp: token_answer_def token_call_def)
  show "typed_reply g (''POST'', ''/api/v1/auth/login/otp'')
      (token_answer g (''POST'', ''/api/v1/auth/login/otp'') rq s) (fst (gw_OTPLogin g rq s))"
    by (auto simp: none gw_OTPLogin_def answer_def typed_errors intro!: typed_after_call split: option.splits sum.splits)
      (simp_all add: typed_defs)
  show "typed_reply g (''POST'', ''/api/v1/auth/logout'')
      (token_answer g (''POST'', ''/api/v1/auth/logout'') rq s) (fst (gw_Logout g rq s))"
    by (auto simp: none gw_Logout_def Let_def answer_def typed_errors intro!: typed_after_call split: option.splits sum.splits)
      (simp_all add: typed_defs)
  have "limited_answer rate g (''GET'', ''/api/v1/users/:id'') rq s' = None"
    by (auto simp: limited_answer_def none split: prod.splits sum.splits)
  then show "typed_reply g (''GET'', ''/api/v1/users/:id'')
      (limited_answer rate g (''GET'', ''/api/v1/users/:id'') rq s') (fst (gw_GetUser g rq s))"
    by (auto simp: gw_GetUser_def typed_errors toUserBody_def intro!: typed_after_call split: sum.splits)
      (simp_all add: typed_defs)
qed

lemma typed_limited:
  assumes "\<And>s. typed_reply g route (token_answer g route rq s) (fst (h rq s))"
  shows "typed_reply g route (limited_answer rate g route rq s) (fst (RateLimit rate (PerMinute 10) ''auth'' h rq s))"
  using assms
  by (auto simp: RateLimit_def limited_answer_def answer_def typed_errors split: prod.splits sum.splits)

text \<open>
  C21: the replies of the gateway are typed. Whatever the request, the user service and the network do, each of its own routes answers
  with status 200 and the body that belongs to the route, or with one of seven error codes and an error body; the only
  cookie is the refresh cookie, for the configured domain and the paths of authentication, hidden from scripts and from
  other sites. When the user service was asked for tokens and gave them, the reply hands out these: the access token in the body and the
  refresh token in the cookie, with the configured life. In every other case no token is handed out, and the cookie is cleared or left alone.
\<close>

theorem gateway_replies_are_typed:
  assumes "(route, h) \<in> set (Setup rate g swagger)" and "route \<noteq> (''GET'', ''/swagger/*any'')"
  shows "typed_reply g route (limited_answer rate g route rq s) (fst (h rq s))"
proof -
  have "limited_answer rate g (''GET'', ''/health'') rq s = None"
    by (auto simp: limited_answer_def token_answer_def token_call_def split: prod.splits sum.splits)
  then have "typed_reply g (''GET'', ''/health'') (limited_answer rate g (''GET'', ''/health'') rq s)
      (JSON 200 (HealthBody ''ok''))"
    by (simp add: typed_defs)
  with assms show ?thesis
    by (auto simp: Setup_def registerAuthRoutes_def Let_def answer_def intro: typed_limited typed_handlers)
qed

section \<open>Concrete replies\<close>


definition demo_limit :: "(unit, unit, unit, unit) gw_state rate_lib" where
  "demo_limit = (\<lambda>_ _. ret \<lparr>rr_Allowed = 1, rr_Remaining = 0, rr_RetryAfter = 0\<rparr>)"

definition demo_refresh_reply :: http_reply where
  "demo_refresh_reply =
     fst (RateLimit demo_limit (PerMinute 10) ''auth'' (gw_RefreshToken (demo_gateway 1)) demo_rq demo_gw_start)"

theorem gateway_replies_are_typed_witness:
  "\<exists>auth. limited_answer demo_limit (demo_gateway 1) (''POST'', ''/api/v1/auth/refresh'') demo_rq demo_gw_start = Some (Inr auth) \<and>
    map ck_Value (rp_cookies demo_refresh_reply) = [RefreshTokenText auth] \<and> rp_status demo_refresh_reply = 200"
proof -
  let ?route = "(''POST'', ''/api/v1/auth/refresh'')"
  have route: "(?route, RateLimit demo_limit (PerMinute 10) ''auth'' (gw_RefreshToken (demo_gateway 1))) \<in>
      set (Setup demo_limit (demo_gateway 1) (\<lambda>_. answer (JSON 200 (HealthBody ''pages''))))"
    by (simp add: Setup_def registerAuthRoutes_def Let_def)
  have "(case limited_answer demo_limit (demo_gateway 1) ?route demo_rq demo_gw_start of
      Some (Inr auth) \<Rightarrow> True | _ \<Rightarrow> False)"
    by code_simp
  then obtain auth where "limited_answer demo_limit (demo_gateway 1) ?route demo_rq demo_gw_start = Some (Inr auth)"
    by (auto split: option.splits sum.splits)
  with gateway_replies_are_typed [OF route, of demo_rq demo_gw_start] show ?thesis
    by (auto simp: demo_refresh_reply_def typed_reply_def hands_out_def)
qed

end
