(* ===== verification/Container.thy ===== *)
theory Container
  imports AppErrors
begin

text \<open>
  How the services are put together: the constructors that the \<open>module.go\<close> files give to the container
  of \<open>go.uber.org/fx\<close>, the functions they have it invoke, and the \<open>main\<close> of each service.

  A constructor is its parameter types and its result types; a type is a constructor of \<open>go_type\<close>, where
  one a package of the running service declares has no prefix. The container itself is a parameter: what
  is used of it is that it starts an application exactly when no two constructors make the same type and
  every parameter of an invoked function can be made (\<open>container_ok\<close>).

  \<open>can_make\<close> says which types can be made; \<open>makes\<close> computes them, and the first lemmas show that the two
  agree.
\<close>

section \<open>Constructors\<close>

record 't provider =
  needs :: "'t list"
  gives :: "'t list"

inductive can_make :: "'t list \<Rightarrow> 't provider list \<Rightarrow> 't \<Rightarrow> bool" for given ps where
  given: "t \<in> set given \<Longrightarrow> can_make given ps t"
| made: "p \<in> set ps \<Longrightarrow> \<forall>u \<in> set (needs p). can_make given ps u \<Longrightarrow> t \<in> set (gives p) \<Longrightarrow>
    can_make given ps t"

definition ready :: "'t list \<Rightarrow> 't provider \<Rightarrow> bool" where
  "ready known p \<longleftrightarrow> set (needs p) \<subseteq> set known"

text \<open>In every round the constructors that have their parameters run, until none is left that has.\<close>

function makes :: "'t list \<Rightarrow> 't provider list \<Rightarrow> 't list" where
  "makes known ps =
     (if filter (ready known) ps = [] then known
      else makes (concat (map gives (filter (ready known) ps)) @ known) (filter (\<lambda>p. \<not> ready known p) ps))"
  by pat_completeness auto

termination
  by (relation "measure (length \<circ> snd)") (auto simp: filter_empty_conv intro!: length_filter_less)

declare makes.simps [simp del]

lemma makes_done: "filter (ready known) ps = [] \<Longrightarrow> makes known ps = known"
  by (simp add: makes.simps)

lemma makes_round:
  "filter (ready known) ps \<noteq> [] \<Longrightarrow>
   makes known ps =
     makes (concat (map gives (filter (ready known) ps)) @ known) (filter (\<lambda>p. \<not> ready known p) ps)"
  by (subst makes.simps) simp

lemma makes_extends: "set known \<subseteq> set (makes known ps)"
proof (induction known ps rule: makes.induct)
  case (1 known ps)
  then show ?case
    by (cases "filter (ready known) ps = []") (auto simp: makes_done makes_round)
qed

lemma makes_sound:
  assumes "\<forall>t \<in> set known. can_make given all t" and "set ps \<subseteq> set all" and "t \<in> set (makes known ps)"
  shows "can_make given all t"
  using assms
proof (induction known ps rule: makes.induct)
  case (1 known ps)
  show ?case
  proof (cases "filter (ready known) ps = []")
    case True
    with 1 show ?thesis by (simp add: makes_done)
  next
    case False
    have new: "can_make given all u" if "q \<in> set ps" "ready known q" "u \<in> set (gives q)" for q u
    proof (rule made [OF _ _ that(3)])
      show "q \<in> set all" using that(1) 1(3) by auto
      show "\<forall>u \<in> set (needs q). can_make given all u" using that(2) 1(2) by (auto simp: ready_def)
    qed
    show ?thesis
    proof (rule 1(1) [OF False])
      show "\<forall>t \<in> set (concat (map gives (filter (ready known) ps)) @ known). can_make given all t"
        using 1(2) new by auto
      show "set (filter (\<lambda>p. \<not> ready known p) ps) \<subseteq> set all" using 1(3) by auto
      show "t \<in> set (makes (concat (map gives (filter (ready known) ps)) @ known)
          (filter (\<lambda>p. \<not> ready known p) ps))"
        using 1(4) by (simp only: makes_round [OF False])
    qed
  qed
qed

text \<open>Nothing can be added to what is made by a constructor that is still there.\<close>

lemma makes_closed:
  assumes "p \<in> set ps" and "set (needs p) \<subseteq> set (makes known ps)"
  shows "set (gives p) \<subseteq> set (makes known ps)"
  using assms
proof (induction known ps rule: makes.induct)
  case (1 known ps)
  let ?known = "concat (map gives (filter (ready known) ps)) @ known"
    and ?ps = "filter (\<lambda>p. \<not> ready known p) ps"
  show ?case
  proof (cases "filter (ready known) ps = []")
    case True
    then show ?thesis using 1(2,3) by (auto simp: makes_done filter_empty_conv ready_def)
  next
    case False
    show ?thesis
    proof (cases "ready known p")
      case True
      then have "set (gives p) \<subseteq> set ?known" using 1(2) by auto
      also have "\<dots> \<subseteq> set (makes known ps)"
        unfolding makes_round [OF False] by (rule makes_extends)
      finally show ?thesis .
    next
      case unready: False
      then show ?thesis
        using 1(1) [OF False] 1(2,3) by (simp add: makes_round [OF False])
    qed
  qed
qed

lemma can_make_iff: "can_make given ps t \<longleftrightarrow> t \<in> set (makes given ps)"
proof
  assume "can_make given ps t"
  then show "t \<in> set (makes given ps)"
  proof induction
    case (given t)
    then show ?case using makes_extends [of given ps] by blast
  next
    case (made p t)
    then have "set (needs p) \<subseteq> set (makes given ps)" by blast
    from makes_closed [OF made.hyps(1) this] made.hyps(2) show ?case by blast
  qed
next
  assume "t \<in> set (makes given ps)"
  then show "can_make given ps t" by (rule makes_sound [rotated 2]) (auto intro: given)
qed

section \<open>The modules of the packages\<close>

datatype go_type =
    FxLifecycle | TimeDuration
  | PgxPool | DBTX | RedisClient | RabbitConnection | RabbitConsumer | RabbitPublisher
  | ClientManager | Limiter | TokenManager
  | PostgresConfig | RedisConfig | RabbitMQConfig | JWTConfig | ZarinpalConfig | Config
  | UserRepository | RefreshTokenRepository | OTPRepository
  | ProductRepository | RawProductRepository    \<comment> \<open>the one with \<open>name:"rawProductRepository"\<close>\<close>
  | OrderRepository | PaymentRepository | EventRepository
  | ProductCacheStore | ProductClient | GatewayClient | EventPublisher | RabbitMQEventPublisher
  | UserService | ProductService | OrderService | PaymentService
  | StockReleaseConsumer | StockConfirmConsumer | PaymentEventConsumer | OrderCreatedConsumer
  | HandlerGRPCServer | ServerGRPCServer

text \<open>What the container itself provides.\<close>

definition fx_types :: "go_type list" where
  "fx_types = [FxLifecycle]"

definition postgres_Module :: "go_type provider list" where
  "postgres_Module =
     [\<lparr>needs = [FxLifecycle, PostgresConfig], gives = [PgxPool]\<rparr>,
      \<lparr>needs = [PgxPool], gives = [DBTX]\<rparr>]"

definition redis_Module :: "go_type provider list" where
  "redis_Module =
     [\<lparr>needs = [RedisConfig], gives = [RedisClient]\<rparr>]"

definition rabbitmq_Module :: "go_type provider list" where
  "rabbitmq_Module =
     [\<lparr>needs = [RabbitMQConfig], gives = [RabbitConnection]\<rparr>,
      \<lparr>needs = [RabbitConnection], gives = [RabbitConsumer]\<rparr>,
      \<lparr>needs = [RabbitConnection], gives = [RabbitPublisher]\<rparr>]"

definition grpcclient_Module :: "go_type provider list" where
  "grpcclient_Module =
     [\<lparr>needs = [], gives = [ClientManager]\<rparr>]"

definition ratelimit_Module :: "go_type provider list" where
  "ratelimit_Module =
     [\<lparr>needs = [RedisClient], gives = [Limiter]\<rparr>]"

definition auth_Module :: "go_type provider list" where
  "auth_Module =
     [\<lparr>needs = [JWTConfig], gives = [TokenManager]\<rparr>]"

text \<open>The parameters of the \<open>RegisterLifecycle\<close> that three of them have invoked.\<close>

definition redis_RegisterLifecycle :: "go_type list" where
  "redis_RegisterLifecycle = [FxLifecycle, RedisClient]"

definition rabbitmq_RegisterLifecycle :: "go_type list" where
  "rabbitmq_RegisterLifecycle = [FxLifecycle, RabbitConnection]"

definition grpcclient_RegisterLifecycle :: "go_type list" where
  "grpcclient_RegisterLifecycle = [FxLifecycle, ClientManager]"

section \<open>The modules of the services\<close>

text \<open>The four \<open>config.Module\<close> provide the same.\<close>

definition config_constructors :: "go_type provider list" where
  "config_constructors =
     [\<lparr>needs = [], gives = [Config]\<rparr>,
      \<lparr>needs = [Config], gives = [PostgresConfig]\<rparr>,
      \<lparr>needs = [Config], gives = [RedisConfig]\<rparr>,
      \<lparr>needs = [Config], gives = [RabbitMQConfig]\<rparr>,
      \<lparr>needs = [Config], gives = [JWTConfig]\<rparr>]"

definition user_config_Module :: "go_type provider list" where
  "user_config_Module = config_constructors"

definition product_config_Module :: "go_type provider list" where
  "product_config_Module = config_constructors"

definition order_config_Module :: "go_type provider list" where
  "order_config_Module = config_constructors"

definition payment_config_Module :: "go_type provider list" where
  "payment_config_Module = config_constructors"

text \<open>So do the four \<open>server.Module\<close>, with \<open>NewServer\<close> and the invoked \<open>RegisterHooks\<close>.\<close>

definition server_constructors :: "go_type provider list" where
  "server_constructors =
     [\<lparr>needs = [HandlerGRPCServer, TokenManager, Limiter],
        gives = [ServerGRPCServer]\<rparr>]"

definition RegisterHooks_params :: "go_type list" where
  "RegisterHooks_params = [FxLifecycle, ServerGRPCServer, Config]"

definition user_server_Module :: "go_type provider list" where
  "user_server_Module = server_constructors"

definition product_server_Module :: "go_type provider list" where
  "product_server_Module = server_constructors"

definition order_server_Module :: "go_type provider list" where
  "order_server_Module = server_constructors"

definition payment_server_Module :: "go_type provider list" where
  "payment_server_Module = server_constructors"

definition user_RegisterHooks :: "go_type list" where
  "user_RegisterHooks = RegisterHooks_params"

definition product_RegisterHooks :: "go_type list" where
  "product_RegisterHooks = RegisterHooks_params"

definition order_RegisterHooks :: "go_type list" where
  "order_RegisterHooks = RegisterHooks_params"

definition payment_RegisterHooks :: "go_type list" where
  "payment_RegisterHooks = RegisterHooks_params"

definition user_repository_Module :: "go_type provider list" where
  "user_repository_Module =
     [\<lparr>needs = [DBTX], gives = [UserRepository]\<rparr>,
      \<lparr>needs = [DBTX], gives = [RefreshTokenRepository]\<rparr>,
      \<lparr>needs = [RedisClient], gives = [OTPRepository]\<rparr>]"

definition user_service_Module :: "go_type provider list" where
  "user_service_Module =
     [\<lparr>needs = [UserRepository, OTPRepository, RefreshTokenRepository, EventPublisher, TokenManager, Config],
        gives = [UserService]\<rparr>]"

definition user_handler_Module :: "go_type provider list" where
  "user_handler_Module =
     [\<lparr>needs = [UserService], gives = [HandlerGRPCServer]\<rparr>]"

definition user_messaging_Module :: "go_type provider list" where
  "user_messaging_Module =
     [\<lparr>needs = [RabbitPublisher], gives = [EventPublisher]\<rparr>]"

definition product_repository_Module :: "go_type provider list" where
  "product_repository_Module =
     [\<lparr>needs = [DBTX], gives = [RawProductRepository]\<rparr>,
      \<lparr>needs = [DBTX], gives = [EventRepository]\<rparr>]"

definition product_cache_Module :: "go_type provider list" where
  "product_cache_Module =
     [\<lparr>needs = [RedisClient], gives = [ProductCacheStore]\<rparr>,
      \<lparr>needs = [RawProductRepository, ProductCacheStore, TimeDuration, TimeDuration],
        gives = [ProductRepository]\<rparr>]"

definition product_service_Module :: "go_type provider list" where
  "product_service_Module =
     [\<lparr>needs = [ProductRepository], gives = [ProductService]\<rparr>]"

definition product_handler_Module :: "go_type provider list" where
  "product_handler_Module =
     [\<lparr>needs = [ProductService], gives = [HandlerGRPCServer]\<rparr>]"

definition product_messaging_Module :: "go_type provider list" where
  "product_messaging_Module =
     [\<lparr>needs = [PgxPool, ProductCacheStore], gives = [StockReleaseConsumer]\<rparr>,
      \<lparr>needs = [PgxPool, ProductCacheStore], gives = [StockConfirmConsumer]\<rparr>]"

definition product_RegisterConsumers :: "go_type list" where
  "product_RegisterConsumers = [FxLifecycle, RabbitConsumer, StockReleaseConsumer, StockConfirmConsumer]"

definition order_client_Module :: "go_type provider list" where
  "order_client_Module =
     [\<lparr>needs = [ClientManager, Config], gives = [ProductClient]\<rparr>]"

definition order_repository_Module :: "go_type provider list" where
  "order_repository_Module =
     [\<lparr>needs = [PgxPool], gives = [OrderRepository]\<rparr>,
      \<lparr>needs = [PgxPool], gives = [EventRepository]\<rparr>]"

definition order_service_Module :: "go_type provider list" where
  "order_service_Module =
     [\<lparr>needs = [OrderRepository, ProductClient, EventPublisher],
        gives = [OrderService]\<rparr>]"

definition order_messaging_Module :: "go_type provider list" where
  "order_messaging_Module =
     [\<lparr>needs = [RabbitPublisher], gives = [RabbitMQEventPublisher]\<rparr>,
      \<lparr>needs = [RabbitConnection, OrderRepository, RabbitMQEventPublisher],
        gives = [PaymentEventConsumer]\<rparr>,
      \<lparr>needs = [RabbitMQEventPublisher], gives = [EventPublisher]\<rparr>]"

definition order_handler_Module :: "go_type provider list" where
  "order_handler_Module =
     [\<lparr>needs = [OrderService], gives = [HandlerGRPCServer]\<rparr>]"

definition order_RegisterMessagingLifecycle :: "go_type list" where
  "order_RegisterMessagingLifecycle = [FxLifecycle, RabbitMQEventPublisher, PaymentEventConsumer]"

definition payment_client_Module :: "go_type provider list" where
  "payment_client_Module =
     [\<lparr>needs = [Config], gives = [ZarinpalConfig]\<rparr>,
      \<lparr>needs = [ZarinpalConfig], gives = [GatewayClient]\<rparr>]"

definition payment_repository_Module :: "go_type provider list" where
  "payment_repository_Module =
     [\<lparr>needs = [DBTX], gives = [PaymentRepository]\<rparr>,
      \<lparr>needs = [DBTX], gives = [EventRepository]\<rparr>]"

definition payment_service_Module :: "go_type provider list" where
  "payment_service_Module =
     [\<lparr>needs = [PgxPool, PaymentRepository, GatewayClient, EventPublisher, Config],
        gives = [PaymentService]\<rparr>]"

definition payment_handler_Module :: "go_type provider list" where
  "payment_handler_Module =
     [\<lparr>needs = [PaymentService], gives = [HandlerGRPCServer]\<rparr>]"

definition payment_messaging_Module :: "go_type provider list" where
  "payment_messaging_Module =
     [\<lparr>needs = [PaymentService], gives = [OrderCreatedConsumer]\<rparr>,
      \<lparr>needs = [RabbitPublisher], gives = [EventPublisher]\<rparr>]"

definition payment_RegisterConsumers :: "go_type list" where
  "payment_RegisterConsumers = [FxLifecycle, RabbitConsumer, OrderCreatedConsumer]"

section \<open>The services\<close>

text \<open>The \<open>main\<close> of each: its constructors and the functions it has invoked, in order.\<close>

record application =
  provided :: "go_type provider list"
  invoked :: "go_type list list"

definition user_main :: application where
  "user_main =
     \<lparr>provided = user_config_Module @ postgres_Module @ redis_Module @ rabbitmq_Module @
        ratelimit_Module @ auth_Module @ user_repository_Module @ user_service_Module @
        user_handler_Module @ user_messaging_Module @ user_server_Module,
      invoked = [redis_RegisterLifecycle, rabbitmq_RegisterLifecycle, user_RegisterHooks]\<rparr>"

definition product_main :: application where
  "product_main =
     \<lparr>provided = product_config_Module @ postgres_Module @ redis_Module @ rabbitmq_Module @
        ratelimit_Module @ auth_Module @ product_repository_Module @ product_cache_Module @
        product_service_Module @ product_handler_Module @ product_messaging_Module @ product_server_Module,
      invoked = [redis_RegisterLifecycle, rabbitmq_RegisterLifecycle, product_RegisterConsumers,
        product_RegisterHooks]\<rparr>"

definition order_main :: application where
  "order_main =
     \<lparr>provided = order_config_Module @ postgres_Module @ redis_Module @ rabbitmq_Module @
        grpcclient_Module @ ratelimit_Module @ auth_Module @ order_client_Module @
        order_repository_Module @ order_service_Module @ order_messaging_Module @
        order_handler_Module @ order_server_Module,
      invoked = [redis_RegisterLifecycle, rabbitmq_RegisterLifecycle,
        grpcclient_RegisterLifecycle, order_RegisterMessagingLifecycle,
        order_RegisterHooks]\<rparr>"

definition payment_main :: application where
  "payment_main =
     \<lparr>provided = payment_config_Module @ postgres_Module @ redis_Module @ rabbitmq_Module @
        grpcclient_Module @ ratelimit_Module @ auth_Module @ payment_client_Module @
        payment_repository_Module @ payment_service_Module @ payment_handler_Module @
        payment_messaging_Module @ payment_server_Module,
      invoked = [redis_RegisterLifecycle, rabbitmq_RegisterLifecycle,
        grpcclient_RegisterLifecycle, payment_RegisterConsumers, payment_RegisterHooks]\<rparr>"

section \<open>Which of them start\<close>

definition wired :: "application \<Rightarrow> bool" where
  "wired app \<longleftrightarrow> distinct (concat (map gives (provided app))) \<and>
     (\<forall>params \<in> set (invoked app). \<forall>t \<in> set params. can_make fx_types (provided app) t)"

text \<open>\<open>fx.New(...)\<close>, when no constructor returns an error.\<close>

definition container_ok :: "(application \<Rightarrow> goerr option) \<Rightarrow> bool" where
  "container_ok start \<longleftrightarrow> (\<forall>app. start app = None \<longleftrightarrow> wired app)"

lemma wired_code [code]:
  "wired app \<longleftrightarrow> distinct (concat (map gives (provided app))) \<and>
     list_all (list_all (\<lambda>t. t \<in> set (makes fx_types (provided app)))) (invoked app)"
  by (simp add: wired_def can_make_iff list_all_iff)

lemma services_wired:
  "wired user_main" "wired order_main" "wired payment_main"
  "wired (product_main\<lparr>provided := \<lparr>needs = [], gives = [TimeDuration]\<rparr> # provided product_main\<rparr>)"
  by (code_simp)+

text \<open>
  C28: the user, the order and the payment service start. The product service does not: the container
  cannot make the two \<open>time.Duration\<close> that \<open>NewCachedProductRepository\<close> takes, which is all that it
  lacks.
\<close>

theorem product_service_does_not_start:
  assumes "container_ok start"
  shows "start user_main = None \<and> start order_main = None \<and> start payment_main = None \<and>
    start product_main \<noteq> None \<and>
    start (product_main\<lparr>provided := \<lparr>needs = [], gives = [TimeDuration]\<rparr> # provided product_main\<rparr>) = None"
proof -
  have "\<not> wired product_main" by code_simp
  with assms services_wired show ?thesis by (simp add: container_ok_def del: not_None_eq)
qed

definition strict_container :: "application \<Rightarrow> goerr option" where
  "strict_container app = (if wired app then None else Some (New KindInternal ''missing type''))"

theorem product_service_does_not_start_witness: "strict_container product_main \<noteq> None"
  using product_service_does_not_start [of strict_container]
  by (simp add: container_ok_def strict_container_def)

end
