(* ===== verification/Startup.thy ===== *)
theory Startup
  imports Broker ProductService Settings
begin

text \<open>
  The life of the processes: what a process opens while it starts (\<open>api/internal/app/app.go\<close>,
  \<open>api/internal/client/client.go\<close>, \<open>pkg/redis/client.go\<close>, \<open>pkg/postgres/postgres.go\<close>,
  \<open>pkg/grpcclient/manager.go\<close>, \<open>pkg/rabbitmq/module.go\<close> and the order service's
  \<open>internal/messaging/module.go\<close>), what it closes again, the servers' \<open>Start\<close> and \<open>Stop\<close>
  (\<open>internal/server/grpc.go\<close>), and the contexts under which the consumers of the services run.

  The state is the list of what is open. What a library call answers is an argument; a resource that
  \<open>Close\<close> was called on is gone, whatever \<open>Close\<close> answered.
\<close>

section \<open>Resources\<close>

datatype resource = OpenRedis | OpenConn string | OpenPool | OpenChannel

type_synonym 'a start = "(resource list, 'a) comp"

definition open_res :: "resource \<Rightarrow> unit start" where
  "open_res x held = (Inr (), x # held)"

definition close_res :: "resource \<Rightarrow> goerr option \<Rightarrow> unit start" where
  "close_res x answer held = (case answer of Some err \<Rightarrow> (Inl err, remove1 x held) | None \<Rightarrow> (Inr (), remove1 x held))"

text \<open>\<open>_ = x.Close()\<close>, and then the error.\<close>

definition fail_after :: "unit start \<Rightarrow> goerr \<Rightarrow> 'a start" where
  "fail_after m err = bindS m (\<lambda>_. fail err)"

text \<open>\<open>return fmt.Errorf("...: %w", err)\<close>.\<close>

definition errorfE :: "string \<Rightarrow> 'a start \<Rightarrow> 'a start" where
  "errorfE msg m = bindS m (\<lambda>r. case r of Inl err \<Rightarrow> fail (StdError msg (Some err)) | Inr a \<Rightarrow> ret a)"

text \<open>The text of the joined errors is each one's on a line.\<close>

definition errors_Join :: "(goerr \<Rightarrow> string) \<Rightarrow> goerr list \<Rightarrow> goerr option" where
  "errors_Join text errs =
     (if errs = [] then None
      else Some (StdError (tl (concat (map (\<lambda>e. CHR 0x0A # text e) errs))) None))"

section \<open>Redis, PostgreSQL, gRPC\<close>

definition redis_NewClient ::
  "(RedisConfig \<Rightarrow> goerr option) \<Rightarrow> goerr option \<Rightarrow> RedisConfig \<Rightarrow> RedisConfig start" where
  "redis_NewClient ping closed cfg =
     (if rd_Addr cfg = '''' then fail (StdError ''redis address is empty'' None)
      else
      let options = cfg\<lparr>rd_PoolSize := (if rd_PoolSize cfg = 0 then 10 else rd_PoolSize cfg),
            rd_MinIdleConns := (if rd_MinIdleConns cfg = 0 then 2 else rd_MinIdleConns cfg),
            rd_ConnMaxIdle := (if rd_ConnMaxIdle cfg = 0 then 5 * minute else rd_ConnMaxIdle cfg)\<rparr> in
      bindE (open_res OpenRedis) (\<lambda>_.
        case ping options of
          Some err \<Rightarrow> fail_after (close_res OpenRedis closed) (StdError ''failed to connect to redis'' (Some err))
        | None \<Rightarrow> ret options))"

definition NewPool :: "(string \<Rightarrow> goerr option) \<Rightarrow> goerr option \<Rightarrow> string \<Rightarrow> unit start" where
  "NewPool pgxpool_New ping dsn =
     (if dsn = '''' then fail (New KindInvalidInput ''postgres DSN is empty'')
      else case pgxpool_New dsn of
          Some err \<Rightarrow> fail (Wrap KindInternal (Some err) ''failed to create postgres pool'')
        | None \<Rightarrow>
            bindE (open_res OpenPool) (\<lambda>_.
              case ping of
                Some err \<Rightarrow> fail (Wrap KindInternal (Some err) ''failed to ping postgres'')
              | None \<Rightarrow> ret ()))"

text \<open>A \<open>ClientManager\<close> is the addresses of the connections it has made.\<close>

definition NewManager :: "string list" where
  "NewManager = []"

definition Dial :: "(string \<Rightarrow> goerr option) \<Rightarrow> string list \<Rightarrow> string \<Rightarrow> string list start" where
  "Dial newClient conns addr =
     (case newClient addr of
        Some err \<Rightarrow> fail (StdError (''dial '' @ addr) (Some err))
      | None \<Rightarrow> bindE (open_res (OpenConn addr)) (\<lambda>_. ret (conns @ [addr])))"

primrec close_conns :: "(string \<Rightarrow> goerr option) \<Rightarrow> string list \<Rightarrow> goerr list start" where
  "close_conns closed [] = ret []"
| "close_conns closed (addr # conns) =
     bindS (close_res (OpenConn addr) (closed addr)) (\<lambda>r.
       bindE (close_conns closed conns) (\<lambda>errs.
         ret (case r of Inl err \<Rightarrow> err # errs | Inr _ \<Rightarrow> errs)))"

definition CloseAll ::
  "(goerr \<Rightarrow> string) \<Rightarrow> (string \<Rightarrow> goerr option) \<Rightarrow> string list \<Rightarrow> goerr option start" where
  "CloseAll text closed conns = bindE (close_conns closed conns) (\<lambda>errs. ret (errors_Join text errs))"

section \<open>The gateway\<close>

text \<open>What the libraries answer, and the texts of errors.\<close>

record outside =
  ou_ping :: "RedisConfig \<Rightarrow> goerr option"
  ou_redis_closed :: "goerr option"
  ou_newClient :: "string \<Rightarrow> goerr option"
  ou_conn_closed :: "string \<Rightarrow> goerr option"
  ou_text :: "goerr \<Rightarrow> string"
  ou_setting_text :: "setting_error \<Rightarrow> string"

definition clients_New :: "outside \<Rightarrow> string \<Rightarrow> string list start" where
  "clients_New out UserServiceAddr =
     errorfE ''failed to connect to user-service'' (Dial (ou_newClient out) NewManager UserServiceAddr)"

record App =
  app_cfg :: api_Config
  app_http_addr :: string
  app_redis :: "RedisConfig option"
  app_clients :: "string list option"

text \<open>The two deferred functions run while \<open>success\<close> is false, the later one first.\<close>

definition app_New ::
  "outside \<Rightarrow> (nat \<Rightarrow> nat \<Rightarrow> nat \<Rightarrow> nat) \<Rightarrow> environ option \<Rightarrow> environ \<Rightarrow> App start" where
  "app_New out frac file env =
     (case api_Load frac (env_Load file env) of
        Inl e \<Rightarrow> fail (StdError ''failed to load config'' (Some (StdError (ou_setting_text out e) None)))
      | Inr cfg \<Rightarrow>
          bindE (errorfE ''failed to connect to redis''
              (redis_NewClient (ou_ping out) (ou_redis_closed out) (ac_Redis cfg))) (\<lambda>redisClient.
            bindS (errorfE ''failed to initialize grpc clients'' (clients_New out (ac_UserServiceAddr cfg)))
              (\<lambda>r. case r of
                 Inl err \<Rightarrow> fail_after (close_res OpenRedis (ou_redis_closed out)) err
               | Inr clients \<Rightarrow>
                   ret \<lparr>app_cfg = cfg, app_http_addr = '':'' @ ac_HTTPPort cfg,
                     app_redis = Some redisClient, app_clients = Some clients\<rparr>)))"

definition app_Close :: "outside \<Rightarrow> App \<Rightarrow> goerr option start" where
  "app_Close out a =
     bindE (case app_clients a of
         None \<Rightarrow> ret []
       | Some conns \<Rightarrow> bindE (CloseAll (ou_text out) (ou_conn_closed out) conns) (\<lambda>err.
           ret (case err of None \<Rightarrow> [] | Some e \<Rightarrow> [StdError ''grpc clients close'' (Some e)]))) (\<lambda>errs1.
     bindE (case app_redis a of
         None \<Rightarrow> ret []
       | Some _ \<Rightarrow> bindS (close_res OpenRedis (ou_redis_closed out)) (\<lambda>r.
           ret (case r of Inr _ \<Rightarrow> [] | Inl e \<Rightarrow> [StdError ''redis client close'' (Some e)]))) (\<lambda>errs2.
     ret (errors_Join (ou_text out) (errs1 @ errs2))))"

text \<open>
  What \<open>Run\<close> can observe: the server's goroutine ends with an error or as it should
  (\<open>http.ErrServerClosed\<close>, which sends nothing), or a signal comes. \<open>None\<close>: it waits for more.
\<close>

datatype running = ServerEnds "goerr option" | Signalled

fun app_Run :: "goerr option \<Rightarrow> running list \<Rightarrow> goerr option option" where
  "app_Run shutdown [] = None"
| "app_Run shutdown (ServerEnds (Some err) # seen) = Some (Some (StdError ''http server failure'' (Some err)))"
| "app_Run shutdown (ServerEnds None # seen) = app_Run shutdown seen"
| "app_Run shutdown (Signalled # seen) =
     Some (map_option (\<lambda>err. StdError ''http server shutdown failure'' (Some err)) shutdown)"

text \<open>
  \<open>main\<close>: \<open>log.Fatalf\<close> ends the process without running deferred functions. The result is the exit
  code, when the process ends.
\<close>

definition api_main ::
  "outside \<Rightarrow> (nat \<Rightarrow> nat \<Rightarrow> nat \<Rightarrow> nat) \<Rightarrow> environ option \<Rightarrow> environ \<Rightarrow> goerr option \<Rightarrow> running list \<Rightarrow>
    nat option start" where
  "api_main out frac file env shutdown seen =
     bindS (app_New out frac file env) (\<lambda>r. case r of
        Inl _ \<Rightarrow> ret (Some 1)
      | Inr application \<Rightarrow>
          (case app_Run shutdown seen of
             None \<Rightarrow> ret None
           | Some (Some _) \<Rightarrow> ret (Some 1)
           | Some None \<Rightarrow> bindE (app_Close out application) (\<lambda>_. ret (Some 0))))"

section \<open>Channels of the broker\<close>

definition open_channel :: "(Connection \<Rightarrow> goerr + unit) \<Rightarrow> Connection option \<Rightarrow> unit start" where
  "open_channel openCh c =
     (case Connection_Channel openCh c of Inl err \<Rightarrow> fail err | Inr _ \<Rightarrow> open_res OpenChannel)"

definition NewConsumer :: "bool \<Rightarrow> goerr option" where
  "NewConsumer channel = (if \<not> channel then Some (New KindInternal ''rabbitmq channel is nil'') else None)"

definition NewConsumerProvider :: "(Connection \<Rightarrow> goerr + unit) \<Rightarrow> Connection option \<Rightarrow> unit start" where
  "NewConsumerProvider openCh c =
     bindE (open_channel openCh c) (\<lambda>_.
       case NewConsumer True of Some err \<Rightarrow> fail err | None \<Rightarrow> ret ())"

text \<open>\<open>NewPublisherProvider\<close> again, with the channel it opens.\<close>

definition provide_publisher ::
  "(string \<Rightarrow> goerr option) \<Rightarrow> goerr option \<Rightarrow> (Connection \<Rightarrow> goerr + unit) \<Rightarrow> Connection option \<Rightarrow>
    Publisher start" where
  "provide_publisher declared confirm openCh c =
     bindE (open_channel openCh c) (\<lambda>_. of_sum (NewPublisher declared confirm True ''payment_events''))"

text \<open>
  The order service's own constructors close the channel when what follows fails; its
  \<open>NewRabbitPublisher\<close> is not given to the container.
\<close>

definition NewRabbitPublisher ::
  "(string \<Rightarrow> goerr option) \<Rightarrow> goerr option \<Rightarrow> goerr option \<Rightarrow> (Connection \<Rightarrow> goerr + unit) \<Rightarrow>
    Connection option \<Rightarrow> Publisher start" where
  "NewRabbitPublisher declared confirm closed openCh c =
     bindE (open_channel openCh c) (\<lambda>_.
       case NewPublisher declared confirm True ''order.events'' of
         Inl err \<Rightarrow> fail_after (close_res OpenChannel closed) err
       | Inr publisher \<Rightarrow> ret publisher)"

definition NewPaymentEventConsumer ::
  "(string \<Rightarrow> goerr option) \<Rightarrow> (string \<Rightarrow> string \<Rightarrow> string \<Rightarrow> goerr option) \<Rightarrow> goerr option \<Rightarrow>
    (Connection \<Rightarrow> goerr + unit) \<Rightarrow> Connection option \<Rightarrow> unit start" where
  "NewPaymentEventConsumer QueueDeclare QueueBind closed openCh c =
     bindE (wrapE KindInternal ''failed to open channel for payment consumer'' (open_channel openCh c)) (\<lambda>_.
       case NewConsumer True of
         Some err \<Rightarrow> fail_after (close_res OpenChannel closed)
           (Wrap KindInternal (Some err) ''failed to initialize rabbitmq consumer'')
       | None \<Rightarrow>
      (case BindQueue QueueDeclare QueueBind ''order.payment_completed.queue'' ''payment_events''
              RoutingKeyPaymentCompleted of
         Some err \<Rightarrow> fail_after (close_res OpenChannel closed)
           (Wrap KindInternal (Some err) ''failed to bind queue to payment succeeded routing key'')
       | None \<Rightarrow>
      (case BindQueue QueueDeclare QueueBind ''order.payment_failed.queue'' ''payment_events''
              RoutingKeyPaymentFailed of
         Some err \<Rightarrow> fail_after (close_res OpenChannel closed)
           (Wrap KindInternal (Some err) ''failed to bind queue to payment failed routing key'')
       | None \<Rightarrow> ret ())))"

section \<open>The gRPC servers\<close>

text \<open>The order service takes a port with or without its colon; the others put one before it.\<close>

definition listen_on :: "(string \<Rightarrow> goerr option) \<Rightarrow> string \<Rightarrow> string \<Rightarrow> goerr option" where
  "listen_on Listen port addr =
     (case Listen addr of
        Some err \<Rightarrow> Some (StdError (''failed to listen on port '' @ port) (Some err))
      | None \<Rightarrow> None)"

definition order_Start :: "(string \<Rightarrow> goerr option) \<Rightarrow> string \<Rightarrow> goerr option" where
  "order_Start Listen port =
     listen_on Listen port (if take 1 port = '':'' then port else '':'' @ port)"

definition user_Start :: "(string \<Rightarrow> goerr option) \<Rightarrow> string \<Rightarrow> goerr option" where
  "user_Start Listen port = listen_on Listen port ('':'' @ port)"

definition payment_Start :: "(string \<Rightarrow> goerr option) \<Rightarrow> string \<Rightarrow> goerr option" where
  "payment_Start Listen port = listen_on Listen port ('':'' @ port)"

definition product_Start :: "(string \<Rightarrow> goerr option) \<Rightarrow> string \<Rightarrow> goerr option" where
  "product_Start Listen port =
     (case Listen ('':'' @ port) of
        Some err \<Rightarrow> Some (StdError (''product-service: failed to listen on port '' @ port) (Some err))
      | None \<Rightarrow> None)"

text \<open>
  \<open>Stop\<close>, the same in the four: which of the two came first, and whether the server was forced to
  stop.
\<close>

datatype stopping = Drained | DeadlinePassed goerr

definition server_Stop :: "stopping \<Rightarrow> goerr option \<times> bool" where
  "server_Stop first = (case first of Drained \<Rightarrow> (None, False) | DeadlinePassed err \<Rightarrow> (Some err, True))"

section \<open>The consumers\<close>

text \<open>
  The contexts the services give to \<open>Consume\<close>: one that never ends, one that the hook \<open>OnStop\<close>
  cancels, and the one the hook \<open>OnStart\<close> was called with, which ends when the time to start is over
  (the container gives its hooks a context with that deadline).
\<close>

datatype context_of = Background | CancelledOnStop | OfStart

record 'h consumer =
  cs_queue :: string
  cs_ctx :: context_of
  cs_handler :: 'h

definition product_OnStart ::
  "(string \<Rightarrow> goerr option) \<Rightarrow> (string \<Rightarrow> string \<Rightarrow> string \<Rightarrow> goerr option) \<Rightarrow> 'h \<Rightarrow> 'h \<Rightarrow>
    goerr + 'h consumer list" where
  "product_OnStart QueueDeclare QueueBind release confirm =
     (case BindQueue QueueDeclare QueueBind ''product_service_stock_release_queue'' ''order_events''
             eventTypeStockRelease of
        Some err \<Rightarrow> Inl err
      | None \<Rightarrow>
     (case BindQueue QueueDeclare QueueBind ''product_service_stock_confirm_queue'' ''order_events''
             eventTypeStockConfirm of
        Some err \<Rightarrow> Inl err
      | None \<Rightarrow> Inr
         [\<lparr>cs_queue = ''product_service_stock_release_queue'', cs_ctx = CancelledOnStop, cs_handler = release\<rparr>,
          \<lparr>cs_queue = ''product_service_stock_confirm_queue'', cs_ctx = CancelledOnStop, cs_handler = confirm\<rparr>]))"

definition StartListening :: "context_of \<Rightarrow> 'h \<Rightarrow> 'h \<Rightarrow> 'h consumer list" where
  "StartListening ctx completed failed =
     [\<lparr>cs_queue = ''order.payment_completed.queue'', cs_ctx = ctx, cs_handler = completed\<rparr>,
      \<lparr>cs_queue = ''order.payment_failed.queue'', cs_ctx = ctx, cs_handler = failed\<rparr>]"

definition order_OnStart :: "'h \<Rightarrow> 'h \<Rightarrow> goerr + 'h consumer list" where
  "order_OnStart completed failed = Inr (StartListening Background completed failed)"

definition payment_OnStart :: "'h \<Rightarrow> goerr + 'h consumer list" where
  "payment_OnStart created =
     Inr [\<lparr>cs_queue = RoutingKeyOrderCreated, cs_ctx = OfStart, cs_handler = created\<rparr>]"

text \<open>
  What happens to a running process, and what the \<open>select\<close> of a consumer sees of it.
\<close>

datatype happening = Arrives string | StartTimeOver | Stops | BrokerGone

fun sees :: "context_of \<Rightarrow> happening \<Rightarrow> observed list" where
  "sees ctx (Arrives body) = [Delivery body]"
| "sees ctx BrokerGone = [ChannelClosed]"
| "sees ctx StartTimeOver = (if ctx = OfStart then [CtxDone] else [])"
| "sees ctx Stops = (if ctx = CancelledOnStop then [CtxDone] else [])"

definition run_consumer where
  "run_consumer c happened = Consume True (cs_queue c) (Some (cs_handler c)) (concat (map (sees (cs_ctx c)) happened))"

fun body_of :: "decision \<Rightarrow> string" where
  "body_of (Acked body) = body"
| "body_of (Requeued body) = body"

fun arrived :: "happening list \<Rightarrow> string list" where
  "arrived [] = []"
| "arrived (Arrives body # hs) = body # arrived hs"
| "arrived (_ # hs) = arrived hs"

lemma consume_loop_handles_all:
  assumes "\<And>body. keeps healthy (handler body)" and "healthy s"
    and "ctx = OfStart \<Longrightarrow> StartTimeOver \<notin> set hs" and "ctx = CancelledOnStop \<Longrightarrow> Stops \<notin> set hs"
    and "BrokerGone \<notin> set hs"
    and "consume_loop handler (concat (map (sees ctx) hs) @ rest) s = (r, ds, s')"
    and "rest = [] \<or> (\<exists>more. rest = CtxDone # more)"
  shows "map body_of ds = arrived hs \<and> r = (if rest = [] then None else Some None)"
  using assms(2-6)
proof (induction hs arbitrary: s r ds s')
  case Nil
  with assms(7) show ?case by auto
next
  case (Cons h hs)
  show ?case
  proof (cases h)
    case (Arrives body)
    obtain x s1 where h: "handler body s = (x, s1)" by (cases "handler body s")
    have s1: "healthy s1" using keepsD [OF assms(1) Cons.prems(1) h] .
    then have ack: "extern (ret ()) s1 = (Inr (), s1\<lparr>calls := calls s1 + 1\<rparr>)"
      by (simp add: extern_healthy ret_def)
    obtain r1 ds1 s2 where rec: "consume_loop handler (concat (map (sees ctx) hs) @ rest) (s1\<lparr>calls := calls s1 + 1\<rparr>) = (r1, ds1, s2)"
      by (metis prod_cases3)
    from Cons.IH [OF _ _ _ _ rec] Cons.prems s1
    have "map body_of ds1 = arrived hs \<and> r1 = (if rest = [] then None else Some None)" by auto
    with Cons.prems(5) Arrives h ack rec show ?thesis by (cases x) auto
  qed (use Cons in \<open>auto split: if_splits\<close>)
qed

text \<open>Nothing that comes after the end of its context reaches a consumer.\<close>

lemma consume_loop_ends:
  "consume_loop handler (before @ CtxDone # after) s = consume_loop handler (before @ [CtxDone]) s"
  by (induction handler before s rule: consume_loop.induct) (auto split: sum.splits prod.splits)

end
