(* ===== verification/StartupProps.thy ===== *)
theory StartupProps
  imports Startup ProductProps PaymentProps
begin

text \<open>
  What holds of the processes' life: a start of the gateway that fails leaves nothing open, the consumers
  of the product service handle every message until the service stops, and the payment service's consumer
  ends with the time to start.
\<close>

section \<open>What is left open\<close>

lemmas start_defs =
  open_res_def close_res_def fail_after_def errorfE_def bindE_def bindS_def wrapE_def ret_def fail_def of_sum_def

lemma redis_NewClient_held:
  "case redis_NewClient ping closed cfg held of
     (Inl _, held') \<Rightarrow> held' = held | (Inr _, held') \<Rightarrow> held' = OpenRedis # held"
  by (cases "rd_Addr cfg = ''''")
    (simp_all add: redis_NewClient_def start_defs Let_def split: option.splits split del: if_split)

lemma clients_New_held:
  "case clients_New out addr held of
     (Inl _, held') \<Rightarrow> held' = held
   | (Inr conns, held') \<Rightarrow> conns = [addr] \<and> held' = OpenConn addr # held"
  by (simp add: clients_New_def Dial_def NewManager_def start_defs split: option.splits)

text \<open>The constructors on the broker's channels, and on the database.\<close>

lemma order_constructors_held:
  "case NewRabbitPublisher declared confirm closed openCh c held of
     (Inl _, held') \<Rightarrow> held' = held | (Inr _, held') \<Rightarrow> held' = OpenChannel # held"
  "case NewPaymentEventConsumer decl bind closed openCh c held of
     (Inl _, held') \<Rightarrow> held' = held | (Inr _, held') \<Rightarrow> held' = OpenChannel # held"
  by (simp_all add: NewRabbitPublisher_def NewPaymentEventConsumer_def NewConsumer_def open_channel_def
      start_defs split: option.splits sum.splits)

lemma shared_constructors_leave_open:
  "NewPool (\<lambda>_. None) (Some err) (x # dsn) held =
     (Inl (Wrap KindInternal (Some err) ''failed to ping postgres''), OpenPool # held)"
  "provide_publisher (\<lambda>_. Some err) confirm (\<lambda>_. Inr ()) (Some \<lparr>conn = Some False, closeDone = d\<rparr>) held =
     (Inl (Wrap KindInternal (Some err) ''failed to declare exchange''), OpenChannel # held)"
  by (simp_all add: NewPool_def provide_publisher_def open_channel_def Connection_Channel_def
      NewPublisher_def start_defs)

text \<open>
  A start of the gateway that fails, for whatever reason, leaves nothing open that was not open
  before; closing the gateway that a successful start made closes what the start opened, whatever the
  closing calls answer. So does a process that ends with exit code 0.
\<close>

theorem gateway_start_leaves_nothing_open:
  "(case app_New out frac file env held of
      (Inl _, held') \<Rightarrow> held' = held
    | (Inr application, held') \<Rightarrow> snd (app_Close out application held') = held) \<and>
   (case api_main out frac file env shutdown seen held of
      (Inr (Some 0), held') \<Rightarrow> held' = held | _ \<Rightarrow> True)"
proof -
  have close: "\<exists>err. app_Close out
      \<lparr>app_cfg = cfg, app_http_addr = a, app_redis = Some r, app_clients = Some [addr]\<rparr>
      (OpenConn addr # OpenRedis # held) = (Inr err, held)" for cfg a r addr
    by (simp add: app_Close_def CloseAll_def start_defs split: option.splits)
  have start: "case app_New out frac file env held of
      (Inl _, held') \<Rightarrow> held' = held
    | (Inr application, held') \<Rightarrow> \<exists>err. app_Close out application held' = (Inr err, held)"
  proof (cases "api_Load frac (env_Load file env)")
    case (Inr cfg)
    obtain r1 held1 where
      r1: "redis_NewClient (ou_ping out) (ou_redis_closed out) (ac_Redis cfg) held = (r1, held1)" by fastforce
    obtain r2 held2 where r2: "clients_New out (ac_UserServiceAddr cfg) held1 = (r2, held2)" by fastforce
    show ?thesis
      using redis_NewClient_held [where ping = "ou_ping out" and closed = "ou_redis_closed out"
          and cfg = "ac_Redis cfg" and held = held]
        clients_New_held [where out = out and addr = "ac_UserServiceAddr cfg" and held = held1] Inr r1 r2 close
      by (auto simp: app_New_def start_defs split: sum.splits option.splits)
  qed (simp add: app_New_def fail_def)
  obtain r held' where r: "app_New out frac file env held = (r, held')" by fastforce
  show ?thesis
  proof (cases r)
    case (Inr application)
    with start r obtain err where c: "app_Close out application held' = (Inr err, held)" by auto
    show ?thesis
    proof (cases "app_Run shutdown seen")
      case (Some answer)
      with r Inr c show ?thesis
        by (cases answer) (simp_all add: api_main_def bindS_def bindE_def ret_def)
    qed (use r Inr c in \<open>simp add: api_main_def bindS_def ret_def\<close>)
  qed (use start r in \<open>simp add: api_main_def bindS_def ret_def\<close>)
qed

section \<open>Consumers\<close>

lemma keeps_healthy_confirm [keeps_rules]: "keeps healthy (StockConfirm_Handle c body)"
proof -
  have del: "keeps healthy (redis_Del ks)" for ks
    unfolding redis_Del_def by (rule keeps_healthy_extern) (simp add: keeps_def healthy_def)
  show ?thesis
    unfolding StockConfirm_Handle_def confirm_event_def MarkProcessed_def repo_ConfirmStock_def
      store_InvalidateProduct_def Cache_Delete_def
    by (intro keeps_rules del)
qed

lemma run_consumer_healthy:
  assumes "healthy s" and "cs_queue c \<noteq> ''''"
  shows "run_consumer c hs s =
    consume_loop (cs_handler c) (concat (map (sees (cs_ctx c)) hs)) (s\<lparr>calls := calls s + 2\<rparr>)"
  using assms by (simp add: run_consumer_def Consume_def extern_healthy ret_def)

text \<open>
  C30: when no call fails, the product service's consumers are still running after any messages, and have
  answered each of them in the order of arrival, as long as the service is not stopped and the
  broker's connection lasts. The end of the time to start does not matter.
\<close>

theorem stock_messages_are_all_handled:
  assumes "product_OnStart decl bind (StockRelease_Handle c) (StockConfirm_Handle c) = Inr cs"
    and "consumer \<in> set cs" and "healthy s" and "Stops \<notin> set hs" and "BrokerGone \<notin> set hs"
    and "run_consumer consumer hs s = (r, ds, s')"
  shows "r = None \<and> map body_of ds = arrived hs"
proof -
  have c: "cs_ctx consumer = CancelledOnStop" "cs_queue consumer \<noteq> ''''"
    "cs_handler consumer \<in> {StockRelease_Handle c, StockConfirm_Handle c}"
    using assms(1,2) by (auto simp: product_OnStart_def split: option.splits)
  from c(3) have "keeps healthy (cs_handler consumer body)" for body
    by (auto intro: keeps_rules)
  from consume_loop_handles_all [where handler = "cs_handler consumer" and s = "s\<lparr>calls := calls s + 2\<rparr>"
      and ctx = "cs_ctx consumer" and hs = hs and rest = "[]" and r = r and ds = ds and s' = s', OF this]
  show ?thesis
    using assms(3-6) c by (simp add: run_consumer_healthy)
qed

theorem stock_messages_are_all_handled_witness:
  "\<exists>ds s'. run_consumer \<lparr>cs_queue = ''product_service_stock_release_queue'', cs_ctx = CancelledOnStop,
      cs_handler = StockRelease_Handle demo_svc\<rparr> [Arrives ''r'', StartTimeOver, Arrives ''r''] demo_state =
     (None, ds, s') \<and> map body_of ds = [''r'', ''r'']"
proof -
  let ?consumer = "\<lparr>cs_queue = ''product_service_stock_release_queue'', cs_ctx = CancelledOnStop,
      cs_handler = StockRelease_Handle demo_svc\<rparr>"
  let ?hs = "[Arrives ''r'', StartTimeOver, Arrives ''r'']"
  obtain r ds s' where run: "run_consumer ?consumer ?hs demo_state = (r, ds, s')" by (metis prod_cases3)
  have "r = None \<and> map body_of ds = arrived ?hs"
    by (rule stock_messages_are_all_handled [where decl = "\<lambda>_. None" and bind = "\<lambda>_ _ _. None",
        OF _ _ demo_healthy _ _ run])
      (auto simp: product_OnStart_def BindQueue_def eventTypeStockRelease_def eventTypeStockConfirm_def)
  with run show ?thesis by simp
qed

lemma Consume_cong:
  "(\<And>s. consume_loop h obs s = consume_loop h obs' s) \<Longrightarrow>
   Consume channel q (Some h) obs s = Consume channel q (Some h) obs' s"
  by (simp add: Consume_def split: sum.splits prod.splits)

lemma Consume_returns:
  "(\<And>s. fst (consume_loop h obs s) \<noteq> None) \<Longrightarrow> fst (Consume channel q (Some h) obs s) \<noteq> None"
  by (simp add: Consume_def del: not_None_eq split: sum.splits prod.splits)

lemma consume_loop_returns: "fst (consume_loop handler (before @ CtxDone # after) s) \<noteq> None"
  by (induction handler before s rule: consume_loop.induct) (auto split: sum.splits prod.splits)

text \<open>
  C29: the one consumer of the payment service runs under the context of the hook that starts it. Once
  the time to start is over it has ended: whatever arrives afterwards changes nothing, so no order
  announced later gets a payment.
\<close>

theorem payment_consumer_ends_with_start:
  "\<exists>consumer. payment_OnStart (OrderCreated_Handle c) = Inr [consumer] \<and>
     run_consumer consumer (before @ StartTimeOver # after) s = run_consumer consumer (before @ [StartTimeOver]) s \<and>
     fst (run_consumer consumer (before @ StartTimeOver # after) s) \<noteq> None"
proof (intro exI conjI)
  let ?consumer = "\<lparr>cs_queue = RoutingKeyOrderCreated, cs_ctx = OfStart, cs_handler = OrderCreated_Handle c\<rparr>"
  show "payment_OnStart (OrderCreated_Handle c) = Inr [?consumer]" by (simp add: payment_OnStart_def)
  show "run_consumer ?consumer (before @ StartTimeOver # after) s =
      run_consumer ?consumer (before @ [StartTimeOver]) s"
    unfolding run_consumer_def
    by (rule Consume_cong) (simp add: consume_loop_ends [of _ _ "concat (map (sees OfStart) after)"])
  show "fst (run_consumer ?consumer (before @ StartTimeOver # after) s) \<noteq> None"
    unfolding run_consumer_def
    by (rule Consume_returns) (simp add: consume_loop_returns)
qed

end
