(* ===== verification/Shutdown.thy ===== *)
theory Shutdown
  imports Startup Container
begin

text \<open>
  How the services stop: the hooks that their constructors and invoked functions append to the container's
  lifecycle (\<open>RegisterLifecycle\<close>, \<open>RegisterHooks\<close>, \<open>RegisterConsumers\<close>, \<open>NewPoolProvider\<close>), and what each
  \<open>OnStop\<close> ends.

  The container is a parameter. What is used of it is documented of \<open>go.uber.org/fx\<close>: it runs the invoked
  functions in order and a constructor once, right before the first function that needs it (\<open>lazy_calls\<close>), and it
  stops an application by the hooks in the reverse of the order in which they were appended, each whatever the
  others answered (\<open>lifecycle_ok\<close>, of a stop that ends within its time).

  The state is what still works on its own (the server and the consumers), which of it has been told to end but
  not waited for, what has been closed, and who was still at work when something that it relies on was closed.
\<close>

section \<open>What relies on what\<close>

text \<open>
  Who wants a type wants what its constructor needs: the same closure as \<open>can_make\<close>, over the constructors
  turned round.
\<close>

definition turned :: "'t provider list \<Rightarrow> 't provider list" where
  "turned ps = concat (map (\<lambda>p. map (\<lambda>t. \<lparr>needs = [t], gives = needs p\<rparr>) (gives p)) ps)"

definition wanted :: "'t provider list \<Rightarrow> 't list \<Rightarrow> 't list" where
  "wanted ps ts = makes ts (turned ps)"

text \<open>These are the types asked for, and what the constructors of those need.\<close>

lemma wanted_iff:
  "u \<in> set (wanted ps ts) \<longleftrightarrow> u \<in> set ts \<or> (\<exists>p \<in> set ps. u \<in> set (needs p) \<and> (\<exists>t \<in> set (gives p). t \<in> set (wanted ps ts)))"
proof
  assume "u \<in> set (wanted ps ts)"
  then have "can_make ts (turned ps) u" by (simp add: wanted_def can_make_iff)
  then show "u \<in> set ts \<or> (\<exists>p \<in> set ps. u \<in> set (needs p) \<and> (\<exists>t \<in> set (gives p). t \<in> set (wanted ps ts)))"
    by cases (auto simp: wanted_def turned_def can_make_iff)
next
  assume "u \<in> set ts \<or> (\<exists>p \<in> set ps. u \<in> set (needs p) \<and> (\<exists>t \<in> set (gives p). t \<in> set (wanted ps ts)))"
  then have "can_make ts (turned ps) u"
  proof (elim disjE bexE conjE)
    fix p t assume "p \<in> set ps" "u \<in> set (needs p)" "t \<in> set (gives p)" "t \<in> set (wanted ps ts)"
    then show ?thesis
      by (intro made [of "\<lparr>needs = [t], gives = needs p\<rparr>"]) (auto simp: wanted_def turned_def can_make_iff)
  qed (rule given)
  then show "u \<in> set (wanted ps ts)" by (simp add: wanted_def can_make_iff)
qed




section \<open>The hooks\<close>














definition Consumer_Close :: "goerr option \<Rightarrow> bool option \<Rightarrow> goerr option" where
  "Consumer_Close answer c =
     (case c of None \<Rightarrow> None | Some channel \<Rightarrow> if \<not> channel then None else answer)"



text \<open>The servers stop alike; the user's is \<open>server_Stop\<close> itself.\<close>

definition product_Stop :: "stopping \<Rightarrow> goerr option \<times> bool" where
  "product_Stop first = (case first of Drained \<Rightarrow> (None, False) | DeadlinePassed err \<Rightarrow> (Some err, True))"







section \<open>Stopping\<close>





















end
